(* ===== verification/Prelude.thy ===== *)
theory Prelude
  imports Main "HOL-Library.Word"
begin

text \<open>
  Shared vocabulary of the development: machine bytes and integers, C++ vectors as
  lists, results that may carry an exception, and computations that thread a state
  through calls which may throw. The combinators keep the state at the point of the
  throw, as C++ does: a member assigned before a \<^verbatim>\<open>throw\<close> stays assigned.
\<close>

section \<open>Machine integers and vectors\<close>

type_synonym byte = "8 word"
type_synonym bytes = "8 word list"
type_synonym u32 = "32 word"
type_synonym u64 = "64 word"

named_theorems vec_simps \<open>facts on resized, wiped and overwritten vectors\<close>
named_theorems comp_simps \<open>evaluation of results and stateful computations\<close>
named_theorems comp_inv \<open>inversion of successful results and computations\<close>

lemma unat_byte_less [simp]: "unat (x :: byte) < 256"
proof -
  have "unat x < 2 ^ LENGTH(8)"
    by (rule unsigned_less)
  then show ?thesis by simp
qed

text \<open>\<^verbatim>\<open>std::vector::resize\<close>: keep a prefix, or extend with zero bytes.\<close>

definition vec_resize :: "nat \<Rightarrow> bytes \<Rightarrow> bytes" where
  "vec_resize n v = take n v @ replicate (n - length v) 0"

lemma length_vec_resize [simp, vec_simps]: "length (vec_resize n v) = n"
  by (simp add: vec_resize_def)

lemma vec_resize_same [simp, vec_simps]: "length v = n \<Longrightarrow> vec_resize n v = v"
  by (simp add: vec_resize_def)

text \<open>
  A library call that writes \<open>src\<close> through a pointer to the data of a vector \<open>dst\<close>:
  the first \<open>length src\<close> bytes are replaced. \<open>None\<close> is a write past the end.
\<close>

definition overwrite :: "bytes \<Rightarrow> bytes \<Rightarrow> bytes option" where
  "overwrite src dst =
     (if length src \<le> length dst then Some (src @ drop (length src) dst) else None)"

lemma overwrite_exact [simp, vec_simps]:
  "length src = length dst \<Longrightarrow> overwrite src dst = Some src"
  by (simp add: overwrite_def)

lemma overwrite_resize [simp, vec_simps]:
  "length src = n \<Longrightarrow> overwrite src (vec_resize n v) = Some src"
  by simp

lemma overwrite_Some_length: "overwrite src dst = Some v \<Longrightarrow> length v = length dst"
  by (auto simp: overwrite_def split: if_splits)

lemma overwrite_None_iff: "overwrite src dst = None \<longleftrightarrow> length dst < length src"
  by (auto simp: overwrite_def)

section \<open>Results: exceptions as values\<close>

definition rbind :: "'e + 'a \<Rightarrow> ('a \<Rightarrow> 'e + 'b) \<Rightarrow> 'e + 'b" where
  "rbind m f = (case m of Inl e \<Rightarrow> Inl e | Inr x \<Rightarrow> f x)"

lemma rbind_simps [simp, comp_simps]:
  "rbind (Inl e) f = Inl e"
  "rbind (Inr x) f = f x"
  by (simp_all add: rbind_def)

lemma rbind_Inr_iff [comp_inv]:
  "rbind m f = Inr y \<longleftrightarrow> (\<exists>x. m = Inr x \<and> f x = Inr y)"
  by (cases m) auto

lemma rbind_Inl_iff:
  "rbind m f = Inl e \<longleftrightarrow> m = Inl e \<or> (\<exists>x. m = Inr x \<and> f x = Inl e)"
  by (cases m) auto

lemma rbind_assoc: "rbind (rbind m f) g = rbind m (\<lambda>x. rbind (f x) g)"
  by (cases m) auto

definition opt_or :: "'e \<Rightarrow> 'a option \<Rightarrow> 'e + 'a" where
  "opt_or e m = (case m of None \<Rightarrow> Inl e | Some x \<Rightarrow> Inr x)"

lemma opt_or_simps [simp, comp_simps]:
  "opt_or e None = Inl e"
  "opt_or e (Some x) = Inr x"
  by (simp_all add: opt_or_def)

lemma opt_or_Inr_iff [comp_inv]: "opt_or e m = Inr x \<longleftrightarrow> m = Some x"
  by (cases m) auto

lemma opt_or_Inl_iff: "opt_or e m = Inl e' \<longleftrightarrow> m = None \<and> e' = e"
  by (cases m) auto

fun map_result :: "('a \<Rightarrow> 'e + 'b) \<Rightarrow> 'a list \<Rightarrow> 'e + 'b list" where
  "map_result f [] = Inr []"
| "map_result f (x # xs) =
     rbind (f x) (\<lambda>y. rbind (map_result f xs) (\<lambda>ys. Inr (y # ys)))"

lemma map_result_Inr: "(\<And>x. x \<in> set xs \<Longrightarrow> f x = Inr (g x)) \<Longrightarrow> map_result f xs = Inr (map g xs)"
  by (induction xs) auto

lemma map_result_length: "map_result f xs = Inr ys \<Longrightarrow> length ys = length xs"
  by (induction xs arbitrary: ys) (auto simp: rbind_Inr_iff)

section \<open>Computations: state and exceptions\<close>

type_synonym ('s, 'e, 'a) comp = "'s \<Rightarrow> ('e + 'a) \<times> 's"

definition cret :: "'a \<Rightarrow> ('s, 'e, 'a) comp" where
  "cret x s = (Inr x, s)"

definition cthrow :: "'e \<Rightarrow> ('s, 'e, 'a) comp" where
  "cthrow e s = (Inl e, s)"

definition clift :: "'e + 'a \<Rightarrow> ('s, 'e, 'a) comp" where
  "clift r s = (r, s)"

definition cbind :: "('s, 'e, 'a) comp \<Rightarrow> ('a \<Rightarrow> ('s, 'e, 'b) comp) \<Rightarrow> ('s, 'e, 'b) comp" where
  "cbind m f s = (case m s of (Inl e, s') \<Rightarrow> (Inl e, s') | (Inr x, s') \<Rightarrow> f x s')"

definition cthen :: "('s, 'e, 'a) comp \<Rightarrow> ('s, 'e, 'b) comp \<Rightarrow> ('s, 'e, 'b) comp" where
  "cthen m k = cbind m (\<lambda>_. k)"

definition cget :: "('s \<Rightarrow> 'a) \<Rightarrow> ('s, 'e, 'a) comp" where
  "cget f s = (Inr (f s), s)"

definition cmodify :: "('s \<Rightarrow> 's) \<Rightarrow> ('s, 'e, unit) comp" where
  "cmodify f s = (Inr (), f s)"

text \<open>\<^verbatim>\<open>try { m } catch\<close>: the handler sees the exception and the state it left behind.\<close>

definition ccatch :: "('s, 'e, 'a) comp \<Rightarrow> ('e \<Rightarrow> ('s, 'e, 'a) comp) \<Rightarrow> ('s, 'e, 'a) comp" where
  "ccatch m h s = (case m s of (Inl e, s') \<Rightarrow> h e s' | (Inr x, s') \<Rightarrow> (Inr x, s'))"

text \<open>Run a computation on a part of the state, seen through a getter and a setter.\<close>

definition czoom :: "('s \<Rightarrow> 't) \<Rightarrow> ('t \<Rightarrow> 's \<Rightarrow> 's) \<Rightarrow> ('t, 'e, 'a) comp \<Rightarrow> ('s, 'e, 'a) comp" where
  "czoom g p m s = (case m (g s) of (r, t') \<Rightarrow> (r, p t' s))"

lemma comp_eval [simp, comp_simps]:
  "cret x s = (Inr x, s)"
  "cthrow e s = (Inl e, s)"
  "clift r s = (r, s)"
  "cget f s = (Inr (f s), s)"
  "cmodify g s = (Inr (), g s)"
  by (simp_all add: cret_def cthrow_def clift_def cget_def cmodify_def)

lemma cbind_step [comp_simps]:
  "m s = (Inr x, s') \<Longrightarrow> cbind m f s = f x s'"
  "m s = (Inl e, s') \<Longrightarrow> cbind m f s = (Inl e, s')"
  "m s = (Inr x, s') \<Longrightarrow> cthen m k s = k s'"
  "m s = (Inl e, s') \<Longrightarrow> cthen m k s = (Inl e, s')"
  by (simp_all add: cbind_def cthen_def)

lemma cbind_basic [simp, comp_simps]:
  "cbind (cret x) f = f x"
  "cbind (cthrow e) f = cthrow e"
  "cbind (clift (Inr x)) f = f x"
  "cbind (clift (Inl e)) f = cthrow e"
  "cbind (cget g) f s = f (g s) s"
  "cthen (cmodify h) k s = k (h s)"
  by (auto simp: cbind_def cthen_def fun_eq_iff)

lemma cbind_clift: "cbind (clift r) f s = (case r of Inl e \<Rightarrow> (Inl e, s) | Inr x \<Rightarrow> f x s)"
  by (cases r) simp_all

lemma cbind_Inr_iff [comp_inv]:
  "cbind m f s = (Inr y, s') \<longleftrightarrow> (\<exists>x s1. m s = (Inr x, s1) \<and> f x s1 = (Inr y, s'))"
  by (auto simp: cbind_def split: prod.splits sum.splits)

lemma cthen_Inr_iff [comp_inv]:
  "cthen m k s = (Inr y, s') \<longleftrightarrow> (\<exists>x s1. m s = (Inr x, s1) \<and> k s1 = (Inr y, s'))"
  by (simp add: cthen_def cbind_Inr_iff)

lemma cbind_assoc: "cbind (cbind m f) g = cbind m (\<lambda>x. cbind (f x) g)"
  by (auto simp: cbind_def fun_eq_iff split: prod.splits sum.splits)

text \<open>
  The rule for facts that hold on every exit, normal or exceptional: a predicate kept by
  both parts of a sequence is kept by the sequence.
\<close>

definition preserves :: "('s \<Rightarrow> bool) \<Rightarrow> ('s, 'e, 'a) comp \<Rightarrow> bool" where
  "preserves I m \<longleftrightarrow> (\<forall>s. I s \<longrightarrow> I (snd (m s)))"

lemma preservesI: "(\<And>s. I s \<Longrightarrow> I (snd (m s))) \<Longrightarrow> preserves I m"
  by (simp add: preserves_def)

lemma preservesD: "preserves I m \<Longrightarrow> I s \<Longrightarrow> I (snd (m s))"
  by (simp add: preserves_def)

lemma preserves_basic [simp, intro]:
  "preserves I (cret x)" "preserves I (cthrow e)" "preserves I (clift r)" "preserves I (cget g)"
  by (simp_all add: preserves_def)

lemma preserves_cmodify: "(\<And>s. I s \<Longrightarrow> I (g s)) \<Longrightarrow> preserves I (cmodify g)"
  by (simp add: preserves_def)

lemma preserves_cbind [intro]:
  assumes "preserves I m" and "\<And>x. preserves I (f x)"
  shows "preserves I (cbind m f)"
proof (rule preservesI)
  fix s assume "I s"
  with assms(1) have "I (snd (m s))" by (rule preservesD)
  with assms(2) show "I (snd (cbind m f s))"
    by (auto simp: cbind_def preserves_def split: prod.splits sum.splits)
qed

lemma preserves_cthen [intro]:
  "preserves I m \<Longrightarrow> preserves I k \<Longrightarrow> preserves I (cthen m k)"
  unfolding cthen_def by (rule preserves_cbind)

lemma preserves_ccatch [intro]:
  assumes "preserves I m" and "\<And>e. preserves I (h e)"
  shows "preserves I (ccatch m h)"
proof (rule preservesI)
  fix s assume "I s"
  with assms(1) have "I (snd (m s))" by (rule preservesD)
  with assms(2) show "I (snd (ccatch m h s))"
    by (auto simp: ccatch_def preserves_def split: prod.splits sum.splits)
qed

lemma preserves_if [intro]:
  "(b \<Longrightarrow> preserves I m) \<Longrightarrow> (\<not> b \<Longrightarrow> preserves I k) \<Longrightarrow> preserves I (if b then m else k)"
  by simp

lemma preserves_case_option [intro]:
  "preserves I m \<Longrightarrow> (\<And>x. preserves I (f x)) \<Longrightarrow> preserves I (case v of None \<Rightarrow> m | Some x \<Rightarrow> f x)"
  by (cases v) auto

lemma preserves_case_sum [intro]:
  "(\<And>x. preserves I (f x)) \<Longrightarrow> (\<And>x. preserves I (g x)) \<Longrightarrow>
     preserves I (case v of Inl x \<Rightarrow> f x | Inr x \<Rightarrow> g x)"
  by (cases v) auto

section \<open>Decimal and hexadecimal rendering\<close>

text \<open>
  The digits an output stream writes for an unsigned number in base \<open>b\<close>, lower case,
  and \<^verbatim>\<open>std::setw\<close> with \<^verbatim>\<open>std::setfill\<close>.
\<close>

definition digit_char :: "nat \<Rightarrow> char" where
  "digit_char d = (if d < 10 then char_of (48 + d) else char_of (87 + d))"

fun digits_base :: "nat \<Rightarrow> nat \<Rightarrow> string" where
  "digits_base b n =
     (if b < 2 then [] else if n < b then [digit_char n]
      else digits_base b (n div b) @ [digit_char (n mod b)])"

declare digits_base.simps [simp del]

definition dec_of_nat :: "nat \<Rightarrow> string" where
  "dec_of_nat n = digits_base 10 n"

definition hex_of_nat :: "nat \<Rightarrow> string" where
  "hex_of_nat n = digits_base 16 n"

definition setw_fill :: "nat \<Rightarrow> char \<Rightarrow> string \<Rightarrow> string" where
  "setw_fill w c s = replicate (w - length s) c @ s"

text \<open>\<^verbatim>\<open>std::to_string\<close>.\<close>

definition to_string :: "int \<Rightarrow> string" where
  "to_string i = (if i < 0 then CHR ''-'' # dec_of_nat (nat (- i)) else dec_of_nat (nat i))"

lemma digit_char_0 [simp]: "digit_char 0 = CHR ''0''"
  by code_simp

lemma digits_base_small [simp]: "2 \<le> b \<Longrightarrow> n < b \<Longrightarrow> digits_base b n = [digit_char n]"
  by (simp add: digits_base.simps)

lemma digits_base_step: "2 \<le> b \<Longrightarrow> b \<le> n \<Longrightarrow>
    digits_base b n = digits_base b (n div b) @ [digit_char (n mod b)]"
  by (subst digits_base.simps) simp

lemma hex_of_nat_two_digits:
  "n < 256 \<Longrightarrow> setw_fill 2 CHR ''0'' (hex_of_nat n) = [digit_char (n div 16), digit_char (n mod 16)]"
proof (cases "n < 16")
  case True
  then show ?thesis by (simp add: hex_of_nat_def setw_fill_def)
next
  case False
  assume "n < 256"
  with False show ?thesis
    by (simp add: hex_of_nat_def setw_fill_def digits_base_step)
qed

end
