(* ===== verification/Errors.thy ===== *)
theory Errors
  imports Prelude
begin

text \<open>
  The exceptions of the program (\<^verbatim>\<open>external/confmsg/confmsg/shared/exceptions.h\<close>,
  \<^verbatim>\<open>confonnx/server/enclave/exceptions.h\<close>, the curl errors of
  \<^verbatim>\<open>server/shared/curl_helper.h\<close>), the standard ones it throws, and the status codes the
  enclave reports to the host (\<^verbatim>\<open>server/shared/status.h\<close>). \<open>Fault\<close> is no exception: it
  stands for undefined behaviour (a null dereference, a write past a buffer) and for
  \<^verbatim>\<open>abort\<close>, which no \<^verbatim>\<open>catch\<close> clause sees.
\<close>

type_synonym str_map = "(string \<times> string) list"

datatype exn =
    CryptoError string
  | PayloadParseError string
  | SerializationError string
  | OutputBufferTooSmallError string
  | AttestationError string
  | KeyRefreshError string
  | UnknownRequestTypeError string
  | ModelAlreadyInitializedError
  | ServerPayloadParseError string
  | ServerSerializationError string
  | InferenceError string
  | CurlHTTPError string int str_map
  | CurlOtherError string string int
  | OrtException string nat
  | EnclaveSDKError string
  | EnclaveCallError int
  | RuntimeError string
  | LogicError string
  | InvalidArgument string
  | OutOfRange string
  | JsonError string
  | OtherStdException string
  | NonStdException
  | Fault string

text \<open>The message of \<^verbatim>\<open>CurlError\<close>, which the two curl exceptions build in their base class.\<close>

definition curl_error_message :: "string \<Rightarrow> string \<Rightarrow> string" where
  "curl_error_message msg url = ''Curl error: '' @ msg @ '' ('' @ url @ '')''"

text \<open>\<^verbatim>\<open>what()\<close>.\<close>

fun exn_what :: "exn \<Rightarrow> string" where
  "exn_what (CryptoError m) = m"
| "exn_what (PayloadParseError m) = m"
| "exn_what (SerializationError m) = m"
| "exn_what (OutputBufferTooSmallError m) = m"
| "exn_what (AttestationError m) = m"
| "exn_what (KeyRefreshError m) = m"
| "exn_what (UnknownRequestTypeError m) = m"
| "exn_what ModelAlreadyInitializedError = []"
| "exn_what (ServerPayloadParseError m) = m"
| "exn_what (ServerSerializationError m) = m"
| "exn_what (InferenceError m) = m"
| "exn_what (CurlHTTPError url code hs) = curl_error_message (''HTTP code '' @ to_string code) url"
| "exn_what (CurlOtherError msg url code) = curl_error_message msg url"
| "exn_what (OrtException m c) = m"
| "exn_what (EnclaveSDKError m) = m"
| "exn_what (EnclaveCallError status) = ''Code: '' @ to_string status"
| "exn_what (RuntimeError m) = m"
| "exn_what (LogicError m) = m"
| "exn_what (InvalidArgument m) = m"
| "exn_what (OutOfRange m) = m"
| "exn_what (JsonError m) = m"
| "exn_what (OtherStdException m) = m"
| "exn_what NonStdException = []"
| "exn_what (Fault m) = []"

text \<open>The class tests of \<^verbatim>\<open>catch\<close> clauses that name a base class.\<close>

fun is_CurlError :: "exn \<Rightarrow> bool" where
  "is_CurlError (CurlHTTPError _ _ _) = True"
| "is_CurlError (CurlOtherError _ _ _) = True"
| "is_CurlError _ = False"

fun is_Fault :: "exn \<Rightarrow> bool" where
  "is_Fault (Fault _) = True"
| "is_Fault _ = False"

definition is_std_exception :: "exn \<Rightarrow> bool" where
  "is_std_exception e \<longleftrightarrow> \<not> is_Fault e \<and> e \<noteq> NonStdException"

lemma is_std_exception_simps [simp]:
  "\<not> is_std_exception (Fault m)"
  "\<not> is_std_exception NonStdException"
  "is_CurlError e \<Longrightarrow> is_std_exception e"
  by (auto simp: is_std_exception_def elim: is_CurlError.elims)

text \<open>\<^verbatim>\<open>enum EnclaveCallStatus\<close>.\<close>

datatype EnclaveCallStatus =
    SUCCESS
  | UNKNOWN_ERROR
  | CRYPTO_ERROR
  | MODEL_LOADING_ERROR
  | SESSION_ALREADY_INITIALIZED_ERROR
  | SESSION_INITIALIZATION_ERROR
  | PAYLOAD_PARSE_ERROR
  | INFERENCE_ERROR
  | OUTPUT_BUFFER_TOO_SMALL_ERROR
  | OUTPUT_SERIALIZATION_ERROR
  | ATTESTATION_ERROR
  | KEY_REFRESH_ERROR
  | UNKNOWN_REQUEST_TYPE_ERROR
  | MODEL_ALREADY_INITIALIZED_ERROR

fun status_code :: "EnclaveCallStatus \<Rightarrow> int" where
  "status_code SUCCESS = 0"
| "status_code UNKNOWN_ERROR = 1"
| "status_code CRYPTO_ERROR = 2"
| "status_code MODEL_LOADING_ERROR = 3"
| "status_code SESSION_ALREADY_INITIALIZED_ERROR = 4"
| "status_code SESSION_INITIALIZATION_ERROR = 5"
| "status_code PAYLOAD_PARSE_ERROR = 6"
| "status_code INFERENCE_ERROR = 7"
| "status_code OUTPUT_BUFFER_TOO_SMALL_ERROR = 8"
| "status_code OUTPUT_SERIALIZATION_ERROR = 9"
| "status_code ATTESTATION_ERROR = 10"
| "status_code KEY_REFRESH_ERROR = 11"
| "status_code UNKNOWN_REQUEST_TYPE_ERROR = 12"
| "status_code MODEL_ALREADY_INITIALIZED_ERROR = 13"

lemma status_code_inj: "status_code a = status_code b \<longleftrightarrow> a = b"
  by (cases a; cases b) auto

lemma status_code_zero_iff: "status_code s = 0 \<longleftrightarrow> s = SUCCESS"
  by (cases s) auto

text \<open>
  C++ \<^verbatim>\<open>std::map<std::string, std::string>\<close>, iterated in key order: an association list
  kept sorted by key. \<open>map_emplace\<close> keeps the first value of a key,
  \<open>map_assign\<close> (\<^verbatim>\<open>m[k] = v\<close>) the last.
\<close>

fun str_less :: "string \<Rightarrow> string \<Rightarrow> bool" where
  "str_less _ [] = False"
| "str_less [] (_ # _) = True"
| "str_less (a # as) (b # bs) =
     (if (of_char a :: nat) < of_char b then True
      else if (of_char b :: nat) < of_char a then False
      else str_less as bs)"

fun map_assign :: "string \<Rightarrow> string \<Rightarrow> str_map \<Rightarrow> str_map" where
  "map_assign k v [] = [(k, v)]"
| "map_assign k v ((k', v') # m) =
     (if k = k' then (k, v) # m
      else if str_less k k' then (k, v) # (k', v') # m
      else (k', v') # map_assign k v m)"

definition map_emplace :: "string \<Rightarrow> string \<Rightarrow> str_map \<Rightarrow> str_map" where
  "map_emplace k v m = (if map_of m k = None then map_assign k v m else m)"

lemma map_of_map_assign: "map_of (map_assign k v m) = (map_of m)(k \<mapsto> v)"
  by (induction m rule: map_assign.induct) (auto simp: fun_eq_iff)

lemma map_of_map_emplace:
  "map_of (map_emplace k v m) = (if map_of m k = None then (map_of m)(k \<mapsto> v) else map_of m)"
  by (simp add: map_emplace_def map_of_map_assign)

end
