(* ===== verification/Text_Util.thy ===== *)
theory Text_Util
  imports Errors
begin

text \<open>
  The string helpers: \<^verbatim>\<open>Buffer2Hex\<close>, \<^verbatim>\<open>Hex2Buffer\<close> of
  \<^verbatim>\<open>external/confmsg/confmsg/shared/util.cc\<close>, and \<^verbatim>\<open>Trim\<close>, \<^verbatim>\<open>Split\<close>, \<^verbatim>\<open>FromHex\<close>,
  \<^verbatim>\<open>ToHex\<close>, \<^verbatim>\<open>Base64Url\<close> of \<^verbatim>\<open>confonnx/server/shared/util.cc\<close>, over models of the C
  library functions they call (\<^verbatim>\<open>isspace\<close>, \<^verbatim>\<open>strtol\<close>, \<^verbatim>\<open>std::stoi\<close>, stream output).
\<close>

section \<open>C library: character classes, strtol, stoi\<close>

definition isspace :: "char \<Rightarrow> bool" where
  "isspace c = (let n = (of_char c :: nat) in n = 32 \<or> (9 \<le> n \<and> n \<le> 13))"

definition tolower :: "char \<Rightarrow> char" where
  "tolower c = (let n = (of_char c :: nat) in if 65 \<le> n \<and> n \<le> 90 then char_of (n + 32) else c)"

definition digit_value :: "char \<Rightarrow> nat option" where
  "digit_value c = (let n = (of_char c :: nat) in
     if 48 \<le> n \<and> n \<le> 57 then Some (n - 48)
     else if 97 \<le> n \<and> n \<le> 122 then Some (n - 87)
     else if 65 \<le> n \<and> n \<le> 90 then Some (n - 55)
     else None)"

definition is_digit_in :: "nat \<Rightarrow> char \<Rightarrow> bool" where
  "is_digit_in b c = (case digit_value c of None \<Rightarrow> False | Some d \<Rightarrow> d < b)"

definition digits_value :: "nat \<Rightarrow> string \<Rightarrow> nat" where
  "digits_value b s = foldl (\<lambda>a c. a * b + the (digit_value c)) 0 s"

definition strip_sign :: "string \<Rightarrow> bool \<times> string" where
  "strip_sign s = (case s of
     c # r \<Rightarrow> if c = CHR ''-'' then (True, r) else if c = CHR ''+'' then (False, r) else (False, s)
   | [] \<Rightarrow> (False, []))"

definition strip_0x :: "nat \<Rightarrow> string \<Rightarrow> string" where
  "strip_0x b s = (case s of
     z # x # d # r \<Rightarrow>
       if b = 16 \<and> z = CHR ''0'' \<and> (x = CHR ''x'' \<or> x = CHR ''X'') \<and> is_digit_in 16 d
       then d # r else s
   | _ \<Rightarrow> s)"

text \<open>
  \<^verbatim>\<open>strtol\<close>: the value and whether any digit was converted. The result saturates at the
  range of a 64-bit \<^verbatim>\<open>long\<close>.
\<close>

definition strtol :: "nat \<Rightarrow> string \<Rightarrow> int \<times> bool" where
  "strtol b s =
     (let (neg, r) = strip_sign (dropWhile isspace s);
          ds = takeWhile (is_digit_in b) (strip_0x b r);
          v = int (digits_value b ds);
          sv = (if neg then - v else v)
      in (max (- (2 ^ 63)) (min (2 ^ 63 - 1) sv), ds \<noteq> []))"

text \<open>\<^verbatim>\<open>std::stoi\<close>: throws when nothing was converted or the value does not fit an \<^verbatim>\<open>int\<close>.\<close>

definition stoi :: "nat \<Rightarrow> string \<Rightarrow> exn + int" where
  "stoi b s = (case strtol b s of (v, ok) \<Rightarrow>
     if \<not> ok then Inl (InvalidArgument ''stoi'')
     else if v < - (2 ^ 31) \<or> 2 ^ 31 \<le> v then Inl (OutOfRange ''stoi'')
     else Inr v)"

section \<open>Hexadecimal encoding\<close>

definition hex_byte :: "byte \<Rightarrow> string" where
  "hex_byte x = setw_fill 2 CHR ''0'' (hex_of_nat (unat x))"

definition Buffer2Hex :: "bytes \<Rightarrow> string" where
  "Buffer2Hex b = concat (map hex_byte b)"

definition ToHex :: "bytes \<Rightarrow> string" where
  "ToHex v = concat (map hex_byte v)"

fun Hex2Buffer_loop :: "string \<Rightarrow> bytes" where
  "Hex2Buffer_loop (a # b # s) = word_of_int (fst (strtol 16 [a, b])) # Hex2Buffer_loop s"
| "Hex2Buffer_loop _ = []"

definition Hex2Buffer :: "string \<Rightarrow> exn + bytes" where
  "Hex2Buffer s =
     (if length s mod 2 \<noteq> 0 then Inl (RuntimeError ''number of characters must be even'')
      else Inr (Hex2Buffer_loop s))"

fun FromHex_loop :: "string \<Rightarrow> exn + bytes" where
  "FromHex_loop (a # b # s) =
     rbind (stoi 16 [a, b]) (\<lambda>v. rbind (FromHex_loop s) (\<lambda>vs. Inr (word_of_int v # vs)))"
| "FromHex_loop _ = Inr []"

definition FromHex :: "string \<Rightarrow> exn + bytes" where
  "FromHex hex =
     (if length hex mod 2 \<noteq> 0 then Inl (RuntimeError ''invalid size of hex string'')
      else FromHex_loop hex)"

definition Base64Url :: "(bytes \<Rightarrow> string) \<Rightarrow> bytes \<Rightarrow> string" where
  "Base64Url base64_encode d =
     map (\<lambda>c. if c = CHR ''/'' then CHR ''_'' else c)
       (map (\<lambda>c. if c = CHR ''+'' then CHR ''-'' else c) (base64_encode d))"

section \<open>Trim and Split\<close>

text \<open>
  \<^verbatim>\<open>Trim\<close> moves two pointers; \<open>b\<close> and \<open>e\<close> are their offsets from \<^verbatim>\<open>source.c_str()\<close>, so
  \<open>e\<close> starts at \<open>-1\<close> for the empty string.
\<close>

function trim_begin :: "(char \<Rightarrow> bool) \<Rightarrow> string \<Rightarrow> int \<Rightarrow> int \<Rightarrow> int" where
  "trim_begin fn s b e =
     (if b \<le> e \<and> fn (s ! nat b) then trim_begin fn s (b + 1) e else b)"
  by pat_completeness auto
termination
  by (relation "measure (\<lambda>(fn, s, b, e). nat (e + 1 - b))") auto

function trim_end :: "(char \<Rightarrow> bool) \<Rightarrow> string \<Rightarrow> int \<Rightarrow> int \<Rightarrow> int" where
  "trim_end fn s b e =
     (if b \<le> e \<and> fn (s ! nat e) then trim_end fn s b (e - 1) else e)"
  by pat_completeness auto
termination
  by (relation "measure (\<lambda>(fn, s, b, e). nat (e + 1 - b))") auto

declare trim_begin.simps [simp del] trim_end.simps [simp del]

definition Trim_fn :: "string \<Rightarrow> (char \<Rightarrow> bool) \<Rightarrow> string" where
  "Trim_fn source fn =
     (let b = trim_begin fn source 0 (int (length source) - 1);
          e = trim_end fn source b (int (length source) - 1)
      in if e > b then take (nat (e - b + 1)) (drop (nat b) source) else [])"

definition Trim :: "string \<Rightarrow> string" where
  "Trim source = Trim_fn source isspace"

definition Trim_char :: "string \<Rightarrow> char \<Rightarrow> string" where
  "Trim_char source c = Trim_fn source (\<lambda>x. x = c)"

text \<open>\<^verbatim>\<open>std::string::find\<close> of a character from an offset; \<open>None\<close> is \<^verbatim>\<open>npos\<close>.\<close>

function find_char :: "string \<Rightarrow> char \<Rightarrow> nat \<Rightarrow> nat option" where
  "find_char s c i =
     (if i < length s then (if s ! i = c then Some i else find_char s c (Suc i)) else None)"
  by pat_completeness auto
termination
  by (relation "measure (\<lambda>(s, c, i). length s - i)") auto

declare find_char.simps [simp del]

lemma find_char_bounds: "find_char s c i = Some p \<Longrightarrow> i \<le> p \<and> p < length s \<and> s ! p = c"
proof (induction s c i rule: find_char.induct)
  case (1 s c i)
  from "1.prems" have "i < length s"
    by (subst (asm) find_char.simps) (simp split: if_splits)
  with "1" show ?case
    by (cases "s ! i = c") (auto simp: find_char.simps [of s c i])
qed

function Split_loop :: "string \<Rightarrow> char \<Rightarrow> nat \<Rightarrow> string list \<Rightarrow> string list" where
  "Split_loop source d offset acc =
     (case find_char source d offset of
        Some position \<Rightarrow>
          Split_loop source d (position + 1)
            (acc @ [take (position - offset) (drop offset source)])
      | None \<Rightarrow>
          if offset < length source
          then acc @ [take (length source - offset) (drop offset source)]
          else acc)"
  by pat_completeness auto
termination
  by (relation "measure (\<lambda>(s, d, offset, acc). length s - offset)")
     (auto dest!: find_char_bounds)

declare Split_loop.simps [simp del]

definition Split :: "string \<Rightarrow> char \<Rightarrow> string list" where
  "Split source d = Split_loop source d 0 []"

section \<open>Hexadecimal: what the conversions compute\<close>

lemma digit_value_not_special:
  assumes "digit_value c = Some d"
  shows "\<not> isspace c" and "c \<noteq> CHR ''-''" and "c \<noteq> CHR ''+''"
  using assms by (auto simp: digit_value_def isspace_def Let_def split: if_splits)

lemma is_digit_in_Some: "is_digit_in b c \<Longrightarrow> digit_value c = Some (the (digit_value c))"
  by (auto simp: is_digit_in_def split: option.splits)

lemma of_char_digit_char: "d < 16 \<Longrightarrow> (of_char (digit_char d) :: nat) = (if d < 10 then 48 + d else 87 + d)"
  by (simp add: digit_char_def)

lemma digit_value_digit_char [simp]: "d < 16 \<Longrightarrow> digit_value (digit_char d) = Some d"
  by (simp add: digit_value_def of_char_digit_char)

lemma is_digit_in_digit_char [simp]: "d < b \<Longrightarrow> b \<le> 16 \<Longrightarrow> is_digit_in b (digit_char d)"
  by (simp add: is_digit_in_def)

lemma strtol_hex_pair:
  assumes "is_digit_in 16 a" and "is_digit_in 16 b"
  shows "strtol 16 [a, b] = (int (16 * the (digit_value a) + the (digit_value b)), True)"
proof -
  obtain va vb where v: "digit_value a = Some va" "digit_value b = Some vb" "va < 16" "vb < 16"
    using assms by (auto simp: is_digit_in_def split: option.splits)
  then have "\<not> isspace a" "a \<noteq> CHR ''-''" "a \<noteq> CHR ''+''"
    by (auto dest: digit_value_not_special)
  then have "strip_sign (dropWhile isspace [a, b]) = (False, [a, b])"
    by (simp add: strip_sign_def)
  moreover have "strip_0x 16 [a, b] = [a, b]"
    by (simp add: strip_0x_def)
  ultimately show ?thesis
    using v assms by (simp add: strtol_def digits_value_def)
qed

lemma stoi_hex_pair:
  assumes "is_digit_in 16 a" and "is_digit_in 16 b"
  shows "stoi 16 [a, b] = Inr (int (16 * the (digit_value a) + the (digit_value b)))"
proof -
  have "the (digit_value a) < 16" "the (digit_value b) < 16"
    using assms by (auto simp: is_digit_in_def split: option.splits)
  then show ?thesis
    using assms by (simp add: stoi_def strtol_hex_pair)
qed

lemma hex_byte_digits:
  "hex_byte x = [digit_char (unat x div 16), digit_char (unat x mod 16)]"
  unfolding hex_byte_def by (rule hex_of_nat_two_digits) simp

lemma byte_div16_bound [simp]: "unat (x :: byte) div 16 < 16"
  using unat_byte_less [of x] by linarith

lemma strtol_hex_byte: "strtol 16 (hex_byte x) = (int (unat x), True)"
  by (simp add: hex_byte_digits strtol_hex_pair)

lemma stoi_hex_byte: "stoi 16 (hex_byte x) = Inr (int (unat x))"
  by (simp add: hex_byte_digits stoi_hex_pair)

lemma length_hex_byte [simp]: "length (hex_byte x) = 2"
  by (simp add: hex_byte_digits)

lemma length_hex_bytes [simp]: "length (concat (map hex_byte v)) = 2 * length v"
  by (induction v) auto

lemma Hex2Buffer_loop_hex: "Hex2Buffer_loop (hex_byte x @ s) = x # Hex2Buffer_loop s"
  using strtol_hex_byte [of x] by (simp add: hex_byte_digits)

lemma FromHex_loop_hex:
  "FromHex_loop (hex_byte x @ s) = rbind (FromHex_loop s) (\<lambda>vs. Inr (x # vs))"
  using stoi_hex_byte [of x] by (simp add: hex_byte_digits)

lemma Hex2Buffer_loop_map: "Hex2Buffer_loop (concat (map hex_byte v)) = v"
  by (induction v) (simp_all add: Hex2Buffer_loop_hex)

lemma FromHex_loop_map: "FromHex_loop (concat (map hex_byte v)) = Inr v"
  by (induction v) (simp_all add: FromHex_loop_hex)

text \<open>
  The contract both hexadecimal codecs meet: decoding an encoding gives the bytes back.
  What their clients use follows once from it.
\<close>

locale hex_codec =
  fixes enc :: "bytes \<Rightarrow> string"
    and dec :: "string \<Rightarrow> exn + bytes"
  assumes dec_enc: "dec (enc v) = Inr v"
    and enc_length: "length (enc v) = 2 * length v"
    and dec_length: "dec s = Inr v \<Longrightarrow> length s = 2 * length v"
begin

lemma enc_inj: "enc v = enc w \<longleftrightarrow> v = w"
proof
  assume "enc v = enc w"
  then have "dec (enc v) = dec (enc w)" by simp
  then show "v = w" by (simp add: dec_enc)
qed simp

lemma odd_length_rejected: "odd (length s) \<Longrightarrow> \<exists>e. dec s = Inl e"
  by (cases "dec s") (auto dest: dec_length)

lemma dec_same_length: "dec s = Inr v \<Longrightarrow> dec (enc v) = Inr v \<and> length (enc v) = length s"
  by (simp add: dec_enc enc_length dec_length)

end

lemma Hex2Buffer_loop_length: "even (length s) \<Longrightarrow> 2 * length (Hex2Buffer_loop s) = length s"
  by (induction s rule: Hex2Buffer_loop.induct) auto

lemma FromHex_loop_length: "FromHex_loop s = Inr v \<Longrightarrow> even (length s) \<Longrightarrow> length s = 2 * length v"
  by (induction s arbitrary: v rule: FromHex_loop.induct) (auto simp: rbind_Inr_iff)

interpretation confmsg_hex: hex_codec Buffer2Hex Hex2Buffer
proof
  show "Hex2Buffer (Buffer2Hex v) = Inr v" for v
    by (simp add: Hex2Buffer_def Buffer2Hex_def Hex2Buffer_loop_map)
  show "length (Buffer2Hex v) = 2 * length v" for v
    by (simp add: Buffer2Hex_def)
  show "Hex2Buffer s = Inr v \<Longrightarrow> length s = 2 * length v" for s v
    using Hex2Buffer_loop_length [of s] by (auto simp: Hex2Buffer_def split: if_splits)
qed

interpretation server_hex: hex_codec ToHex FromHex
proof
  show "FromHex (ToHex v) = Inr v" for v
    by (simp add: FromHex_def ToHex_def FromHex_loop_map)
  show "length (ToHex v) = 2 * length v" for v
    by (simp add: ToHex_def)
  show "FromHex s = Inr v \<Longrightarrow> length s = 2 * length v" for s v
    by (auto simp: FromHex_def split: if_splits dest: FromHex_loop_length)
qed

lemma FromHex_loop_Hex2Buffer_loop: "FromHex_loop s = Inr v \<Longrightarrow> Hex2Buffer_loop s = v"
  by (induction s arbitrary: v rule: FromHex_loop.induct)
     (auto simp: rbind_Inr_iff stoi_def split: prod.splits if_splits)

lemma FromHex_refines_Hex2Buffer: "FromHex s = Inr v \<Longrightarrow> Hex2Buffer s = Inr v"
  by (auto simp: FromHex_def Hex2Buffer_def split: if_splits dest: FromHex_loop_Hex2Buffer_loop)

section \<open>Trim: what the two pointer loops compute\<close>

text \<open>The intended result: the string without the matching characters at either end.\<close>

definition strip :: "(char \<Rightarrow> bool) \<Rightarrow> string \<Rightarrow> string" where
  "strip fn s = rev (dropWhile fn (rev (dropWhile fn s)))"

lemma trim_begin_dropWhile:
  "n \<le> length s \<Longrightarrow>
     \<exists>m. trim_begin fn s (int n) (int (length s) - 1) = int m \<and> n \<le> m \<and> m \<le> length s
       \<and> drop m s = dropWhile fn (drop n s)"
proof (induction "length s - n" arbitrary: n)
  case 0
  then have "n = length s" by simp
  then show ?case by (auto simp: trim_begin.simps intro!: exI [of _ n])
next
  case (Suc k)
  then have n: "n < length s" by simp
  show ?case
  proof (cases "fn (s ! n)")
    case True
    have "k = length s - Suc n" using Suc.hyps(2) by simp
    from Suc.hyps(1) [OF this] n obtain m where
      m: "trim_begin fn s (int (Suc n)) (int (length s) - 1) = int m" "Suc n \<le> m" "m \<le> length s"
        "drop m s = dropWhile fn (drop (Suc n) s)"
      by auto
    have "trim_begin fn s (int n) (int (length s) - 1) = int m"
      using True n m(1) by (subst trim_begin.simps) (simp add: add.commute)
    moreover have "drop m s = dropWhile fn (drop n s)"
      using True n m(4) by (simp add: Cons_nth_drop_Suc [symmetric])
    ultimately show ?thesis using m by (intro exI [of _ m]) simp
  next
    case False
    then have "trim_begin fn s (int n) (int (length s) - 1) = int n"
      by (simp add: trim_begin.simps [of fn s "int n"])
    moreover have "dropWhile fn (drop n s) = drop n s"
      using False n by (simp add: Cons_nth_drop_Suc [symmetric])
    ultimately show ?thesis using n by (intro exI [of _ n]) simp
  qed
qed

lemma take_drop_snoc:
  "m < k \<Longrightarrow> k \<le> length s \<Longrightarrow> take (k - m) (drop m s) = take (k - 1 - m) (drop m s) @ [s ! (k - 1)]"
proof -
  assume "m < k" "k \<le> length s"
  then have "k - m = Suc (k - 1 - m)" "k - 1 - m < length (drop m s)" by auto
  then have "take (k - m) (drop m s) = take (k - 1 - m) (drop m s) @ [drop m s ! (k - 1 - m)]"
    by (metis take_Suc_conv_app_nth)
  then show ?thesis using \<open>m < k\<close> \<open>k \<le> length s\<close> by simp
qed

lemma trim_end_dropWhile:
  "m \<le> k \<Longrightarrow> k \<le> length s \<Longrightarrow>
     \<exists>j. trim_end fn s (int m) (int k - 1) = int j - 1 \<and> m \<le> j \<and> j \<le> k
       \<and> take (j - m) (drop m s) = rev (dropWhile fn (rev (take (k - m) (drop m s))))"
proof (induction "k - m" arbitrary: k)
  case 0
  then have "k = m" by simp
  then show ?case by (auto simp: trim_end.simps intro!: exI [of _ m])
next
  case (Suc d)
  then have mk: "m < k" "k \<le> length s" by simp_all
  show ?case
  proof (cases "fn (s ! (k - 1))")
    case True
    have "d = k - 1 - m" "m \<le> k - 1" "k - 1 \<le> length s" using Suc.hyps(2) mk by simp_all
    from Suc.hyps(1) [OF this] obtain j where
      j: "trim_end fn s (int m) (int (k - 1) - 1) = int j - 1" "m \<le> j" "j \<le> k - 1"
        "take (j - m) (drop m s) = rev (dropWhile fn (rev (take (k - 1 - m) (drop m s))))"
      by auto
    have idx: "nat (int k - 1) = k - 1" using mk by simp
    have "trim_end fn s (int m) (int k - 1) = int j - 1"
      using True mk j(1) by (subst trim_end.simps) (simp add: idx of_nat_diff)
    moreover have "take (j - m) (drop m s) = rev (dropWhile fn (rev (take (k - m) (drop m s))))"
      using True j(4) by (simp add: take_drop_snoc [OF mk])
    ultimately show ?thesis using j mk by (intro exI [of _ j]) simp
  next
    case False
    have idx: "nat (int k - 1) = k - 1" using mk by simp
    have "trim_end fn s (int m) (int k - 1) = int k - 1"
      using False by (simp add: trim_end.simps [of fn s "int m"] idx)
    moreover have "dropWhile fn (rev (take (k - m) (drop m s))) = rev (take (k - m) (drop m s))"
      using False by (simp add: take_drop_snoc [OF mk])
    ultimately show ?thesis using mk by (intro exI [of _ k]) simp
  qed
qed

lemma Trim_fn_strip:
  "Trim_fn s fn = (if length (strip fn s) = 1 then [] else strip fn s)"
proof -
  obtain m where m: "trim_begin fn s 0 (int (length s) - 1) = int m" "m \<le> length s"
      "drop m s = dropWhile fn s"
    using trim_begin_dropWhile [of 0 s fn] by auto
  obtain j where j: "trim_end fn s (int m) (int (length s) - 1) = int j - 1" "m \<le> j" "j \<le> length s"
      "take (j - m) (drop m s) = rev (dropWhile fn (rev (take (length s - m) (drop m s))))"
    using trim_end_dropWhile [of m "length s" s fn] m(2) by auto
  have all: "take (length s - m) (drop m s) = dropWhile fn s"
    using m(3) by (metis length_drop order_refl take_all)
  have strip: "strip fn s = take (j - m) (drop m s)"
    unfolding strip_def j(4) all ..
  have len: "length (strip fn s) = j - m"
    unfolding strip using j(2,3) by simp
  show ?thesis
  proof (cases "j \<le> m + 1")
    case True
    then have "length (strip fn s) \<le> 1" using len j by simp
    moreover have "Trim_fn s fn = []"
      using True m(1) j(1) by (simp add: Trim_fn_def)
    ultimately show ?thesis by (cases "strip fn s") auto
  next
    case False
    then have "Trim_fn s fn = take (j - m) (drop m s)"
      using m(1) j(1) by (simp add: Trim_fn_def nat_diff_distrib')
    then show ?thesis using False len strip by simp
  qed
qed

section \<open>Split: the pieces between delimiters\<close>

fun split_on :: "char \<Rightarrow> string \<Rightarrow> string list" where
  "split_on d [] = [[]]"
| "split_on d (c # s) =
     (if c = d then [] # split_on d s
      else (case split_on d s of [] \<Rightarrow> [[c]] | p # ps \<Rightarrow> (c # p) # ps))"

lemma split_on_nonempty [simp]: "split_on d s \<noteq> []"
  by (cases s) (auto split: list.splits)

lemma split_on_no_delim: "d \<notin> set xs \<Longrightarrow> split_on d xs = [xs]"
  by (induction xs) auto

lemma split_on_append: "d \<notin> set xs \<Longrightarrow> split_on d (xs @ d # ys) = xs # split_on d ys"
  by (induction xs) auto

lemma split_on_pieces: "p \<in> set (split_on d s) \<Longrightarrow> d \<notin> set p"
  by (induction s arbitrary: p) (auto split: if_splits list.splits)

definition drop_last_empty :: "string list \<Rightarrow> string list" where
  "drop_last_empty ps = (if last ps = [] then butlast ps else ps)"

lemma find_char_None: "find_char s c i = None \<Longrightarrow> c \<notin> set (drop i s)"
proof (induction s c i rule: find_char.induct)
  case (1 s c i)
  show ?case
  proof (cases "i < length s")
    case True
    with "1.prems" have "s ! i \<noteq> c" "find_char s c (Suc i) = None"
      by (auto simp: find_char.simps [of s c i] split: if_splits)
    with "1.IH" True show ?thesis by (simp add: Cons_nth_drop_Suc [symmetric])
  qed simp
qed

lemma find_char_Some:
  "find_char s c i = Some p \<Longrightarrow>
     c \<notin> set (take (p - i) (drop i s)) \<and> drop i s = take (p - i) (drop i s) @ c # drop (p + 1) s"
proof (induction s c i rule: find_char.induct)
  case (1 s c i)
  from "1.prems" have i: "i < length s"
    by (subst (asm) find_char.simps) (simp split: if_splits)
  then have d: "drop i s = s ! i # drop (Suc i) s"
    by (simp add: Cons_nth_drop_Suc)
  show ?case
  proof (cases "s ! i = c")
    case True
    with "1.prems" i have "p = i" by (simp add: find_char.simps [of s c i])
    with True d show ?thesis by simp
  next
    case False
    with "1.prems" i have f: "find_char s c (Suc i) = Some p"
      by (simp add: find_char.simps [of s c i])
    with find_char_bounds have "Suc i \<le> p" by blast
    then have e: "p - i = Suc (p - Suc i)" by simp
    from "1.IH" [OF i False f] False d show ?thesis by (simp add: e)
  qed
qed

lemma Split_loop_split_on:
  "Split_loop s d offset acc = acc @ drop_last_empty (split_on d (drop offset s))"
proof (induction s d offset acc rule: Split_loop.induct)
  case (1 s d offset acc)
  show ?case
  proof (cases "find_char s d offset")
    case None
    then show ?thesis
      by (subst Split_loop.simps)
         (auto simp: split_on_no_delim [OF find_char_None] drop_last_empty_def)
  next
    case (Some p)
    note IH = "1.IH" [OF Some]
    have "split_on d (drop offset s) = take (p - offset) (drop offset s) # split_on d (drop (p + 1) s)"
      using find_char_Some [OF Some] split_on_append by metis
    then show ?thesis
      using Some IH by (subst Split_loop.simps) (simp add: drop_last_empty_def)
  qed
qed

lemma Split_split_on: "Split s d = drop_last_empty (split_on d s)"
  by (simp add: Split_def Split_loop_split_on)

lemma Split_pieces: "p \<in> set (Split s d) \<Longrightarrow> d \<notin> set p"
  by (auto simp: Split_split_on drop_last_empty_def split: if_splits
      dest: in_set_butlastD split_on_pieces)

end
