(* ===== verification/Tensor.thy ===== *)
theory Tensor
  imports Errors
begin

text \<open>
  Tensors between the wire and ONNX Runtime: \<^verbatim>\<open>enclave/core/serializing/tensorprotoutils.cc\<close>
  (from a \<^verbatim>\<open>TensorProto\<close> into a preallocated buffer) and \<^verbatim>\<open>enclave/core/converter.cc\<close>
  (from a runtime value back to a \<^verbatim>\<open>TensorProto\<close>). Floating-point elements are their bit
  patterns. The enclave is x86-64 code: \<^verbatim>\<open>IsLittleEndianOrder\<close> is true and the other branch of
  \<^verbatim>\<open>UnpackTensorWithRawData\<close> is not compiled into a run. ONNX Runtime's size computation, the
  size of a \<^verbatim>\<open>std::string\<close> and the numbering of the two type enumerations are parameters.
\<close>

section \<open>Types and values\<close>

datatype DataType =
    UNDEFINED | FLOAT | UINT8 | INT8 | UINT16 | INT16 | INT32 | INT64 | STRING | BOOL | FLOAT16
  | DOUBLE | UINT32 | UINT64 | COMPLEX64 | COMPLEX128 | BFLOAT16
  | OtherType int

text \<open>\<^verbatim>\<open>ONNXTensorElementDataType\<close>.\<close>

datatype ElementType =
    ET_UNDEFINED | ET_FLOAT | ET_UINT8 | ET_INT8 | ET_UINT16 | ET_INT16 | ET_INT32 | ET_INT64 | ET_STRING
  | ET_BOOL | ET_FLOAT16 | ET_DOUBLE | ET_UINT32 | ET_UINT64 | ET_COMPLEX64 | ET_COMPLEX128 | ET_BFLOAT16

record TensorProto =
  tp_name :: string
  tp_segment :: bool
  tp_dims :: "int list"
  tp_data_type :: DataType
  tp_external :: bool
  tp_raw_data :: "bytes option"
  tp_float_data :: "u32 list"
  tp_double_data :: "u64 list"
  tp_int32_data :: "u32 list"
  tp_int64_data :: "u64 list"
  tp_uint64_data :: "u64 list"
  tp_string_data :: "string list"

definition empty_TensorProto :: TensorProto where
  "empty_TensorProto = \<lparr>tp_name = [], tp_segment = False, tp_dims = [], tp_data_type = UNDEFINED, tp_external = False, tp_raw_data = None,
     tp_float_data = [], tp_double_data = [], tp_int32_data = [], tp_int64_data = [], tp_uint64_data = [],
     tp_string_data = []\<rparr>"

text \<open>The memory behind a runtime tensor: the bytes of its elements, or an array of strings.\<close>

datatype tensor_data = Raw bytes | Strings "string list"

record OrtValue =
  ov_type :: ElementType
  ov_shape :: "int list"
  ov_data :: tensor_data

record ort_types =
  CalcMemSizeForArray :: "nat \<Rightarrow> nat \<Rightarrow> nat option"
  CalcMemSizeWithAlignment :: "nat \<Rightarrow> nat \<Rightarrow> nat \<Rightarrow> nat option"
  sizeof_string :: nat
  proto_type_number :: "DataType \<Rightarrow> int"
  element_type_cast :: "DataType \<Rightarrow> ElementType"

definition ORT_FAIL :: nat where "ORT_FAIL = 1"
definition ORT_INVALID_ARGUMENT :: nat where "ORT_INVALID_ARGUMENT = 2"
definition ORT_NOT_IMPLEMENTED :: nat where "ORT_NOT_IMPLEMENTED = 9"

definition SIZE_MAX :: nat where "SIZE_MAX = 2 ^ 64 - 1"

text \<open>\<^verbatim>\<open>int64_t\<close> multiplication; overflow is undefined.\<close>

definition int64_mult :: "int \<Rightarrow> int \<Rightarrow> exn + int" where
  "int64_mult a b =
     (if - (2 ^ 63) \<le> a * b \<and> a * b < 2 ^ 63 then Inr (a * b) else Inl (Fault ''signed integer overflow''))"

section \<open>Bytes of an element\<close>

fun le_bytes :: "nat \<Rightarrow> nat \<Rightarrow> bytes" where
  "le_bytes 0 v = []"
| "le_bytes (Suc n) v = word_of_nat v # le_bytes n (v div 256)"

fun le_value :: "bytes \<Rightarrow> nat" where
  "le_value [] = 0"
| "le_value (b # bs) = unat b + 256 * le_value bs"

text \<open>The elements of an array of \<open>n\<close>-byte values, and the first \<open>k\<close> of them.\<close>

fun elements :: "nat \<Rightarrow> nat \<Rightarrow> bytes \<Rightarrow> nat list" where
  "elements n 0 bs = []"
| "elements n (Suc k) bs = le_value (take n bs) # elements n k (drop n bs)"

section \<open>From TensorProto (tensorprotoutils.cc)\<close>

definition GetTensorShapeFromTensorProto :: "TensorProto \<Rightarrow> int list" where
  "GetTensorShapeFromTensorProto t = map (\<lambda>i. tp_dims t ! i) [0..<length (tp_dims t)]"

fun type_size :: "ort_types \<Rightarrow> DataType \<Rightarrow> nat option" where
  "type_size T FLOAT = Some 4"
| "type_size T DOUBLE = Some 8"
| "type_size T BOOL = Some 1"
| "type_size T INT8 = Some 1"
| "type_size T INT16 = Some 2"
| "type_size T INT32 = Some 4"
| "type_size T INT64 = Some 8"
| "type_size T UINT8 = Some 1"
| "type_size T UINT16 = Some 2"
| "type_size T UINT32 = Some 4"
| "type_size T UINT64 = Some 8"
| "type_size T FLOAT16 = Some 2"
| "type_size T BFLOAT16 = Some 2"
| "type_size T STRING = Some (sizeof_string T)"
| "type_size T _ = None"

fun count_elements :: "ort_types \<Rightarrow> int list \<Rightarrow> nat \<Rightarrow> exn + nat" where
  "count_elements T [] sz = Inr sz"
| "count_elements T (dim # ds) sz =
     (if dim < 0 \<or> nat dim \<ge> SIZE_MAX then Inl (OrtException ''Invalid TensorProto'' ORT_FAIL)
      else case CalcMemSizeForArray T sz (nat dim) of
             None \<Rightarrow> Inl (OrtException ''Invalid TensorProto'' ORT_FAIL)
           | Some s \<Rightarrow> count_elements T ds s)"

definition GetSizeInBytesFromTensorProto :: "ort_types \<Rightarrow> nat \<Rightarrow> TensorProto \<Rightarrow> exn + nat" where
  "GetSizeInBytesFromTensorProto T alignment t =
     rbind (count_elements T (tp_dims t) 1) (\<lambda>sz.
       case type_size T (tp_data_type t) of
         None \<Rightarrow> Inl (OrtException [] ORT_NOT_IMPLEMENTED)
       | Some n \<Rightarrow>
           opt_or (OrtException ''Invalid TensorProto'' ORT_FAIL) (CalcMemSizeWithAlignment T alignment sz n))"

definition UnpackTensorWithRawData :: "ort_types \<Rightarrow> nat \<Rightarrow> bytes \<Rightarrow> nat \<Rightarrow> exn + bytes" where
  "UnpackTensorWithRawData T n raw_data expected_size =
     (case CalcMemSizeForArray T expected_size n of
        None \<Rightarrow> Inl (OrtException ''size overflow'' ORT_FAIL)
      | Some expected_size_in_bytes \<Rightarrow>
          if length raw_data \<noteq> expected_size_in_bytes
          then Inl (OrtException (''UnpackTensor: the pre-allocated size does not match the raw data size, expected ''
                 @ dec_of_nat expected_size_in_bytes @ '', got '' @ dec_of_nat (length raw_data)) ORT_FAIL)
          else Inr raw_data)"

text \<open>
  The data field a numeric type is kept in, as numbers; a read of a narrower type through the
  pointer to an element takes its low bytes.
\<close>

fun typed_field :: "DataType \<Rightarrow> TensorProto \<Rightarrow> nat list" where
  "typed_field FLOAT t = map unat (tp_float_data t)"
| "typed_field DOUBLE t = map unat (tp_double_data t)"
| "typed_field INT64 t = map unat (tp_int64_data t)"
| "typed_field UINT64 t = map unat (tp_uint64_data t)"
| "typed_field UINT32 t = map unat (tp_uint64_data t)"
| "typed_field _ t = map unat (tp_int32_data t)"

text \<open>The macro \<^verbatim>\<open>DEFINE_UNPACK_TENSOR\<close>; \<open>p_data\<close> says whether the buffer pointer is not null.\<close>

definition UnpackTensor_num :: "ort_types \<Rightarrow> DataType \<Rightarrow> nat \<Rightarrow> TensorProto \<Rightarrow> bool \<Rightarrow> int \<Rightarrow> exn + bytes" where
  "UnpackTensor_num T ty n t p_data expected_size =
     (let data = typed_field ty t
      in if \<not> p_data
         then (if (case tp_raw_data t of Some r \<Rightarrow> length r | None \<Rightarrow> length data) = 0 then Inr []
               else Inl (OrtException [] ORT_INVALID_ARGUMENT))
         else if ty \<noteq> tp_data_type t then Inl (OrtException [] ORT_INVALID_ARGUMENT)
         else case tp_raw_data t of
                Some r \<Rightarrow> UnpackTensorWithRawData T n r (nat expected_size)
              | None \<Rightarrow>
                  if int (length data) \<noteq> expected_size
                  then Inl (OrtException (''corrupted protobuf data: tensor shape size('' @ to_string expected_size
                         @ '') does not match the data size('' @ dec_of_nat (length data) @ '') in proto'') ORT_FAIL)
                  else Inr (concat (map (le_bytes n) data)))"

definition UnpackTensor_bool :: "ort_types \<Rightarrow> TensorProto \<Rightarrow> bool \<Rightarrow> int \<Rightarrow> exn + bytes" where
  "UnpackTensor_bool T t p_data expected_size =
     (let data = tp_int32_data t
      in if \<not> p_data
         then (if (case tp_raw_data t of Some r \<Rightarrow> length r | None \<Rightarrow> length data) = 0 then Inr []
               else Inl (OrtException [] ORT_INVALID_ARGUMENT))
         else if BOOL \<noteq> tp_data_type t then Inl (OrtException [] ORT_INVALID_ARGUMENT)
         else case tp_raw_data t of
                Some r \<Rightarrow> UnpackTensorWithRawData T 1 r (nat expected_size)
              | None \<Rightarrow>
                  if int (length data) \<noteq> expected_size
                  then Inl (OrtException ''UnpackTensor: the pre-allocate size does not match the size in proto'' ORT_FAIL)
                  else Inr (map (\<lambda>w. if w \<noteq> 0 then 1 else 0) data))"

text \<open>The loop of the two 16-bit floating-point types, which are alike but for the type tested.\<close>

fun unpack_16bit :: "u32 list \<Rightarrow> exn + bytes" where
  "unpack_16bit [] = Inr []"
| "unpack_16bit (v # vs) =
     (if sint v < 0 \<or> sint v > 65535 then Inl (OrtException ''data overflow'' ORT_FAIL)
      else rbind (unpack_16bit vs) (\<lambda>r. Inr (le_bytes 2 (unat v) @ r)))"

definition UnpackTensor_16bit :: "ort_types \<Rightarrow> DataType \<Rightarrow> TensorProto \<Rightarrow> bool \<Rightarrow> int \<Rightarrow> exn + bytes" where
  "UnpackTensor_16bit T ty t p_data expected_size =
     (let data = tp_int32_data t
      in if \<not> p_data
         then (if (case tp_raw_data t of Some r \<Rightarrow> length r | None \<Rightarrow> length data) = 0 then Inr []
               else Inl (OrtException [] ORT_INVALID_ARGUMENT))
         else if ty \<noteq> tp_data_type t then Inl (OrtException [] ORT_INVALID_ARGUMENT)
         else case tp_raw_data t of
                Some r \<Rightarrow> UnpackTensorWithRawData T 2 r (nat expected_size)
              | None \<Rightarrow>
                  if int (length data) \<noteq> expected_size
                  then Inl (OrtException ''UnpackTensor: the pre-allocate size does not match the size in proto'' ORT_FAIL)
                  else unpack_16bit data)"

definition UnpackTensor_string :: "TensorProto \<Rightarrow> bool \<Rightarrow> int \<Rightarrow> exn + string list" where
  "UnpackTensor_string t p_data expected_size =
     (if \<not> p_data
      then (if length (tp_string_data t) = 0 then Inr [] else Inl (OrtException [] ORT_INVALID_ARGUMENT))
      else if STRING \<noteq> tp_data_type t then Inl (OrtException [] ORT_INVALID_ARGUMENT)
      else if int (length (tp_string_data t)) \<noteq> expected_size
      then Inl (OrtException ''UnpackTensor: the pre-allocate size does not match the size in proto'' ORT_FAIL)
      else Inr (tp_string_data t))"

fun CApiElementTypeFromProtoType :: "DataType \<Rightarrow> ElementType" where
  "CApiElementTypeFromProtoType FLOAT = ET_FLOAT"
| "CApiElementTypeFromProtoType UINT8 = ET_UINT8"
| "CApiElementTypeFromProtoType INT8 = ET_INT8"
| "CApiElementTypeFromProtoType UINT16 = ET_UINT16"
| "CApiElementTypeFromProtoType INT16 = ET_INT16"
| "CApiElementTypeFromProtoType INT32 = ET_INT32"
| "CApiElementTypeFromProtoType INT64 = ET_INT64"
| "CApiElementTypeFromProtoType STRING = ET_STRING"
| "CApiElementTypeFromProtoType BOOL = ET_BOOL"
| "CApiElementTypeFromProtoType FLOAT16 = ET_FLOAT16"
| "CApiElementTypeFromProtoType DOUBLE = ET_DOUBLE"
| "CApiElementTypeFromProtoType UINT32 = ET_UINT32"
| "CApiElementTypeFromProtoType UINT64 = ET_UINT64"
| "CApiElementTypeFromProtoType COMPLEX64 = ET_COMPLEX64"
| "CApiElementTypeFromProtoType COMPLEX128 = ET_COMPLEX128"
| "CApiElementTypeFromProtoType BFLOAT16 = ET_BFLOAT16"
| "CApiElementTypeFromProtoType _ = ET_UNDEFINED"

definition GetTensorElementType :: "TensorProto \<Rightarrow> ElementType" where
  "GetTensorElementType t = CApiElementTypeFromProtoType (tp_data_type t)"

record MemBuffer =
  mb_buffer :: "bytes option"
  mb_len :: nat

text \<open>\<^verbatim>\<open>memcpy\<close> and the element loops write from the start of the buffer.\<close>

definition write_buffer :: "bytes option \<Rightarrow> bytes \<Rightarrow> exn + tensor_data" where
  "write_buffer buf bs =
     (case buf of
        None \<Rightarrow> Inr (Raw [])
      | Some b \<Rightarrow> opt_or (Fault ''write past the end of a buffer'') (map_option Raw (overwrite bs b)))"

text \<open>
  The buffer of a string tensor is an array of \<open>len / sizeof(std::string)\<close> strings that
  \<^verbatim>\<open>OrtInitializeBufferForTensor\<close> has constructed empty.
\<close>

definition OrtInitializeBufferForTensor :: "ort_types \<Rightarrow> bytes option \<Rightarrow> nat \<Rightarrow> ElementType \<Rightarrow> string list" where
  "OrtInitializeBufferForTensor T buf len ty =
     (if ty \<noteq> ET_STRING \<or> buf = None then [] else replicate (len div sizeof_string T) [])"

definition write_strings :: "string list \<Rightarrow> string list \<Rightarrow> exn + tensor_data" where
  "write_strings ss buf =
     (if length ss \<le> length buf then Inr (Strings (ss @ drop (length ss) buf))
      else Inl (Fault ''write past the end of a buffer''))"

fun tensor_size :: "int list \<Rightarrow> int \<Rightarrow> exn + int" where
  "tensor_size [] s = Inr s"
| "tensor_size (i # ds) s =
     (if i < 0 then Inl (OrtException ''Tensor can't contain negative dims'' ORT_FAIL)
      else rbind (int64_mult s i) (tensor_size ds))"

definition unpack_into :: "ort_types \<Rightarrow> TensorProto \<Rightarrow> MemBuffer \<Rightarrow> int \<Rightarrow> exn + tensor_data" where
  "unpack_into T t m sz =
     (let p = (mb_buffer m \<noteq> None);
          ty = tp_data_type t;
          num = (\<lambda>n. rbind (UnpackTensor_num T ty n t p sz) (write_buffer (mb_buffer m)))
      in case ty of
           FLOAT \<Rightarrow> num 4 | DOUBLE \<Rightarrow> num 8 | INT8 \<Rightarrow> num 1 | INT16 \<Rightarrow> num 2 | INT32 \<Rightarrow> num 4 | INT64 \<Rightarrow> num 8
         | UINT8 \<Rightarrow> num 1 | UINT16 \<Rightarrow> num 2 | UINT32 \<Rightarrow> num 4 | UINT64 \<Rightarrow> num 8
         | BOOL \<Rightarrow> rbind (UnpackTensor_bool T t p sz) (write_buffer (mb_buffer m))
         | FLOAT16 \<Rightarrow> rbind (UnpackTensor_16bit T FLOAT16 t p sz) (write_buffer (mb_buffer m))
         | BFLOAT16 \<Rightarrow> rbind (UnpackTensor_16bit T BFLOAT16 t p sz) (write_buffer (mb_buffer m))
         | STRING \<Rightarrow>
             rbind (UnpackTensor_string t p sz) (\<lambda>ss.
               write_strings ss (OrtInitializeBufferForTensor T (mb_buffer m) (mb_len m) (GetTensorElementType t)))
         | _ \<Rightarrow> Inl (OrtException (''Initialized tensor with unexpected type: ''
                  @ to_string (proto_type_number T ty)) ORT_INVALID_ARGUMENT))"

definition TensorProtoToMLValue :: "ort_types \<Rightarrow> TensorProto \<Rightarrow> MemBuffer \<Rightarrow> exn + OrtValue" where
  "TensorProtoToMLValue T t m =
     (if tp_external t then Inl (OrtException ''Server doesn't support external data.'' ORT_INVALID_ARGUMENT)
      else if tp_raw_data t \<noteq> None \<and> GetTensorElementType t = ET_STRING
      then Inl (OrtException ''String tensor cannot have raw data.'' ORT_FAIL)
      else
        rbind (tensor_size (tp_dims t) 1) (\<lambda>sz.
        rbind (GetSizeInBytesFromTensorProto T 0 t) (\<lambda>size_to_allocate.
          if mb_buffer m \<noteq> None \<and> mb_len m < size_to_allocate
          then Inl (OrtException (''The buffer planner is not consistent with tensor buffer size, expected ''
                 @ dec_of_nat size_to_allocate @ '', got '' @ dec_of_nat (mb_len m)) ORT_FAIL)
          else
            rbind (unpack_into T t m sz) (\<lambda>d.
              Inr \<lparr>ov_type = element_type_cast T (tp_data_type t),
                   ov_shape = GetTensorShapeFromTensorProto t, ov_data = d\<rparr>))))"

section \<open>To TensorProto (converter.cc)\<close>

fun MLDataTypeToTensorProtoDataType :: "ElementType \<Rightarrow> DataType" where
  "MLDataTypeToTensorProtoDataType ET_FLOAT = FLOAT"
| "MLDataTypeToTensorProtoDataType ET_UINT8 = UINT8"
| "MLDataTypeToTensorProtoDataType ET_INT8 = INT8"
| "MLDataTypeToTensorProtoDataType ET_UINT16 = UINT16"
| "MLDataTypeToTensorProtoDataType ET_INT16 = INT16"
| "MLDataTypeToTensorProtoDataType ET_INT32 = INT32"
| "MLDataTypeToTensorProtoDataType ET_INT64 = INT64"
| "MLDataTypeToTensorProtoDataType ET_STRING = STRING"
| "MLDataTypeToTensorProtoDataType ET_BOOL = BOOL"
| "MLDataTypeToTensorProtoDataType ET_FLOAT16 = FLOAT16"
| "MLDataTypeToTensorProtoDataType ET_DOUBLE = DOUBLE"
| "MLDataTypeToTensorProtoDataType ET_UINT32 = UINT32"
| "MLDataTypeToTensorProtoDataType ET_UINT64 = UINT64"
| "MLDataTypeToTensorProtoDataType ET_COMPLEX64 = COMPLEX64"
| "MLDataTypeToTensorProtoDataType ET_COMPLEX128 = COMPLEX128"
| "MLDataTypeToTensorProtoDataType ET_BFLOAT16 = BFLOAT16"
| "MLDataTypeToTensorProtoDataType ET_UNDEFINED = UNDEFINED"

text \<open>The conversion of a signed \<open>n\<close>-byte element to \<^verbatim>\<open>int32\<close>: sign extension.\<close>

definition sign_extend :: "nat \<Rightarrow> nat \<Rightarrow> u32" where
  "sign_extend n v = word_of_int (if v < 2 ^ (8 * n - 1) then int v else int v - 2 ^ (8 * n))"

text \<open>
  \<^verbatim>\<open>GetStringTensorContent\<close> fills the buffer with the strings one after the other and the
  offset of each; the loop cuts them again. The last piece is added after the loop, also when
  there is no string at all.
\<close>

definition string_offsets :: "string list \<Rightarrow> nat list" where
  "string_offsets ss = map (\<lambda>i. length (concat (take i ss))) [0..<length ss]"

fun cut_strings :: "string \<Rightarrow> nat list \<Rightarrow> nat \<Rightarrow> string list" where
  "cut_strings buf [] start = [take (length buf - start) (drop start buf)]"
| "cut_strings buf (e # es) start = take (e - start) (drop start buf) # cut_strings buf es e"

definition emit_strings :: "string list \<Rightarrow> string list" where
  "emit_strings ss = cut_strings (concat ss) (tl (string_offsets ss)) 0"

text \<open>\<open>elem_count\<close> is the number of elements the shape announces.\<close>

definition elem_count :: "OrtValue \<Rightarrow> nat" where
  "elem_count v = nat (prod_list (ov_shape v))"

definition raw_bytes :: "OrtValue \<Rightarrow> nat \<Rightarrow> exn + bytes" where
  "raw_bytes v n =
     (case ov_data v of
        Strings _ \<Rightarrow> Inl (Fault ''not a numeric tensor'')
      | Raw bs \<Rightarrow>
          if length bs < n * elem_count v then Inl (Fault ''read past the end of a buffer'')
          else Inr (take (n * elem_count v) bs))"

definition emit_typed :: "DataType \<Rightarrow> nat list \<Rightarrow> TensorProto \<Rightarrow> TensorProto" where
  "emit_typed ty es t =
     (case ty of
        FLOAT \<Rightarrow> t\<lparr>tp_float_data := tp_float_data t @ map word_of_nat es\<rparr>
      | DOUBLE \<Rightarrow> t\<lparr>tp_double_data := tp_double_data t @ map word_of_nat es\<rparr>
      | INT64 \<Rightarrow> t\<lparr>tp_int64_data := tp_int64_data t @ map word_of_nat es\<rparr>
      | UINT64 \<Rightarrow> t\<lparr>tp_uint64_data := tp_uint64_data t @ map word_of_nat es\<rparr>
      | UINT32 \<Rightarrow> t\<lparr>tp_uint64_data := tp_uint64_data t @ map word_of_nat es\<rparr>
      | INT8 \<Rightarrow> t\<lparr>tp_int32_data := tp_int32_data t @ map (sign_extend 1) es\<rparr>
      | INT16 \<Rightarrow> t\<lparr>tp_int32_data := tp_int32_data t @ map (sign_extend 2) es\<rparr>
      | _ \<Rightarrow> t\<lparr>tp_int32_data := tp_int32_data t @ map word_of_nat es\<rparr>)"

definition emit_numeric :: "OrtValue \<Rightarrow> bool \<Rightarrow> DataType \<Rightarrow> nat \<Rightarrow> TensorProto \<Rightarrow> exn + TensorProto" where
  "emit_numeric v using_raw_data ty n t =
     rbind (raw_bytes v n) (\<lambda>bs.
       if using_raw_data then Inr (t\<lparr>tp_raw_data := Some bs\<rparr>)
       else Inr (emit_typed ty (elements n (elem_count v) bs) t))"

definition MLValueToTensorProto :: "ort_types \<Rightarrow> bool \<Rightarrow> OrtValue \<Rightarrow> bool \<Rightarrow> TensorProto \<Rightarrow> exn + TensorProto" where
  "MLValueToTensorProto T is_tensor v using_raw_data t0 =
     (if \<not> is_tensor then Inl (OrtException ''Don't support Non-Tensor values'' ORT_NOT_IMPLEMENTED)
      else
        let ty = MLDataTypeToTensorProtoDataType (ov_type v);
            t1 = t0\<lparr>tp_dims := tp_dims t0 @ ov_shape v, tp_data_type := ty\<rparr>;
            t = (if using_raw_data \<and> ty \<noteq> STRING then t1\<lparr>tp_external := False\<rparr> else t1)
        in case ty of
             FLOAT \<Rightarrow> emit_numeric v using_raw_data ty 4 t
           | INT32 \<Rightarrow> emit_numeric v using_raw_data ty 4 t
           | UINT8 \<Rightarrow> emit_numeric v using_raw_data ty 1 t
           | INT8 \<Rightarrow> emit_numeric v using_raw_data ty 1 t
           | UINT16 \<Rightarrow> emit_numeric v using_raw_data ty 2 t
           | INT16 \<Rightarrow> emit_numeric v using_raw_data ty 2 t
           | BOOL \<Rightarrow> emit_numeric v using_raw_data ty 1 t
           | FLOAT16 \<Rightarrow> emit_numeric v using_raw_data ty 2 t
           | BFLOAT16 \<Rightarrow> emit_numeric v using_raw_data ty 2 t
           | INT64 \<Rightarrow> emit_numeric v using_raw_data ty 8 t
           | UINT32 \<Rightarrow> emit_numeric v using_raw_data ty 4 t
           | UINT64 \<Rightarrow> emit_numeric v using_raw_data ty 8 t
           | DOUBLE \<Rightarrow> emit_numeric v using_raw_data ty 8 t
           | STRING \<Rightarrow>
               (case ov_data v of
                  Raw _ \<Rightarrow> Inl (Fault ''not a string tensor'')
                | Strings ss \<Rightarrow> Inr (t\<lparr>tp_string_data := tp_string_data t @ emit_strings ss\<rparr>))
           | _ \<Rightarrow> Inl (OrtException (''Initialized tensor with unexpected type: ''
                    @ to_string (proto_type_number T ty)) ORT_INVALID_ARGUMENT))"

section \<open>Elements and bytes\<close>

lemma length_le_bytes [simp]: "length (le_bytes n v) = n"
  by (induction n arbitrary: v) auto

lemma unat_byte_of_nat: "unat (word_of_nat a :: byte) = a mod 256"
  by (simp add: unat_of_nat take_bit_eq_mod)

lemma byte_of_nat_cong: "a mod 256 = b mod 256 \<Longrightarrow> (word_of_nat a :: byte) = word_of_nat b"
  by (simp add: word_unat_eq_iff unat_byte_of_nat)

lemma le_bytes_mod: "le_bytes n (v mod 256 ^ n) = le_bytes n v"
proof (induction n arbitrary: v)
  case (Suc n)
  have "(v mod (256 * 256 ^ n)) div 256 = (v div 256) mod 256 ^ n"
    by (simp add: mod_mult2_eq)
  moreover have "(word_of_nat (v mod (256 * 256 ^ n)) :: byte) = word_of_nat v"
    by (rule byte_of_nat_cong) (simp add: mod_mod_cancel)
  ultimately show ?case using Suc [of "v div 256"] by simp
qed simp

lemma le_bytes_value: "le_bytes (length bs) (le_value bs) = bs"
proof (induction bs)
  case (Cons b bs)
  have "(unat b + 256 * le_value bs) div 256 = le_value bs" by simp
  moreover have "(word_of_nat (unat b + 256 * le_value bs) :: byte) = b"
    by (simp add: word_unat_eq_iff unat_byte_of_nat del: of_nat_add)
  ultimately show ?case using Cons by simp
qed simp

lemma le_value_bound: "le_value bs < 256 ^ length bs"
proof (induction bs)
  case (Cons b bs)
  have "unat b + 256 * v < 256 * m" if "v < m" for v m :: nat
    using that unat_byte_less [of b] by linarith
  from this [OF Cons] show ?case by simp
qed simp

lemma elements_length [simp]: "length (elements n k bs) = k"
  by (induction n k bs rule: elements.induct) auto

lemma elements_bound: "length bs = n * k \<Longrightarrow> e \<in> set (elements n k bs) \<Longrightarrow> e < 256 ^ n"
proof (induction n k bs rule: elements.induct)
  case (2 n k bs)
  have "length (take n bs) = n" using 2 by simp
  then have "le_value (take n bs) < 256 ^ n" using le_value_bound [of "take n bs"] by simp
  with 2 show ?case by auto
qed simp

lemma concat_elements: "length bs = n * k \<Longrightarrow> concat (map (le_bytes n) (elements n k bs)) = bs"
proof (induction n k bs rule: elements.induct)
  case (2 n k bs)
  have l: "length (take n bs) = n" using 2 by simp
  then have "le_bytes n (le_value (take n bs)) = take n bs" using le_bytes_value [of "take n bs"] by simp
  with 2 show ?case by simp
qed simp

lemma unat_word_of_nat: "v < 2 ^ LENGTH('a) \<Longrightarrow> unat (word_of_nat v :: 'a::len word) = v"
  by (simp add: unat_of_nat take_bit_nat_eq_self)

lemma le_bytes_sign_extend:
  assumes "n = 1 \<or> n = 2" and "v < 256 ^ n"
  shows "le_bytes n (unat (sign_extend n v)) = le_bytes n v"
proof -
  have "int (unat (sign_extend n v)) mod 256 ^ n = int v mod 256 ^ n"
    using assms
    by (auto simp: sign_extend_def unsigned_of_int take_bit_eq_mod mod_mod_cancel)
  then have "unat (sign_extend n v) mod 256 ^ n = v mod 256 ^ n"
    by (metis nat_int zmod_int of_nat_numeral of_nat_power)
  then show ?thesis using le_bytes_mod [of n "unat (sign_extend n v)"] le_bytes_mod [of n v] by simp
qed

section \<open>Sizes\<close>

text \<open>What the code relies on of ONNX Runtime: products that fail instead of wrapping, equal enumerations.\<close>

definition ort_types_ok :: "ort_types \<Rightarrow> bool" where
  "ort_types_ok T \<longleftrightarrow>
     (\<forall>a b. CalcMemSizeForArray T a b = (if a * b \<le> SIZE_MAX then Some (a * b) else None))
   \<and> (\<forall>a b. CalcMemSizeWithAlignment T 0 a b = (if a * b \<le> SIZE_MAX then Some (a * b) else None))
   \<and> 0 < sizeof_string T \<and> (\<forall>t. element_type_cast T t = CApiElementTypeFromProtoType t)"

lemma count_elements_prod:
  assumes "ort_types_ok T" and "count_elements T ds s = Inr c"
  shows "c = s * nat (prod_list ds) \<and> list_all (\<lambda>d. 0 \<le> d) ds"
  using assms(2)
proof (induction ds arbitrary: s)
  case (Cons d ds)
  then have d: "0 \<le> d" "CalcMemSizeForArray T s (nat d) = Some (s * nat d)" "count_elements T ds (s * nat d) = Inr c"
    using assms(1) by (auto simp: ort_types_ok_def split: if_splits option.splits)
  from Cons.IH [OF d(3)] d(1) show ?case by (simp add: nat_mult_distrib)
qed simp

lemma tensor_size_prod: "tensor_size ds s = Inr p \<Longrightarrow> p = s * prod_list ds"
  by (induction ds arbitrary: s) (fastforce simp: rbind_Inr_iff int64_mult_def mult.assoc split: if_splits)+

lemma GetSizeInBytes_eq:
  assumes "ort_types_ok T" and "GetSizeInBytesFromTensorProto T 0 t = Inr n"
  shows "\<exists>k. type_size T (tp_data_type t) = Some k \<and> n = nat (prod_list (tp_dims t)) * k
    \<and> n \<le> SIZE_MAX \<and> list_all (\<lambda>d. 0 \<le> d) (tp_dims t)"
  using assms count_elements_prod [OF assms(1)]
  by (auto simp: GetSizeInBytesFromTensorProto_def rbind_Inr_iff opt_or_Inr_iff ort_types_ok_def
      split: option.splits if_splits) fastforce+

section \<open>Unpacking stays inside the buffer\<close>

lemma length_concat_le_bytes: "length (concat (map (le_bytes n) vs)) = n * length vs"
  by (induction vs) auto

lemma unpack_16bit_length: "unpack_16bit vs = Inr r \<Longrightarrow> length r = 2 * length vs"
  by (induction vs arbitrary: r) (auto simp: rbind_Inr_iff split: if_splits)

lemma UnpackRaw_length:
  "ort_types_ok T \<Longrightarrow> UnpackTensorWithRawData T n r c = Inr d \<Longrightarrow> length d = c * n"
  by (auto simp: UnpackTensorWithRawData_def ort_types_ok_def split: option.splits if_splits)

lemma UnpackTensor_lengths:
  assumes "ort_types_ok T" and "0 \<le> c"
  shows "UnpackTensor_num T ty n t True c = Inr d \<Longrightarrow> length d = nat c * n"
    and "UnpackTensor_bool T t True c = Inr d \<Longrightarrow> length d = nat c * 1"
    and "UnpackTensor_16bit T ty t True c = Inr d \<Longrightarrow> length d = nat c * 2"
  using assms
  by (auto simp: UnpackTensor_num_def UnpackTensor_bool_def UnpackTensor_16bit_def Let_def length_concat_le_bytes
      split: option.splits if_splits dest: UnpackRaw_length unpack_16bit_length)

lemma write_buffer_exact: "length d = n \<Longrightarrow> write_buffer (Some (replicate n 0)) d = Inr (Raw d)"
  by (simp add: write_buffer_def)

text \<open>The errors the unpacking routines raise themselves.\<close>

lemma unpack_no_fault:
  "UnpackTensor_num T ty n t p c = Inl e \<Longrightarrow> \<not> is_Fault e"
  "UnpackTensor_bool T t p c = Inl e \<Longrightarrow> \<not> is_Fault e"
  "UnpackTensor_16bit T ty t p c = Inl e \<Longrightarrow> \<not> is_Fault e"
  "UnpackTensor_string t p c = Inl e \<Longrightarrow> \<not> is_Fault e"
proof -
  have r: "UnpackTensorWithRawData T n r c' = Inl e \<Longrightarrow> \<not> is_Fault e" for n r c' e
    by (auto simp: UnpackTensorWithRawData_def split: option.splits if_splits)
  have s: "unpack_16bit vs = Inl e \<Longrightarrow> \<not> is_Fault e" for vs e
    by (induction vs) (auto simp: rbind_Inl_iff split: if_splits)
  show "UnpackTensor_num T ty n t p c = Inl e \<Longrightarrow> \<not> is_Fault e"
    "UnpackTensor_bool T t p c = Inl e \<Longrightarrow> \<not> is_Fault e"
    "UnpackTensor_16bit T ty t p c = Inl e \<Longrightarrow> \<not> is_Fault e"
    "UnpackTensor_string t p c = Inl e \<Longrightarrow> \<not> is_Fault e"
    by (auto simp: UnpackTensor_num_def UnpackTensor_bool_def UnpackTensor_16bit_def UnpackTensor_string_def Let_def
        dest: r s split: option.splits if_splits)
qed

text \<open>The buffer \<^verbatim>\<open>SetMLValue\<close> allocates: zeroed, of exactly the computed size.\<close>

definition fresh_buffer :: "nat \<Rightarrow> MemBuffer" where
  "fresh_buffer n = \<lparr>mb_buffer = Some (replicate n 0), mb_len = n\<rparr>"

lemma rbind_write:
  assumes "\<And>d. r = Inr d \<Longrightarrow> length d = n" and "\<And>e. r = Inl e \<Longrightarrow> \<not> is_Fault e"
  shows "case rbind r (write_buffer (Some (replicate n 0))) of Inl e \<Rightarrow> \<not> is_Fault e | Inr x \<Rightarrow> (\<exists>d. x = Raw d \<and> length d = n)"
  using assms by (cases r) (auto simp: write_buffer_exact)

lemma unpack_into_bounds:
  assumes T: "ort_types_ok T" and k: "type_size T (tp_data_type t) = Some k" and c: "0 \<le> c"
  shows "case unpack_into T t (fresh_buffer (nat c * k)) c of
      Inl e \<Rightarrow> \<not> is_Fault e
    | Inr (Raw d) \<Rightarrow> length d = nat c * k
    | Inr (Strings ss) \<Rightarrow> length ss = nat c"
proof -
  note L = UnpackTensor_lengths [OF T c] unpack_no_fault
  have num: "\<And>n ty. case rbind (UnpackTensor_num T ty n t True c) (write_buffer (Some (replicate (nat c * n) 0))) of
      Inl e \<Rightarrow> \<not> is_Fault e | Inr x \<Rightarrow> (\<exists>d. x = Raw d \<and> length d = nat c * n)"
    by (rule rbind_write) (auto dest: L)
  have bool: "case rbind (UnpackTensor_bool T t True c) (write_buffer (Some (replicate (nat c * 1) 0))) of
      Inl e \<Rightarrow> \<not> is_Fault e | Inr x \<Rightarrow> (\<exists>d. x = Raw d \<and> length d = nat c * 1)"
    by (rule rbind_write) (auto dest: L)
  have half: "case rbind (UnpackTensor_16bit T ty t True c) (write_buffer (Some (replicate (nat c * 2) 0))) of
      Inl e \<Rightarrow> \<not> is_Fault e | Inr x \<Rightarrow> (\<exists>d. x = Raw d \<and> length d = nat c * 2)" for ty
    by (rule rbind_write) (auto dest: L)
  have str: "case rbind (UnpackTensor_string t True c) (\<lambda>ss. write_strings ss (replicate (nat c) [])) of
      Inl e \<Rightarrow> \<not> is_Fault e | Inr x \<Rightarrow> (\<exists>ss. x = Strings ss \<and> length ss = nat c)"
    using c by (cases "UnpackTensor_string t True c")
      (auto dest: L simp: write_strings_def UnpackTensor_string_def split: if_splits)
  have sz: "0 < sizeof_string T" using T by (simp add: ort_types_ok_def)
  show ?thesis
    using k num [of k "tp_data_type t"] bool half [of "tp_data_type t"] str sz
    by (cases "tp_data_type t")
       (auto simp: unpack_into_def fresh_buffer_def GetTensorElementType_def OrtInitializeBufferForTensor_def
         split: sum.splits tensor_data.splits)
qed

lemma tensor_size_fault: "tensor_size ds s = Inl e \<Longrightarrow> is_Fault e \<Longrightarrow> e = Fault ''signed integer overflow''"
  by (induction ds arbitrary: s) (auto simp: rbind_Inl_iff int64_mult_def split: if_splits)

lemma prod_list_nonneg: "list_all (\<lambda>d. 0 \<le> d) ds \<Longrightarrow> 0 \<le> prod_list (ds :: int list)"
  by (induction ds) auto

lemma GetTensorShape_dims: "GetTensorShapeFromTensorProto t = tp_dims t"
  by (simp add: GetTensorShapeFromTensorProto_def map_nth)

text \<open>
  C13: converting an input tensor never writes outside the buffer that was allocated for it, for
  any sizes, types and data fields a client sends: the only undefined operation it can reach is an
  overflow of the signed element count. A converted tensor has the shape and type of the message and
  fills the buffer exactly.
\<close>

theorem tensor_input_in_bounds:
  assumes T: "ort_types_ok T" and n: "GetSizeInBytesFromTensorProto T 0 t = Inr n"
  shows "case TensorProtoToMLValue T t (fresh_buffer n) of
      Inl e \<Rightarrow> \<not> is_Fault e \<or> e = Fault ''signed integer overflow''
    | Inr v \<Rightarrow> ov_shape v = tp_dims t \<and> ov_type v = GetTensorElementType t
        \<and> (case ov_data v of Raw d \<Rightarrow> length d = n | Strings ss \<Rightarrow> length ss = nat (prod_list (tp_dims t)))"
proof -
  obtain k where k: "type_size T (tp_data_type t) = Some k" "n = nat (prod_list (tp_dims t)) * k"
      "list_all (\<lambda>d. 0 \<le> d) (tp_dims t)" using GetSizeInBytes_eq [OF assms] by blast
  have c: "element_type_cast T (tp_data_type t) = GetTensorElementType t"
    using T by (simp add: ort_types_ok_def GetTensorElementType_def)
  show ?thesis
  proof (cases "tensor_size (tp_dims t) 1")
    case (Inl e)
    then show ?thesis
      using tensor_size_fault [OF Inl] by (auto simp: TensorProtoToMLValue_def)
  next
    case (Inr p)
    then have p: "p = prod_list (tp_dims t)" "0 \<le> p"
      using tensor_size_prod [OF Inr] prod_list_nonneg [OF k(3)] by simp_all
    have mb: "mb_buffer (fresh_buffer n) \<noteq> None" "mb_len (fresh_buffer n) = n" by (simp_all add: fresh_buffer_def)
    note b = unpack_into_bounds [OF T k(1) p(2)]
    have nn: "nat p * k = n" using k(2) p(1) by simp
    show ?thesis
      using b [unfolded nn] p(1) by (cases "unpack_into T t (fresh_buffer n) p")
        (auto simp: TensorProtoToMLValue_def Inr n mb c GetTensorShape_dims split: tensor_data.splits)
  qed
qed

text \<open>Sizes of an x86-64 build.\<close>

definition sample_types :: ort_types where
  "sample_types = \<lparr>CalcMemSizeForArray = (\<lambda>a b. if a * b \<le> SIZE_MAX then Some (a * b) else None),
     CalcMemSizeWithAlignment = (\<lambda>al a b. if a * b \<le> SIZE_MAX then Some (a * b) else None),
     sizeof_string = 32, proto_type_number = (\<lambda>t. 0), element_type_cast = CApiElementTypeFromProtoType\<rparr>"

lemma sample_types_ok: "ort_types_ok sample_types"
  by (simp add: ort_types_ok_def sample_types_def)

theorem tensor_input_in_bounds_witness:
  "GetSizeInBytesFromTensorProto sample_types 0
      (empty_TensorProto\<lparr>tp_dims := [2], tp_data_type := INT16, tp_int32_data := [1, - 2]\<rparr>) = Inr 4
   \<and> (case TensorProtoToMLValue sample_types
          (empty_TensorProto\<lparr>tp_dims := [2], tp_data_type := INT16, tp_int32_data := [1, - 2]\<rparr>) (fresh_buffer 4) of
        Inl e \<Rightarrow> \<not> is_Fault e \<or> e = Fault ''signed integer overflow''
      | Inr v \<Rightarrow> ov_shape v = [2] \<and> (case ov_data v of Raw d \<Rightarrow> length d = 4 | Strings ss \<Rightarrow> length ss = 2))"
proof -
  have n: "GetSizeInBytesFromTensorProto sample_types 0
      (empty_TensorProto\<lparr>tp_dims := [2], tp_data_type := INT16, tp_int32_data := [1, - 2]\<rparr>) = Inr 4"
    by (simp add: GetSizeInBytesFromTensorProto_def empty_TensorProto_def sample_types_def SIZE_MAX_def)
  from tensor_input_in_bounds [OF sample_types_ok n] n show ?thesis
    by (simp add: empty_TensorProto_def split: sum.splits tensor_data.splits)
qed

text \<open>
  The element count is computed as a signed 64-bit product and can overflow on a tensor the
  size computation has accepted: with the dimensions 2^62, 2 and 0 the size is 0 bytes, while the
  product of the first two is undefined.
\<close>

theorem tensor_size_signed_overflow:
  "GetSizeInBytesFromTensorProto sample_types 0
     (empty_TensorProto\<lparr>tp_dims := [2 ^ 62, 2, 0], tp_data_type := UINT8\<rparr>) = Inr 0
   \<and> TensorProtoToMLValue sample_types
     (empty_TensorProto\<lparr>tp_dims := [2 ^ 62, 2, 0], tp_data_type := UINT8\<rparr>) (fresh_buffer 0)
     = Inl (Fault ''signed integer overflow'')"
  by (simp add: GetSizeInBytesFromTensorProto_def TensorProtoToMLValue_def GetTensorElementType_def
      empty_TensorProto_def sample_types_def SIZE_MAX_def int64_mult_def)

section \<open>Converting back and forth\<close>

text \<open>A runtime value of a supported type whose memory matches its shape.\<close>

definition shape_ok :: "int list \<Rightarrow> bool" where
  "shape_ok ds \<longleftrightarrow> list_all (\<lambda>d. 0 \<le> d) ds \<and> prod_list (map (max 1) ds) < 2 ^ 58"

definition value_ok :: "ort_types \<Rightarrow> OrtValue \<Rightarrow> bool" where
  "value_ok T v \<longleftrightarrow> shape_ok (ov_shape v) \<and>
     (case ov_data v of
        Raw d \<Rightarrow> ov_type v \<noteq> ET_STRING \<and>
          (case type_size T (MLDataTypeToTensorProtoDataType (ov_type v)) of
             None \<Rightarrow> False
           | Some k \<Rightarrow> length d = k * elem_count v)
          \<and> (ov_type v = ET_BOOL \<longrightarrow> list_all (\<lambda>b. b = 0 \<or> b = 1) d)
      | Strings ss \<Rightarrow> ov_type v = ET_STRING \<and> ss \<noteq> [] \<and> length ss = elem_count v)"

lemma prod_max1: "1 \<le> prod_list (map (max 1) (ds :: int list))"
proof (induction ds)
  case (Cons d ds)
  have "1 * 1 \<le> max 1 d * prod_list (map (max 1) ds)"
    by (rule mult_mono) (use Cons in auto)
  then show ?case by simp
qed simp

text \<open>One step of either product: the partial product stays below the bound of the whole.\<close>

lemma prod_step:
  assumes "0 \<le> d" and "0 \<le> s" and "s * prod_list (map (max 1) (d # ds)) < B"
  shows "s * d < B" and "s * d * prod_list (map (max 1) ds) < (B :: int)"
proof -
  let ?P = "prod_list (map (max 1) ds)"
  have "s * d * ?P \<le> s * max 1 d * ?P"
    using assms(1,2) prod_max1 [of ds] by (intro mult_right_mono mult_left_mono) auto
  with assms(3) show 1: "s * d * ?P < B" by (simp add: mult.assoc)
  have "s * d * 1 \<le> s * d * ?P"
    using assms(1,2) prod_max1 [of ds] by (intro mult_left_mono) auto
  with 1 show "s * d < B" by simp
qed

lemma tensor_size_ok:
  assumes "list_all (\<lambda>d. 0 \<le> d) ds" and "0 \<le> s" and "s * prod_list (map (max 1) ds) < 2 ^ 63"
  shows "tensor_size ds s = Inr (s * prod_list ds)"
  using assms
proof (induction ds arbitrary: s)
  case (Cons d ds)
  then have d: "0 \<le> d" by simp
  note st = prod_step [OF d Cons.prems(2,3)]
  have "int64_mult s d = Inr (s * d)"
  proof -
    have "0 \<le> s * d" using d Cons.prems(2) by simp
    then show ?thesis using st(1) unfolding int64_mult_def by auto
  qed
  moreover have "tensor_size ds (s * d) = Inr (s * d * prod_list ds)"
    by (rule Cons.IH) (use Cons.prems d st(2) in auto)
  ultimately show ?case using d by (simp add: mult.assoc)
qed simp

lemma prod_max1_member: "d \<in> set ds \<Longrightarrow> d \<le> prod_list (map (max 1) (ds :: int list))"
proof (induction ds)
  case (Cons x ds)
  let ?P = "prod_list (map (max 1) ds)"
  have P: "1 \<le> ?P" by (rule prod_max1)
  have "max 1 x * 1 \<le> max 1 x * ?P" "1 * ?P \<le> max 1 x * ?P"
    using P by (intro mult_left_mono mult_right_mono; simp)+
  moreover have "d = x \<or> d \<le> ?P" using Cons by auto
  ultimately show ?case by auto
qed simp

lemma count_elements_ok:
  assumes "ort_types_ok T" and "list_all (\<lambda>d. 0 \<le> d \<and> d < 2 ^ 58) ds" and "int s * prod_list (map (max 1) ds) < 2 ^ 63"
  shows "count_elements T ds s = Inr (s * nat (prod_list ds))"
  using assms(2-3)
proof (induction ds arbitrary: s)
  case (Cons d ds)
  then have d: "0 \<le> d" "d < 2 ^ 58" by simp_all
  note st = prod_step [OF d(1) _ Cons.prems(2)]
  have "int (s * nat d) < int (2 ^ 63)" using st(1) d by simp
  then have "s * nat d < 2 ^ 63" by (simp only: of_nat_less_iff)
  then have "s * nat d \<le> SIZE_MAX" by (simp add: SIZE_MAX_def)
  then have "CalcMemSizeForArray T s (nat d) = Some (s * nat d)" using assms(1) by (simp add: ort_types_ok_def)
  moreover have "\<not> SIZE_MAX \<le> nat d" using d by (simp add: SIZE_MAX_def)
  moreover have "count_elements T ds (s * nat d) = Inr (s * nat d * nat (prod_list ds))"
    by (rule Cons.IH) (use Cons.prems st(2) d in auto)
  ultimately show ?case using d by (simp add: nat_mult_distrib)
qed simp

lemma shape_ok_sizes:
  assumes "ort_types_ok T" and "shape_ok ds"
  shows "tensor_size ds 1 = Inr (prod_list ds)" and "count_elements T ds 1 = Inr (nat (prod_list ds))"
    and "0 \<le> prod_list ds" and "prod_list ds < 2 ^ 58"
proof -
  have nn: "list_all (\<lambda>d. 0 \<le> d) ds" and b: "prod_list (map (max 1) ds) < 2 ^ 58"
    using assms(2) by (simp_all add: shape_ok_def)
  have m: "list_all (\<lambda>d. 0 \<le> d \<and> d < 2 ^ 58) ds"
    using nn b prod_max1_member [of _ ds] by (fastforce simp: list_all_iff)
  show "tensor_size ds 1 = Inr (prod_list ds)"
    using tensor_size_ok [OF nn, of 1] b by simp
  show "count_elements T ds 1 = Inr (nat (prod_list ds))"
    using count_elements_ok [OF assms(1) m, of 1] b by simp
  show "0 \<le> prod_list ds" by (rule prod_list_nonneg [OF nn])
  have "prod_list ds \<le> prod_list (map (max 1) ds)"
    using nn
  proof (induction ds)
    case (Cons d ds)
    then show ?case using prod_list_nonneg [of ds] by (auto intro!: mult_mono)
  qed simp
  with b show "prod_list ds < 2 ^ 58" by simp
qed

text \<open>What is put in a typed field comes out again as the same bytes.\<close>

lemma typed_field_bytes:
  assumes "length bs = n * k" and "type_size T ty = Some n" and "ty \<noteq> STRING"
  shows "concat (map (le_bytes n) (typed_field ty (emit_typed ty (elements n k bs)
      (empty_TensorProto\<lparr>tp_dims := ds, tp_data_type := ty, tp_external := False\<rparr>)))) = bs"
proof -
  have b: "e \<in> set (elements n k bs) \<Longrightarrow> e < 256 ^ n" for e by (rule elements_bound [OF assms(1)])
  have w32: "map (unat \<circ> (word_of_nat :: nat \<Rightarrow> u32)) (elements n k bs) = elements n k bs" if "n \<le> 4"
  proof (rule map_idI)
    fix e assume "e \<in> set (elements n k bs)"
    then have "e < 256 ^ n" by (rule b)
    also have "\<dots> \<le> 256 ^ 4" using that by (intro power_increasing) auto
    finally show "(unat \<circ> (word_of_nat :: nat \<Rightarrow> u32)) e = e" by (simp add: unat_word_of_nat)
  qed
  have w64: "map (unat \<circ> (word_of_nat :: nat \<Rightarrow> u64)) (elements n k bs) = elements n k bs" if "n \<le> 8"
  proof (rule map_idI)
    fix e assume "e \<in> set (elements n k bs)"
    then have "e < 256 ^ n" by (rule b)
    also have "\<dots> \<le> 256 ^ 8" using that by (intro power_increasing) auto
    finally show "(unat \<circ> (word_of_nat :: nat \<Rightarrow> u64)) e = e" by (simp add: unat_word_of_nat)
  qed
  note c = concat_elements [OF assms(1)]
  have sx: "concat (map (\<lambda>e. le_bytes n (unat (sign_extend n e))) (elements n k bs)) = bs" if "n = 1 \<or> n = 2"
  proof -
    have "map (\<lambda>e. le_bytes n (unat (sign_extend n e))) (elements n k bs) = map (le_bytes n) (elements n k bs)"
      using le_bytes_sign_extend [OF that] b by (intro map_cong) auto
    with c show ?thesis by metis
  qed
  show ?thesis
  proof (cases "ty = INT8 \<or> ty = INT16")
    case True
    with assms(2) sx show ?thesis by (auto simp: emit_typed_def empty_TensorProto_def comp_def)
  next
    case False
    with assms(2,3) c w32 w64 show ?thesis by (cases ty) (auto simp: emit_typed_def empty_TensorProto_def)
  qed
qed

lemma typed_field_length: "length (typed_field ty (emit_typed ty es
    (empty_TensorProto\<lparr>tp_dims := ds, tp_data_type := ty, tp_external := False\<rparr>))) = length es"
  by (cases ty) (simp_all add: emit_typed_def empty_TensorProto_def)

lemma unpack_16bit_words:
  "list_all (\<lambda>e. e < 65536) es \<Longrightarrow> unpack_16bit (map word_of_nat es) = Inr (concat (map (le_bytes 2) es))"
proof (induction es)
  case (Cons e es)
  have u: "unat (word_of_nat e :: u32) = e" using Cons by (simp add: unat_word_of_nat)
  have "sint (word_of_nat e :: u32) = int e"
    using Cons.prems by (simp add: signed_of_nat signed_take_bit_int_eq_self)
  with u Cons show ?case by simp
qed simp

lemma bool_bytes:
  "list_all (\<lambda>b. b = 0 \<or> b = 1) bs \<Longrightarrow>
     map (\<lambda>w. if w \<noteq> 0 then 1 else 0) (map (word_of_nat :: nat \<Rightarrow> u32) (elements 1 (length bs) bs)) = bs"
  by (induction bs) auto

lemma cut_strings_append:
  "cut_strings (pre @ concat ss) (map (\<lambda>i. length pre + length (concat (take i ss))) [1..<length ss]) (length pre)
    = (if ss = [] then [[]] else ss)"
proof (induction ss arbitrary: pre)
  case (Cons a ss)
  show ?case
  proof (cases "ss = []")
    case False
    then have u: "[1..<length (a # ss)] = 1 # map Suc [1..<length ss]"
      by (cases ss) (simp_all add: upt_conv_Cons map_Suc_upt del: upt_Suc)
    have "cut_strings ((pre @ a) @ concat ss)
        (map (\<lambda>i. length (pre @ a) + length (concat (take i ss))) [1..<length ss]) (length (pre @ a)) = ss"
      using Cons.IH [of "pre @ a"] False by simp
    then show ?thesis unfolding u by (simp add: comp_def add.assoc)
  qed simp
qed simp

lemma emit_strings_id: "ss \<noteq> [] \<Longrightarrow> emit_strings ss = ss"
proof -
  assume "ss \<noteq> []"
  then have "tl (string_offsets ss) = map (\<lambda>i. length (concat (take i ss))) [1..<length ss]"
    by (simp add: string_offsets_def map_tl [symmetric] tl_upt)
  then show ?thesis
    using cut_strings_append [of "[]" ss] \<open>ss \<noteq> []\<close> by (simp add: emit_strings_def)
qed

lemma GetSize_ok:
  assumes "ort_types_ok T" and "shape_ok (tp_dims t)" and "type_size T (tp_data_type t) = Some k" and "k \<le> 32"
  shows "GetSizeInBytesFromTensorProto T 0 t = Inr (nat (prod_list (tp_dims t)) * k)"
proof -
  note sh = shape_ok_sizes [OF assms(1,2)]
  have "nat (prod_list (tp_dims t)) * k \<le> 2 ^ 58 * 32"
    using sh(3,4) assms(4) by (intro mult_le_mono) auto
  then have "nat (prod_list (tp_dims t)) * k \<le> SIZE_MAX" by (simp add: SIZE_MAX_def)
  then show ?thesis using assms(1,3) sh(2) by (simp add: GetSizeInBytesFromTensorProto_def ort_types_ok_def)
qed

text \<open>The proto that a value is written to, for the two ways of writing numbers.\<close>

definition num_proto :: "OrtValue \<Rightarrow> DataType \<Rightarrow> bool \<Rightarrow> nat \<Rightarrow> bytes \<Rightarrow> TensorProto" where
  "num_proto v ty using_raw k d =
     (let t = empty_TensorProto\<lparr>tp_dims := ov_shape v, tp_data_type := ty, tp_external := False\<rparr>
      in if using_raw then t\<lparr>tp_raw_data := Some d\<rparr> else emit_typed ty (elements k (elem_count v) d) t)"

lemma num_proto_fields [simp]:
  "tp_dims (num_proto v ty u k d) = ov_shape v" "tp_data_type (num_proto v ty u k d) = ty"
  "\<not> tp_external (num_proto v ty u k d)" "tp_raw_data (num_proto v ty u k d) = (if u then Some d else None)"
  by (cases ty; simp add: num_proto_def emit_typed_def empty_TensorProto_def Let_def)+

lemma MLValueToTensorProto_num:
  assumes "ov_data v = Raw d" and "ty = MLDataTypeToTensorProtoDataType (ov_type v)"
    and "type_size T ty = Some k" and "ty \<noteq> STRING" and "length d = k * elem_count v"
  shows "MLValueToTensorProto T True v u empty_TensorProto = Inr (num_proto v ty u k d)"
proof -
  have e: "\<And>ty. empty_TensorProto\<lparr>tp_dims := ov_shape v, tp_data_type := ty, tp_external := False\<rparr>
      = empty_TensorProto\<lparr>tp_dims := ov_shape v, tp_data_type := ty\<rparr>"
    "tp_dims empty_TensorProto = []"
    by (simp_all add: empty_TensorProto_def)
  have r: "raw_bytes v k = Inr d" using assms(1,5) by (simp add: raw_bytes_def)
  show ?thesis
    using assms(3,4) r
    by (cases ty) (auto simp: MLValueToTensorProto_def assms(2) [symmetric] emit_numeric_def num_proto_def Let_def e)
qed

lemma unpack_into_num_proto:
  assumes T: "ort_types_ok T" and k: "type_size T ty = Some k" and ty: "ty \<noteq> STRING"
    and d: "length d = k * elem_count v" and b: "ty = BOOL \<longrightarrow> list_all (\<lambda>b. b = 0 \<or> b = 1) d"
    and c: "0 \<le> c" "nat c = elem_count v" and mx: "length d \<le> SIZE_MAX"
  shows "unpack_into T (num_proto v ty u k d) (fresh_buffer (length d)) c = Inr (Raw d)"
proof -
  let ?t = "num_proto v ty u k d"
  have raw: "UnpackTensorWithRawData T k d (nat c) = Inr d"
    using T d c(2) mx by (simp add: UnpackTensorWithRawData_def ort_types_ok_def mult.commute)
  have cl: "int (elem_count v) = c" using c by simp
  have num: "UnpackTensor_num T ty k ?t True c = Inr d"
  proof (cases u)
    case False
    have f: "typed_field ty ?t = typed_field ty (emit_typed ty (elements k (elem_count v) d)
        (empty_TensorProto\<lparr>tp_dims := ov_shape v, tp_data_type := ty, tp_external := False\<rparr>))"
      using False by (simp add: num_proto_def Let_def)
    have "concat (map (le_bytes k) (typed_field ty ?t)) = d" unfolding f by (rule typed_field_bytes [OF d k ty])
    moreover have "length (typed_field ty ?t) = elem_count v" unfolding f typed_field_length by simp
    ultimately show ?thesis using False cl by (simp add: UnpackTensor_num_def Let_def)
  qed (simp add: UnpackTensor_num_def raw)
  have i32: "tp_int32_data ?t = map word_of_nat (elements k (elem_count v) d)" if "ty = BOOL \<or> ty = FLOAT16 \<or> ty = BFLOAT16" "\<not> u"
    using that by (auto simp: num_proto_def emit_typed_def empty_TensorProto_def Let_def)
  have bool: "UnpackTensor_bool T ?t True c = Inr d" if "ty = BOOL"
  proof (cases u)
    case True then show ?thesis using that raw k by (simp add: UnpackTensor_bool_def)
  next
    case False
    have "k = 1" using k that by simp
    with that False b d cl i32 bool_bytes [of d] show ?thesis by (simp add: UnpackTensor_bool_def Let_def)
  qed
  have half: "UnpackTensor_16bit T ty ?t True c = Inr d" if "ty = FLOAT16 \<or> ty = BFLOAT16"
  proof (cases u)
    case True then show ?thesis using that raw k by (auto simp: UnpackTensor_16bit_def)
  next
    case False
    have k2: "k = 2" using k that by auto
    have "list_all (\<lambda>e. e < 65536) (elements k (elem_count v) d)"
      using elements_bound [OF d] k2 by (auto simp: list_all_iff)
    then have "unpack_16bit (tp_int32_data ?t) = Inr d"
      using i32 [OF _ False] that concat_elements [OF d] k2 by (auto simp: unpack_16bit_words)
    with that False cl i32 show ?thesis by (auto simp: UnpackTensor_16bit_def Let_def)
  qed
  show ?thesis
    using k ty num bool half write_buffer_exact [OF refl, of d]
    by (cases ty) (auto simp: unpack_into_def fresh_buffer_def Let_def)
qed

lemma MLDataType_inverse: "CApiElementTypeFromProtoType (MLDataTypeToTensorProtoDataType ty) = ty"
  by (cases ty) simp_all

lemma num_proto_read:
  assumes T: "ort_types_ok T" and v: "value_ok T v" and Raw: "ov_data v = Raw d"
  defines "ty \<equiv> MLDataTypeToTensorProtoDataType (ov_type v)"
  obtains k where "type_size T ty = Some k" "length d = k * elem_count v" "ty \<noteq> STRING"
    "\<And>u. GetSizeInBytesFromTensorProto T 0 (num_proto v ty u k d) = Inr (length d)"
    "\<And>u. TensorProtoToMLValue T (num_proto v ty u k d) (fresh_buffer (length d)) = Inr v"
proof -
  have sh: "shape_ok (ov_shape v)" using v by (simp add: value_ok_def)
  note s = shape_ok_sizes [OF T sh]
  obtain k where k: "type_size T ty = Some k" "length d = k * elem_count v" "ov_type v \<noteq> ET_STRING"
    and b: "ov_type v = ET_BOOL \<longrightarrow> list_all (\<lambda>b. b = 0 \<or> b = 1) d"
    using v Raw by (auto simp: value_ok_def ty_def split: option.splits)
  have ns: "ty \<noteq> STRING" and bb: "ty = BOOL \<longrightarrow> list_all (\<lambda>b. b = 0 \<or> b = 1) d"
    using k(3) b by (cases "ov_type v"; simp add: ty_def)+
  have k32: "k \<le> 32" using k(1) ns by (cases "ov_type v") (auto simp: ty_def)
  have n: "GetSizeInBytesFromTensorProto T 0 (num_proto v ty u k d) = Inr (length d)" for u
    using GetSize_ok [OF T, of "num_proto v ty u k d" k] sh k k32 by (simp add: elem_count_def mult.commute)
  have mx: "length d \<le> SIZE_MAX" using GetSizeInBytes_eq [OF T n] by blast
  have "unpack_into T (num_proto v ty u k d) (fresh_buffer (length d)) (prod_list (ov_shape v)) = Inr (Raw d)" for u
    by (rule unpack_into_num_proto [OF T k(1) ns k(2) bb s(3) _ mx]) (simp add: elem_count_def)
  then have "TensorProtoToMLValue T (num_proto v ty u k d) (fresh_buffer (length d)) = Inr v" for u
    using n s(1) k(3) Raw T MLDataType_inverse [of "ov_type v"]
    by (simp add: TensorProtoToMLValue_def GetTensorElementType_def fresh_buffer_def GetTensorShape_dims ty_def ort_types_ok_def)
  with n k ns that show thesis by blast
qed

definition string_proto :: "int list \<Rightarrow> string list \<Rightarrow> TensorProto" where
  "string_proto ds ss = empty_TensorProto\<lparr>tp_dims := ds, tp_data_type := STRING, tp_string_data := ss\<rparr>"

lemma string_proto_read:
  assumes T: "ort_types_ok T" and sz: "sizeof_string T \<le> 32" and v: "value_ok T v" and Strings: "ov_data v = Strings ss"
  shows "MLValueToTensorProto T True v u empty_TensorProto = Inr (string_proto (ov_shape v) ss)"
    and "\<exists>n. GetSizeInBytesFromTensorProto T 0 (string_proto (ov_shape v) ss) = Inr n
      \<and> TensorProtoToMLValue T (string_proto (ov_shape v) ss) (fresh_buffer n) = Inr v"
proof -
  have sh: "shape_ok (ov_shape v)" using v by (simp add: value_ok_def)
  note s = shape_ok_sizes [OF T sh]
  have ss: "ov_type v = ET_STRING" "ss \<noteq> []" "length ss = elem_count v"
    using v Strings by (simp_all add: value_ok_def)
  let ?t = "string_proto (ov_shape v) ss" and ?n = "elem_count v * sizeof_string T"
  show "MLValueToTensorProto T True v u empty_TensorProto = Inr ?t"
    using ss Strings by (simp add: MLValueToTensorProto_def emit_strings_id empty_TensorProto_def string_proto_def)
  have n: "GetSizeInBytesFromTensorProto T 0 ?t = Inr ?n"
    using GetSize_ok [OF T, of ?t "sizeof_string T"] sh sz
    by (simp add: elem_count_def empty_TensorProto_def string_proto_def)
  have p: "0 < sizeof_string T" "element_type_cast T STRING = ET_STRING" using T by (simp_all add: ort_types_ok_def)
  have "int (length ss) = prod_list (ov_shape v)" using ss(3) s(3) by (simp add: elem_count_def)
  then have "unpack_into T ?t (fresh_buffer ?n) (prod_list (ov_shape v)) = Inr (Strings ss)"
    using p ss(3)
    by (simp add: unpack_into_def fresh_buffer_def UnpackTensor_string_def GetTensorElementType_def
        OrtInitializeBufferForTensor_def write_strings_def empty_TensorProto_def string_proto_def)
  then have "TensorProtoToMLValue T ?t (fresh_buffer ?n) = Inr v"
    using n s(1) p(2) ss(1) Strings
    by (simp add: TensorProtoToMLValue_def GetTensorElementType_def fresh_buffer_def GetTensorShape_dims
        empty_TensorProto_def string_proto_def)
  with n show "\<exists>n. GetSizeInBytesFromTensorProto T 0 ?t = Inr n \<and> TensorProtoToMLValue T ?t (fresh_buffer n) = Inr v" by blast
qed

text \<open>
  C12: a runtime tensor survives the conversion to the wire format and back, with its type, shape
  and every byte, for all numeric types in either of the two representations and for strings.
\<close>

theorem tensor_roundtrip:
  assumes "ort_types_ok T" and "sizeof_string T \<le> 32" and "value_ok T v"
  shows "\<exists>t n. MLValueToTensorProto T True v using_raw empty_TensorProto = Inr t
    \<and> GetSizeInBytesFromTensorProto T 0 t = Inr n
    \<and> TensorProtoToMLValue T t (fresh_buffer n) = Inr v"
proof (cases "ov_data v")
  case (Raw d)
  then show ?thesis
    by (rule num_proto_read [OF assms(1,3)]) (use MLValueToTensorProto_num [OF Raw refl] in blast)
next
  case (Strings ss)
  show ?thesis using string_proto_read [OF assms Strings] by blast
qed

theorem tensor_roundtrip_witness:
  "\<exists>t n. MLValueToTensorProto sample_types True \<lparr>ov_type = ET_INT16, ov_shape = [2], ov_data = Raw [1, 255, 254, 255]\<rparr>
       False empty_TensorProto = Inr t
    \<and> GetSizeInBytesFromTensorProto sample_types 0 t = Inr n
    \<and> TensorProtoToMLValue sample_types t (fresh_buffer n)
      = Inr \<lparr>ov_type = ET_INT16, ov_shape = [2], ov_data = Raw [1, 255, 254, 255]\<rparr>"
  by (rule tensor_roundtrip [OF sample_types_ok])
     (simp_all add: sample_types_def value_ok_def shape_ok_def elem_count_def)

text \<open>
  A string tensor without elements is written with one empty string, which does not match its
  shape: reading the message back fails with a size mismatch.
\<close>

theorem empty_string_tensor_not_preserved:
  "\<exists>t. MLValueToTensorProto sample_types True \<lparr>ov_type = ET_STRING, ov_shape = [0], ov_data = Strings []\<rparr>
       using_raw empty_TensorProto = Inr t
    \<and> tp_string_data t = [[]]
    \<and> GetSizeInBytesFromTensorProto sample_types 0 t = Inr 0
    \<and> TensorProtoToMLValue sample_types t (fresh_buffer 0)
      = Inl (OrtException ''UnpackTensor: the pre-allocate size does not match the size in proto'' ORT_FAIL)"
  by (simp add: MLValueToTensorProto_def emit_strings_def string_offsets_def empty_TensorProto_def
      GetSizeInBytesFromTensorProto_def sample_types_def SIZE_MAX_def TensorProtoToMLValue_def GetTensorElementType_def
      int64_mult_def fresh_buffer_def unpack_into_def UnpackTensor_string_def)

end
