(* ===== verification/Executor.thy ===== *)
theory Executor
  imports Tensor
begin

text \<open>
  Inference requests: \<^verbatim>\<open>enclave/core/executor.cc\<close> with the status mapping of
  \<^verbatim>\<open>enclave/core/util.cc\<close>. ONNX Runtime's session is a parameter: \<open>ort_run\<close> is
  \<^verbatim>\<open>Ort::Session::Run\<close>. A protobuf map is the list of its entries in the order in which the
  library iterates over them. Logging is left out.
\<close>

section \<open>Status values (util.cc)\<close>

datatype StatusCode = OK_CODE | INVALID_ARGUMENT | UNIMPLEMENTED | INTERNAL | UNKNOWN | RESOURCE_EXHAUSTED

record pb_status =
  st_code :: StatusCode
  st_message :: string

definition Status_OK :: pb_status where
  "Status_OK = \<lparr>st_code = OK_CODE, st_message = []\<rparr>"

text \<open>The codes of ONNX Runtime.\<close>

definition ORT_OK :: nat where "ORT_OK = 0"
definition ORT_NO_SUCHFILE :: nat where "ORT_NO_SUCHFILE = 3"
definition ORT_NO_MODEL :: nat where "ORT_NO_MODEL = 4"
definition ORT_RUNTIME_EXCEPTION :: nat where "ORT_RUNTIME_EXCEPTION = 6"
definition ORT_INVALID_PROTOBUF :: nat where "ORT_INVALID_PROTOBUF = 7"
definition ORT_MODEL_LOADED :: nat where "ORT_MODEL_LOADED = 8"
definition ORT_INVALID_GRAPH :: nat where "ORT_INVALID_GRAPH = 10"
definition ORT_EP_FAIL :: nat where "ORT_EP_FAIL = 11"

lemmas ort_codes = ORT_OK_def ORT_FAIL_def ORT_INVALID_ARGUMENT_def ORT_NO_SUCHFILE_def ORT_NO_MODEL_def
  ORT_RUNTIME_EXCEPTION_def ORT_INVALID_PROTOBUF_def ORT_MODEL_LOADED_def ORT_NOT_IMPLEMENTED_def
  ORT_INVALID_GRAPH_def ORT_EP_FAIL_def

definition GenerateProtobufStatus :: "nat \<Rightarrow> string \<Rightarrow> pb_status" where
  "GenerateProtobufStatus onnx_status message =
     (let code =
        (if onnx_status \<in> {ORT_OK, ORT_MODEL_LOADED} then OK_CODE
         else if onnx_status \<in> {ORT_FAIL, ORT_INVALID_ARGUMENT, ORT_INVALID_PROTOBUF, ORT_INVALID_GRAPH,
                                 ORT_NO_SUCHFILE, ORT_NO_MODEL} then INVALID_ARGUMENT
         else if onnx_status = ORT_NOT_IMPLEMENTED then UNIMPLEMENTED
         else if onnx_status \<in> {ORT_RUNTIME_EXCEPTION, ORT_EP_FAIL} then INTERNAL
         else UNKNOWN)
      in if code = OK_CODE then Status_OK
         else \<lparr>st_code = code, st_message = ''ONNX Runtime Status Code: '' @ dec_of_nat onnx_status @ ''. '' @ message\<rparr>)"

definition AllocNewBuffer :: "nat \<Rightarrow> MemBuffer" where
  "AllocNewBuffer tensor_length = \<lparr>mb_buffer = Some (replicate tensor_length 0), mb_len = tensor_length\<rparr>"

section \<open>Requests and responses (predict.proto)\<close>

record PredictRequest =
  pr_inputs :: "(string \<times> TensorProto) list"
  pr_output_filter :: "string list"

type_synonym PredictResponse = "(string \<times> TensorProto) list"

text \<open>
  ONNX Runtime: a run and the creation of a session may fail; the output names of a session are read without a failure.
\<close>

record 'm ort_lib =
  o_types :: ort_types
  CreateCpuMemoryInfo :: bool
  ort_run :: "'m \<Rightarrow> string list \<Rightarrow> OrtValue list \<Rightarrow> string list \<Rightarrow> exn + (bool \<times> OrtValue) list"
  ort_session :: "bytes \<Rightarrow> exn + 'm"
  ort_output_names :: "'m \<Rightarrow> string list"

section \<open>Executor\<close>

text \<open>
  A \<^verbatim>\<open>catch (const Ort::Exception&)\<close> turns the exception into a status; every other exception
  leaves the function. A result is therefore an exception or a status with a value.
\<close>

definition catch_ort :: "exn + 'a \<Rightarrow> exn + (pb_status + 'a)" where
  "catch_ort r = (case r of
       Inr x \<Rightarrow> Inr (Inr x)
     | Inl (OrtException m c) \<Rightarrow> Inr (Inl (GenerateProtobufStatus c m))
     | Inl e \<Rightarrow> Inl e)"

definition SetMLValue :: "ort_types \<Rightarrow> TensorProto \<Rightarrow> exn + (pb_status + OrtValue)" where
  "SetMLValue T input_tensor =
     rbind (catch_ort (GetSizeInBytesFromTensorProto T 0 input_tensor)) (\<lambda>r.
       case r of
         Inl status \<Rightarrow> Inr (Inl status)
       | Inr cpu_tensor_length \<Rightarrow>
           catch_ort (TensorProtoToMLValue T input_tensor (AllocNewBuffer cpu_tensor_length)))"

text \<open>The loop over the inputs, with the member \<^verbatim>\<open>using_raw_data_\<close>.\<close>

fun SetNameMLValueMap_loop ::
    "ort_types \<Rightarrow> (string \<times> TensorProto) list \<Rightarrow> bool \<Rightarrow> string list \<Rightarrow> OrtValue list
       \<Rightarrow> (exn + (pb_status + string list \<times> OrtValue list)) \<times> bool" where
  "SetNameMLValueMap_loop T [] using_raw names values = (Inr (Inr (names, values)), using_raw)"
| "SetNameMLValueMap_loop T ((name, t) # inputs) using_raw names values =
     (let using_raw' = (using_raw \<and> tp_raw_data t \<noteq> None)
      in case SetMLValue T t of
           Inl e \<Rightarrow> (Inl e, using_raw')
         | Inr (Inl status) \<Rightarrow>
             if status \<noteq> Status_OK then (Inr (Inl status), using_raw')
             else (Inl (Fault ''value of a failed conversion used''), using_raw')
         | Inr (Inr v) \<Rightarrow> SetNameMLValueMap_loop T inputs using_raw' (names @ [name]) (values @ [v]))"

definition SetNameMLValueMap ::
    "'m ort_lib \<Rightarrow> PredictRequest \<Rightarrow> bool \<Rightarrow> (exn + (pb_status + string list \<times> OrtValue list)) \<times> bool" where
  "SetNameMLValueMap O' request using_raw =
     (if \<not> CreateCpuMemoryInfo O'
      then (Inr (Inl \<lparr>st_code = RESOURCE_EXHAUSTED, st_message = ''OrtCreateCpuMemoryInfo() failed''\<rparr>), using_raw)
      else SetNameMLValueMap_loop (o_types O') (pr_inputs request) using_raw [] [])"

text \<open>The loop that builds the response. \<^verbatim>\<open>output_names[i]\<close> past the end is undefined.\<close>

fun build_response ::
    "ort_types \<Rightarrow> bool \<Rightarrow> (bool \<times> OrtValue) list \<Rightarrow> string list \<Rightarrow> PredictResponse \<Rightarrow> (exn + pb_status) \<times> PredictResponse" where
  "build_response T using_raw [] names response = (Inr Status_OK, response)"
| "build_response T using_raw ((is_tensor, v) # outputs) names response =
     (case catch_ort (MLValueToTensorProto T is_tensor v using_raw empty_TensorProto) of
        Inl e \<Rightarrow> (Inl e, response)
      | Inr (Inl status) \<Rightarrow> (Inr status, response)
      | Inr (Inr t) \<Rightarrow>
          (case names of
             [] \<Rightarrow> (Inl (Fault ''output name index out of range''), response)
           | name # names' \<Rightarrow>
               if map_of response name \<noteq> None
               then (Inr \<lparr>st_code = INVALID_ARGUMENT,
                          st_message = ''SetNameMLValueMap() failed: Cannot have two outputs with the same name''\<rparr>,
                     response)
               else build_response T using_raw outputs names' (response @ [(name, t)])))"

text \<open>\<^verbatim>\<open>session\<close> is null until a model has been initialised: running it is then undefined.\<close>

definition Run :: "'m ort_lib \<Rightarrow> 'm option \<Rightarrow> string list \<Rightarrow> OrtValue list \<Rightarrow> string list \<Rightarrow> exn + (bool \<times> OrtValue) list" where
  "Run O' session input_names input_values output_names =
     (case session of
        None \<Rightarrow> Inl (Fault ''no session'')
      | Some m \<Rightarrow> ort_run O' m input_names input_values output_names)"

definition Predict ::
    "'m ort_lib \<Rightarrow> 'm option \<Rightarrow> string list \<Rightarrow> PredictRequest \<Rightarrow> (exn + pb_status) \<times> PredictResponse" where
  "Predict O' session model_output_names request =
     (case SetNameMLValueMap O' request True of
        (Inl e, _) \<Rightarrow> (Inl e, [])
      | (Inr (Inl conversion_status), _) \<Rightarrow> (Inr conversion_status, [])
      | (Inr (Inr (input_names, input_values)), using_raw_data) \<Rightarrow>
          let output_names = (if pr_output_filter request \<noteq> [] then pr_output_filter request else model_output_names)
          in case catch_ort (Run O' session input_names input_values output_names) of
               Inl e \<Rightarrow> (Inl e, [])
             | Inr (Inl status) \<Rightarrow> (Inr status, [])
             | Inr (Inr outputs) \<Rightarrow> build_response (o_types O') using_raw_data outputs output_names [])"

section \<open>What a successful prediction contains\<close>

lemma GenerateProtobufStatus_OK_iff:
  "st_code (GenerateProtobufStatus c m) = OK_CODE \<longleftrightarrow> c = ORT_OK \<or> c = ORT_MODEL_LOADED"
  by (simp add: GenerateProtobufStatus_def Status_OK_def Let_def)

lemma SetNameMLValueMap_loop_raw:
  assumes "SetNameMLValueMap_loop T inputs u names vals = (Inr (Inr x), u')"
  shows "u' \<longleftrightarrow> u \<and> list_all (\<lambda>(n, t). tp_raw_data t \<noteq> None) inputs"
    and "fst x = names @ map fst inputs"
  using assms
  by (induction T inputs u names vals rule: SetNameMLValueMap_loop.induct)
     (auto simp: Let_def split: sum.splits if_splits)

lemma SetNameMLValueMap_loop_values:
  assumes "SetNameMLValueMap_loop T inputs u names vals = (Inr (Inr x), u')"
  shows "\<exists>vs. snd x = vals @ vs \<and> list_all2 (\<lambda>(n, t) v. SetMLValue T t = Inr (Inr v)) inputs vs"
  using assms
proof (induction T inputs u names vals rule: SetNameMLValueMap_loop.induct)
  case (2 T name t inputs u names vals)
  obtain v where v: "SetMLValue T t = Inr (Inr v)"
    using 2 by (auto simp: Let_def split: sum.splits if_splits)
  with "2.IH" [OF refl v refl] "2.prems" obtain vs where
    "snd x = (vals @ [v]) @ vs" "list_all2 (\<lambda>(n, t) v. SetMLValue T t = Inr (Inr v)) inputs vs" by auto
  with v show ?case by (intro exI [of _ "v # vs"]) simp
qed auto

definition converts :: "ort_types \<Rightarrow> bool \<Rightarrow> bool \<times> OrtValue \<Rightarrow> string \<times> TensorProto \<Rightarrow> bool" where
  "converts T raw = (\<lambda>(b, v) (n, t). MLValueToTensorProto T b v raw empty_TensorProto = Inr t)"

lemma MLValueToTensorProto_code:
  "MLValueToTensorProto T b v raw t = Inl (OrtException m c) \<Longrightarrow> c \<noteq> ORT_OK \<and> c \<noteq> ORT_MODEL_LOADED"
  by (auto simp: MLValueToTensorProto_def emit_numeric_def raw_bytes_def Let_def rbind_Inl_iff ort_codes
      split: if_splits DataType.splits tensor_data.splits)

lemma catch_ort_status:
  "catch_ort r = Inr (Inl st) \<longleftrightarrow> (\<exists>m c. r = Inl (OrtException m c) \<and> st = GenerateProtobufStatus c m)"
  by (auto simp: catch_ort_def split: sum.splits exn.splits)

lemma catch_ort_value: "catch_ort r = Inr (Inr x) \<longleftrightarrow> r = Inr x"
  by (auto simp: catch_ort_def split: sum.splits exn.splits)

lemma build_response_ok:
  assumes "build_response T raw outs names acc = (Inr st, resp)" and "st_code st = OK_CODE"
    and "distinct (map fst acc)"
  shows "\<exists>r. resp = acc @ r \<and> list_all2 (converts T raw) outs r \<and> map fst r = take (length outs) names
     \<and> distinct (map fst resp) \<and> length outs \<le> length names"
  using assms
proof (induction T raw outs names acc rule: build_response.induct)
  case (2 T raw b v outs names acc)
  let ?m = "MLValueToTensorProto T b v raw empty_TensorProto"
  obtain t where t: "?m = Inr t"
  proof (cases ?m)
    case (Inl e)
    with 2 have "\<exists>m c. e = OrtException m c \<and> st = GenerateProtobufStatus c m"
      by (cases e) (auto simp: catch_ort_def)
    then obtain m c where "?m = Inl (OrtException m c)" "st = GenerateProtobufStatus c m" using Inl by blast
    with 2 MLValueToTensorProto_code GenerateProtobufStatus_OK_iff show ?thesis by metis
  qed
  then have ct: "catch_ort ?m = Inr (Inr t)" by (simp add: catch_ort_value)
  then obtain n ns where ns: "names = n # ns" and nf: "map_of acc n = None"
    using "2.prems"(1,2) by (auto split: list.splits if_splits)
  have rec: "build_response T raw outs ns (acc @ [(n, t)]) = (Inr st, resp)"
    using "2.prems"(1) ct ns nf by simp
  have "distinct (map fst (acc @ [(n, t)]))" using "2.prems"(3) nf by (auto simp: map_of_eq_None_iff)
  from "2.IH" [OF ct refl ns _ rec "2.prems"(2) this] nf obtain r where
    "resp = (acc @ [(n, t)]) @ r" "list_all2 (converts T raw) outs r" "map fst r = take (length outs) ns"
    "distinct (map fst resp)" "length outs \<le> length ns" by auto
  with t ns show ?case by (intro exI [of _ "(n, t) # r"]) (simp add: converts_def)
qed (simp add: Status_OK_def)

lemma SetNameMLValueMap_loop_status:
  assumes "SetNameMLValueMap_loop T inputs u names vals = (Inr (Inl st), u')"
  shows "st_code st \<noteq> OK_CODE"
  using assms
proof (induction T inputs u names vals rule: SetNameMLValueMap_loop.induct)
  case (2 T name t inputs u names vals)
  have "st_code st \<noteq> OK_CODE" if s: "SetMLValue T t = Inr (Inl st)" "st \<noteq> Status_OK"
  proof -
    obtain m c where "st = GenerateProtobufStatus c m"
    proof -
      obtain x where x: "catch_ort (GetSizeInBytesFromTensorProto T 0 t) = Inr x"
        "(case x of Inl status \<Rightarrow> Inr (Inl status)
          | Inr n \<Rightarrow> catch_ort (TensorProtoToMLValue T t (AllocNewBuffer n))) = Inr (Inl st)"
        using s(1) by (auto simp: SetMLValue_def rbind_Inr_iff)
      then show thesis by (cases x) (auto simp: catch_ort_status intro: that)
    qed
    with s(2) show ?thesis by (auto simp: GenerateProtobufStatus_def Let_def Status_OK_def split: if_splits)
  qed
  with 2 show ?case by (auto simp: Let_def split: sum.splits if_splits)
qed simp

text \<open>Conversely, when every conversion succeeds, so do the loops.\<close>

lemma SetMLValue_fresh:
  "GetSizeInBytesFromTensorProto T 0 t = Inr n \<Longrightarrow> TensorProtoToMLValue T t (fresh_buffer n) = Inr v \<Longrightarrow> SetMLValue T t = Inr (Inr v)"
  by (simp add: SetMLValue_def catch_ort_def AllocNewBuffer_def fresh_buffer_def)

lemma SetNameMLValueMap_loop_all:
  "list_all2 (\<lambda>(n, t) v. SetMLValue T t = Inr (Inr v)) inputs vs \<Longrightarrow>
     SetNameMLValueMap_loop T inputs u names vals
       = (Inr (Inr (names @ map fst inputs, vals @ vs)), u \<and> list_all (\<lambda>(n, t). tp_raw_data t \<noteq> None) inputs)"
proof (induction inputs vs arbitrary: u names vals rule: list_all2_induct)
  case (Cons x xs y ys)
  then show ?case by (cases x) simp
qed simp

lemma build_response_all:
  "list_all2 (\<lambda>(b, v) t. MLValueToTensorProto T b v u empty_TensorProto = Inr t) outs ts \<Longrightarrow> length names = length outs
     \<Longrightarrow> distinct (map fst acc @ names) \<Longrightarrow> build_response T u outs names acc = (Inr Status_OK, acc @ zip names ts)"
proof (induction outs ts arbitrary: names acc rule: list_all2_induct)
  case (Cons x xs y ys)
  obtain n ns where ns: "names = n # ns" using Cons.prems(1) by (cases names) auto
  have "map_of acc n = None" using Cons.prems(2) ns by (auto simp: map_of_eq_None_iff)
  with Cons ns show ?case by (cases x) (simp add: catch_ort_def)
qed simp

text \<open>
  C16: a prediction that reports success has run the session on the converted values of all inputs of the request, and its
  response holds one entry per output, under pairwise different names: the filter of the request, or
  the outputs of the model when it has none. Every entry is the converted output, as raw data exactly
  when all inputs were raw data.
\<close>

theorem predict_success:
  assumes P: "Predict O' session model_outputs request = (Inr st, response)" and st: "st_code st = OK_CODE"
    and ort: "\<And>m ins vs outs e c. ort_run O' m ins vs outs = Inl (OrtException e c) \<Longrightarrow>
      c \<noteq> ORT_OK \<and> c \<noteq> ORT_MODEL_LOADED"
  shows "\<exists>m input_values output_names outputs.
      session = Some m
    \<and> output_names = (if pr_output_filter request \<noteq> [] then pr_output_filter request else model_outputs)
    \<and> list_all2 (\<lambda>(n, t) v. SetMLValue (o_types O') t = Inr (Inr v)) (pr_inputs request) input_values
    \<and> ort_run O' m (map fst (pr_inputs request)) input_values output_names = Inr outputs
    \<and> list_all2 (converts (o_types O') (list_all (\<lambda>(n, t). tp_raw_data t \<noteq> None) (pr_inputs request))) outputs response
    \<and> map fst response = take (length outputs) output_names \<and> distinct (map fst response)"
proof -
  let ?names = "if pr_output_filter request \<noteq> [] then pr_output_filter request else model_outputs"
  obtain x u where s: "SetNameMLValueMap O' request True = (x, u)" by (metis surj_pair)
  obtain ins vs where x: "x = Inr (Inr (ins, vs))"
  proof -
    have "\<nexists>e. x = Inl e" using P s by (auto simp: Predict_def)
    moreover have "\<nexists>c. x = Inr (Inl c)"
      using P s st SetNameMLValueMap_loop_status
      by (auto simp: Predict_def SetNameMLValueMap_def split: if_splits)
    ultimately show thesis using that by (cases x) (auto, metis sum.exhaust surj_pair)
  qed
  have loop: "SetNameMLValueMap_loop (o_types O') (pr_inputs request) True [] [] = (Inr (Inr (ins, vs)), u)"
    using s x by (auto simp: SetNameMLValueMap_def split: if_splits)
  note l = SetNameMLValueMap_loop_raw [OF loop]
  have run: "(case catch_ort (Run O' session ins vs ?names) of
               Inl e \<Rightarrow> (Inl e, [])
             | Inr (Inl status) \<Rightarrow> (Inr status, [])
             | Inr (Inr outputs) \<Rightarrow> build_response (o_types O') u outputs ?names []) = (Inr st, response)"
    using P s x by (simp add: Predict_def Let_def)
  obtain outs where o: "Run O' session ins vs ?names = Inr outs"
  proof (cases "Run O' session ins vs ?names")
    case (Inl e)
    with run have "\<exists>m c. e = OrtException m c \<and> st = GenerateProtobufStatus c m"
      by (cases e) (auto simp: catch_ort_def)
    then obtain m c where e: "e = OrtException m c" "st = GenerateProtobufStatus c m" by blast
    obtain md where "session = Some md" "ort_run O' md ins vs ?names = Inl (OrtException m c)"
      using Inl e(1) by (auto simp: Run_def split: option.splits)
    with ort e(2) st GenerateProtobufStatus_OK_iff show ?thesis by metis
  qed
  then obtain m where m: "session = Some m" "ort_run O' m ins vs ?names = Inr outs"
    by (auto simp: Run_def split: option.splits)
  have "build_response (o_types O') u outs ?names [] = (Inr st, response)"
    using run o by (simp add: catch_ort_def)
  from build_response_ok [OF this st] have "list_all2 (converts (o_types O') u) outs response"
    "map fst response = take (length outs) ?names" "distinct (map fst response)" by auto
  with m l SetNameMLValueMap_loop_values [OF loop] show ?thesis
    by (intro exI [of _ m] exI [of _ vs] exI [of _ ?names] exI [of _ outs]) simp
qed

text \<open>A model that returns its inputs under the requested names.\<close>

definition echo_ort :: "unit ort_lib" where
  "echo_ort = \<lparr>o_types = sample_types, CreateCpuMemoryInfo = True,
     ort_run = (\<lambda>m ins vs outs. Inr (map (Pair True) vs)), ort_session = (\<lambda>b. Inr ()),
     ort_output_names = (\<lambda>m. [''y''])\<rparr>"

definition echo_request :: PredictRequest where
  "echo_request = \<lparr>pr_inputs = [(''x'', empty_TensorProto\<lparr>tp_dims := [2], tp_data_type := UINT8, tp_raw_data := Some [7, 8]\<rparr>)],
     pr_output_filter = []\<rparr>"

lemmas echo_evaluation = SetNameMLValueMap_def echo_ort_def echo_request_def SetMLValue_def catch_ort_def
  GetSizeInBytesFromTensorProto_def empty_TensorProto_def sample_types_def SIZE_MAX_def TensorProtoToMLValue_def
  GetTensorElementType_def int64_mult_def AllocNewBuffer_def unpack_into_def UnpackTensor_num_def
  UnpackTensorWithRawData_def write_buffer_def overwrite_def

lemma echo_inputs: "\<exists>v. SetNameMLValueMap echo_ort echo_request True = (Inr (Inr ([''x''], [v])), True)"
  by (simp add: echo_evaluation)

lemma echo_predict:
  "\<exists>st t. Predict echo_ort (Some ()) [''y''] echo_request = (Inr st, [(''y'', t)]) \<and> st_code st = OK_CODE"
  by (simp add: echo_evaluation Predict_def Run_def MLValueToTensorProto_def emit_numeric_def
      raw_bytes_def elem_count_def GetTensorShapeFromTensorProto_def Status_OK_def)

theorem predict_success_witness:
  "\<exists>st response. Predict echo_ort (Some ()) [''y''] echo_request = (Inr st, response)
     \<and> st_code st = OK_CODE \<and> map fst response = [''y''] \<and> distinct (map fst response)"
proof -
  obtain st t where p: "Predict echo_ort (Some ()) [''y''] echo_request = (Inr st, [(''y'', t)])" "st_code st = OK_CODE"
    using echo_predict by blast
  have "distinct (map fst [(''y'', t)])"
    using predict_success [OF p] by (simp add: echo_ort_def)
  with p show ?thesis by auto
qed

end
