(* ===== verification/Crypto.thy ===== *)
theory Crypto
  imports Text_Util
begin

text \<open>
  The cryptographic layer of confmsg (\<^verbatim>\<open>external/confmsg/confmsg/shared/crypto.h\<close> and
  \<^verbatim>\<open>crypto.cc\<close>): size checks, key derivation, IV increment, AEAD, signatures, hashes and
  the signer identity of a PEM key. The primitives are those of EverCrypt, HACL* and
  mbedTLS, which are not part of the repository: they are the fields of a record
  \<open>crypto_lib\<close> that every definition takes as an argument. What the code relies on is
  stated separately, as named predicates over that record (\<open>crypto_lengths\<close>,
  \<open>ecdh_commutes\<close>, \<open>aead_correct\<close>, \<open>signature_correct\<close>).
\<close>

unbundle bit_operations_syntax

section \<open>Sizes\<close>

definition KEY_SIZE :: nat where "KEY_SIZE = 32"
definition SYMMETRIC_KEY_SIZE :: nat where "SYMMETRIC_KEY_SIZE = 32"
definition TAG_SIZE :: nat where "TAG_SIZE = 16"
definition IV_SIZE :: nat where "IV_SIZE = 12"
definition SIGNATURE_SIZE :: nat where "SIGNATURE_SIZE = 64"
definition NONCE_SIZE :: nat where "NONCE_SIZE = 16"
definition SHA256_SIZE :: nat where "SHA256_SIZE = 32"

lemmas size_defs = KEY_SIZE_def SYMMETRIC_KEY_SIZE_def TAG_SIZE_def IV_SIZE_def
  SIGNATURE_SIZE_def NONCE_SIZE_def SHA256_SIZE_def

section \<open>The primitives\<close>

record pk_context =
  pk_is_rsa :: bool
  pk_rsa_len :: nat
  pk_rsa_export_raw :: "int + bytes"

record crypto_lib =
  EverCrypt_Curve25519_secret_to_public :: "bytes \<Rightarrow> bytes"
  Hacl_Ed25519_secret_to_public :: "bytes \<Rightarrow> bytes"
  EverCrypt_Curve25519_ecdh :: "bytes \<Rightarrow> bytes \<Rightarrow> bytes"
  EverCrypt_HKDF_expand_sha2_256 :: "bytes \<Rightarrow> bytes \<Rightarrow> nat \<Rightarrow> bytes"
  EverCrypt_AEAD_create_in :: "bytes \<Rightarrow> nat"
  EverCrypt_AEAD_encrypt :: "bytes \<Rightarrow> bytes \<Rightarrow> bytes \<Rightarrow> bytes \<Rightarrow> nat \<times> bytes \<times> bytes"
  EverCrypt_AEAD_decrypt :: "bytes \<Rightarrow> bytes \<Rightarrow> bytes \<Rightarrow> bytes \<Rightarrow> bytes \<Rightarrow> nat \<times> bytes"
  Hacl_Ed25519_sign :: "bytes \<Rightarrow> bytes \<Rightarrow> bytes"
  Hacl_Ed25519_verify :: "bytes \<Rightarrow> bytes \<Rightarrow> bytes \<Rightarrow> bool"
  EverCrypt_Hash_hash_256 :: "bytes \<Rightarrow> bytes"
  EverCrypt_Hash_Incremental :: "bytes list \<Rightarrow> bytes"
  mbedtls_pk_parse_public_key :: "string \<Rightarrow> int + pk_context"
  mbedtls_strerror :: "int \<Rightarrow> string"

definition EverCrypt_Error_Success :: nat where "EverCrypt_Error_Success = 0"

text \<open>A primitive writes its result through a pointer into a vector of the caller.\<close>

definition write_to :: "bytes \<Rightarrow> bytes \<Rightarrow> exn + bytes" where
  "write_to src dst = opt_or (Fault ''write past the end of a buffer'') (overwrite src dst)"

text \<open>A primitive that reads a key through a pointer reads \<^const>\<open>KEY_SIZE\<close> bytes.\<close>

definition read_key :: "bytes \<Rightarrow> exn + bytes" where
  "read_key k =
     (if length k < KEY_SIZE then Inl (Fault ''read past the end of a buffer'')
      else Inr (take KEY_SIZE k))"

definition bytes_of_string :: "string \<Rightarrow> bytes" where
  "bytes_of_string s = map of_char s"

section \<open>Operations\<close>

definition MakePublicKeyCurve25519 :: "crypto_lib \<Rightarrow> bytes \<Rightarrow> bytes \<Rightarrow> exn + bytes" where
  "MakePublicKeyCurve25519 C secret_key public_key =
     rbind (read_key secret_key) (\<lambda>sk.
       write_to (EverCrypt_Curve25519_secret_to_public C sk)
         (vec_resize (length secret_key) public_key))"

definition MakePublicKeysCurve25519 ::
    "crypto_lib \<Rightarrow> bytes \<Rightarrow> bytes \<Rightarrow> bytes \<Rightarrow> exn + bytes \<times> bytes" where
  "MakePublicKeysCurve25519 C secret_key public_key public_signing_key =
     rbind (read_key secret_key) (\<lambda>sk.
     rbind (write_to (EverCrypt_Curve25519_secret_to_public C sk)
              (vec_resize (length secret_key) public_key)) (\<lambda>pk.
     rbind (write_to (Hacl_Ed25519_secret_to_public C sk)
              (vec_resize (length secret_key) public_signing_key)) (\<lambda>psk.
       Inr (pk, psk))))"

definition ComputeSharedSecretCurve25519 ::
    "crypto_lib \<Rightarrow> bytes \<Rightarrow> bytes \<Rightarrow> bytes \<Rightarrow> exn + bytes" where
  "ComputeSharedSecretCurve25519 C our_secret their_public shared_secret =
     (if length our_secret \<noteq> KEY_SIZE \<or> length their_public \<noteq> KEY_SIZE
      then Inl (CryptoError ''Invalid key sizes'')
      else write_to (EverCrypt_Curve25519_ecdh C our_secret their_public)
             (vec_resize KEY_SIZE shared_secret))"

definition DeriveSymmetricKey ::
    "crypto_lib \<Rightarrow> bytes \<Rightarrow> bool \<Rightarrow> bytes \<Rightarrow> bytes \<Rightarrow> exn + bytes \<times> bytes" where
  "DeriveSymmetricKey C shared_secret server symmetric_key static_iv =
     (if length shared_secret \<noteq> KEY_SIZE
      then Inl (CryptoError ''Invalid shared secret (wrong size)'')
      else
        let label_key = (if server then ''server key'' else ''client key'');
            label_iv = (if server then ''server iv'' else ''client iv'')
        in rbind (write_to
                (EverCrypt_HKDF_expand_sha2_256 C shared_secret (bytes_of_string label_key)
                   SYMMETRIC_KEY_SIZE)
                (vec_resize SYMMETRIC_KEY_SIZE symmetric_key)) (\<lambda>key.
           rbind (write_to
                (EverCrypt_HKDF_expand_sha2_256 C shared_secret (bytes_of_string label_iv) IV_SIZE)
                (vec_resize IV_SIZE static_iv)) (\<lambda>iv.
             Inr (key, iv))))"

text \<open>The loop of \<^verbatim>\<open>IncrementIV\<close>; its argument is the loop variable \<^verbatim>\<open>i\<close>, counting down.\<close>

fun IncrementIV_loop :: "nat \<Rightarrow> bytes \<Rightarrow> bytes" where
  "IncrementIV_loop 0 iv = iv"
| "IncrementIV_loop (Suc i) iv =
     (let iv' = iv[i := iv ! i + 1]
      in if iv' ! i \<noteq> 0 then iv' else IncrementIV_loop i iv')"

definition IncrementIV :: "bytes \<Rightarrow> exn + bytes" where
  "IncrementIV iv =
     (if length iv \<noteq> IV_SIZE then Inl (CryptoError ''Invalid IV'')
      else Inr (IncrementIV_loop IV_SIZE iv))"

definition Encrypt ::
    "crypto_lib \<Rightarrow> bytes \<Rightarrow> bytes \<Rightarrow> bytes \<Rightarrow> bytes \<Rightarrow> bytes \<Rightarrow> bytes \<Rightarrow> exn + bytes \<times> bytes" where
  "Encrypt C key iv plain additional_data cipher tag =
     (if length key \<noteq> SYMMETRIC_KEY_SIZE
      then Inl (CryptoError (''Invalid AEAD key size: '' @ to_string (int (length key))))
      else if length iv \<noteq> IV_SIZE
      then Inl (CryptoError (''Invalid AEAD IV size: '' @ to_string (int (length iv))))
      else if EverCrypt_AEAD_create_in C key \<noteq> EverCrypt_Error_Success
      then Inl (CryptoError ''AEAD context creation failed'')
      else (case EverCrypt_AEAD_encrypt C key iv additional_data plain of (status, c, t) \<Rightarrow>
        rbind (write_to c (vec_resize (length plain) cipher)) (\<lambda>cipher'.
        rbind (write_to t (vec_resize TAG_SIZE tag)) (\<lambda>tag'.
          if status \<noteq> EverCrypt_Error_Success
          then Inl (CryptoError (''encryption failed [code='' @ to_string (int status) @ '']''))
          else Inr (cipher', tag')))))"

definition Decrypt ::
    "crypto_lib \<Rightarrow> bytes \<Rightarrow> bytes \<Rightarrow> bytes \<Rightarrow> bytes \<Rightarrow> bytes \<Rightarrow> bytes \<Rightarrow> exn + bytes" where
  "Decrypt C key iv tag cipher additional_data plain =
     (if length key \<noteq> SYMMETRIC_KEY_SIZE
      then Inl (CryptoError (''Invalid AEAD key size: '' @ to_string (int (length key))))
      else if length iv \<noteq> IV_SIZE
      then Inl (CryptoError (''Invalid AEAD IV size: '' @ to_string (int (length iv))))
      else if length tag \<noteq> TAG_SIZE
      then Inl (CryptoError (''Invalid AEAD tag size: '' @ to_string (int (length tag))))
      else if EverCrypt_AEAD_create_in C key \<noteq> EverCrypt_Error_Success
      then Inl (CryptoError ''AEAD context creation failed'')
      else (case EverCrypt_AEAD_decrypt C key iv additional_data cipher tag of (status, p) \<Rightarrow>
        rbind (write_to p (vec_resize (length cipher) plain)) (\<lambda>plain'.
          if status \<noteq> EverCrypt_Error_Success
          then Inl (CryptoError (''decryption failed [code='' @ to_string (int status) @ '']''))
          else Inr plain')))"

definition SignCurve25519 :: "crypto_lib \<Rightarrow> bytes \<Rightarrow> bytes \<Rightarrow> bytes \<Rightarrow> exn + bytes" where
  "SignCurve25519 C msg key signature =
     (if length key \<noteq> KEY_SIZE then Inl (CryptoError ''Invalid key size'')
      else write_to (Hacl_Ed25519_sign C key msg) (vec_resize SIGNATURE_SIZE signature))"

definition VerifyCurve25519 :: "crypto_lib \<Rightarrow> bytes \<Rightarrow> bytes \<Rightarrow> bytes \<Rightarrow> exn + bool" where
  "VerifyCurve25519 C msg public_key signature =
     (if length public_key \<noteq> KEY_SIZE then Inl (CryptoError ''Invalid public key size'')
      else if length signature \<noteq> SIGNATURE_SIZE then Inl (CryptoError ''Invalid signature size'')
      else Inr (Hacl_Ed25519_verify C public_key msg signature))"

definition SHA256 :: "crypto_lib \<Rightarrow> bytes \<Rightarrow> bytes \<Rightarrow> exn + bytes" where
  "SHA256 C data hash = write_to (EverCrypt_Hash_hash_256 C data) (vec_resize SHA256_SIZE hash)"

definition SHA256_list :: "crypto_lib \<Rightarrow> bytes list \<Rightarrow> bytes \<Rightarrow> exn + bytes" where
  "SHA256_list C data hash =
     write_to (EverCrypt_Hash_Incremental C data) (vec_resize SHA256_SIZE hash)"

definition PEM2MRSigner :: "crypto_lib \<Rightarrow> string \<Rightarrow> bytes \<Rightarrow> exn + bytes" where
  "PEM2MRSigner C public_key_pem mrsigner =
     (case mbedtls_pk_parse_public_key C (public_key_pem @ [char_of (0 :: nat)]) of
        Inl code \<Rightarrow> Inl (CryptoError (''mbedtls_pk_parse_public_key failed: '' @ mbedtls_strerror C code))
      | Inr ctx \<Rightarrow>
          if \<not> pk_is_rsa ctx then Inl (CryptoError ''mbedtls_pk_get_type had incorrect type'')
          else
            (case pk_rsa_export_raw ctx of
               Inl code \<Rightarrow> Inl (CryptoError (''mbedtls_rsa_export failed: '' @ mbedtls_strerror C code))
             | Inr n \<Rightarrow>
                 rbind (write_to n (replicate (pk_rsa_len ctx) 0)) (\<lambda>modulus.
                   SHA256 C (rev modulus) mrsigner)))"

section \<open>What the code relies on\<close>

definition crypto_lengths :: "crypto_lib \<Rightarrow> bool" where
  "crypto_lengths C \<longleftrightarrow>
     (\<forall>k. length (EverCrypt_Curve25519_secret_to_public C k) = KEY_SIZE)
   \<and> (\<forall>k. length (Hacl_Ed25519_secret_to_public C k) = KEY_SIZE)
   \<and> (\<forall>a b. length (EverCrypt_Curve25519_ecdh C a b) = KEY_SIZE)
   \<and> (\<forall>p i n. length (EverCrypt_HKDF_expand_sha2_256 C p i n) = n)
   \<and> (\<forall>k m. length (Hacl_Ed25519_sign C k m) = SIGNATURE_SIZE)
   \<and> (\<forall>d. length (EverCrypt_Hash_hash_256 C d) = SHA256_SIZE)
   \<and> (\<forall>d. length (EverCrypt_Hash_Incremental C d) = SHA256_SIZE)"

definition ecdh_commutes :: "crypto_lib \<Rightarrow> bool" where
  "ecdh_commutes C \<longleftrightarrow> (\<forall>a b. length a = KEY_SIZE \<longrightarrow> length b = KEY_SIZE \<longrightarrow>
     EverCrypt_Curve25519_ecdh C a (EverCrypt_Curve25519_secret_to_public C b) =
     EverCrypt_Curve25519_ecdh C b (EverCrypt_Curve25519_secret_to_public C a))"

definition aead_correct :: "crypto_lib \<Rightarrow> bool" where
  "aead_correct C \<longleftrightarrow> (\<forall>k iv ad p. length k = SYMMETRIC_KEY_SIZE \<longrightarrow> length iv = IV_SIZE \<longrightarrow>
     EverCrypt_AEAD_create_in C k = EverCrypt_Error_Success \<and>
     (\<exists>c t. EverCrypt_AEAD_encrypt C k iv ad p = (EverCrypt_Error_Success, c, t)
        \<and> length c = length p \<and> length t = TAG_SIZE
        \<and> EverCrypt_AEAD_decrypt C k iv ad c t = (EverCrypt_Error_Success, p)))"

definition signature_correct :: "crypto_lib \<Rightarrow> bool" where
  "signature_correct C \<longleftrightarrow> (\<forall>k m. length k = KEY_SIZE \<longrightarrow>
     Hacl_Ed25519_verify C (Hacl_Ed25519_secret_to_public C k) m (Hacl_Ed25519_sign C k m))"

definition crypto_correct :: "crypto_lib \<Rightarrow> bool" where
  "crypto_correct C \<longleftrightarrow>
     crypto_lengths C \<and> ecdh_commutes C \<and> aead_correct C \<and> signature_correct C"

section \<open>Behaviour of the operations\<close>

lemma write_to_exact [simp, comp_simps]:
  "length src = n \<Longrightarrow> write_to src (vec_resize n dst) = Inr src"
  by (simp add: write_to_def)

lemma write_to_length: "write_to src dst = Inr v \<Longrightarrow> length v = length dst"
  by (auto simp: write_to_def opt_or_Inr_iff dest: overwrite_Some_length)

lemma read_key_exact [simp]: "length k = KEY_SIZE \<Longrightarrow> read_key k = Inr k"
  by (simp add: read_key_def)

lemma MakePublicKeyCurve25519_ok:
  "crypto_lengths C \<Longrightarrow> length sk = KEY_SIZE \<Longrightarrow>
     MakePublicKeyCurve25519 C sk pk = Inr (EverCrypt_Curve25519_secret_to_public C sk)"
  by (simp add: MakePublicKeyCurve25519_def crypto_lengths_def)

lemma MakePublicKeysCurve25519_ok:
  "crypto_lengths C \<Longrightarrow> length sk = KEY_SIZE \<Longrightarrow>
     MakePublicKeysCurve25519 C sk pk psk =
       Inr (EverCrypt_Curve25519_secret_to_public C sk, Hacl_Ed25519_secret_to_public C sk)"
  by (simp add: MakePublicKeysCurve25519_def crypto_lengths_def)

lemma ComputeSharedSecretCurve25519_ok:
  "crypto_lengths C \<Longrightarrow> length sk = KEY_SIZE \<Longrightarrow> length pk = KEY_SIZE \<Longrightarrow>
     ComputeSharedSecretCurve25519 C sk pk s = Inr (EverCrypt_Curve25519_ecdh C sk pk)"
  by (simp add: ComputeSharedSecretCurve25519_def crypto_lengths_def)

text \<open>The key and the IV of one direction, as both ends derive them.\<close>

definition derived_key :: "crypto_lib \<Rightarrow> bool \<Rightarrow> bytes \<Rightarrow> bytes" where
  "derived_key C server secret = EverCrypt_HKDF_expand_sha2_256 C secret
     (bytes_of_string (if server then ''server key'' else ''client key'')) SYMMETRIC_KEY_SIZE"

definition derived_iv :: "crypto_lib \<Rightarrow> bool \<Rightarrow> bytes \<Rightarrow> bytes" where
  "derived_iv C server secret = EverCrypt_HKDF_expand_sha2_256 C secret
     (bytes_of_string (if server then ''server iv'' else ''client iv'')) IV_SIZE"

lemma derived_lengths [simp]:
  "crypto_lengths C \<Longrightarrow> length (derived_key C b s) = SYMMETRIC_KEY_SIZE"
  "crypto_lengths C \<Longrightarrow> length (derived_iv C b s) = IV_SIZE"
  by (simp_all add: derived_key_def derived_iv_def crypto_lengths_def)

lemma DeriveSymmetricKey_ok:
  "crypto_lengths C \<Longrightarrow> length secret = KEY_SIZE \<Longrightarrow>
     DeriveSymmetricKey C secret server k iv =
       Inr (derived_key C server secret, derived_iv C server secret)"
  by (simp add: DeriveSymmetricKey_def crypto_lengths_def derived_key_def derived_iv_def Let_def)

definition aead_cipher :: "crypto_lib \<Rightarrow> bytes \<Rightarrow> bytes \<Rightarrow> bytes \<Rightarrow> bytes \<Rightarrow> bytes" where
  "aead_cipher C k iv ad p = fst (snd (EverCrypt_AEAD_encrypt C k iv ad p))"

definition aead_tag :: "crypto_lib \<Rightarrow> bytes \<Rightarrow> bytes \<Rightarrow> bytes \<Rightarrow> bytes \<Rightarrow> bytes" where
  "aead_tag C k iv ad p = snd (snd (EverCrypt_AEAD_encrypt C k iv ad p))"

lemma aead_correctD:
  assumes "aead_correct C" and "length k = SYMMETRIC_KEY_SIZE" and "length iv = IV_SIZE"
  shows "EverCrypt_AEAD_create_in C k = EverCrypt_Error_Success"
    and "EverCrypt_AEAD_encrypt C k iv ad p =
      (EverCrypt_Error_Success, aead_cipher C k iv ad p, aead_tag C k iv ad p)"
    and "length (aead_cipher C k iv ad p) = length p"
    and "length (aead_tag C k iv ad p) = TAG_SIZE"
    and "EverCrypt_AEAD_decrypt C k iv ad (aead_cipher C k iv ad p) (aead_tag C k iv ad p)
      = (EverCrypt_Error_Success, p)"
  using assms unfolding aead_correct_def aead_cipher_def aead_tag_def
  by (metis fst_conv snd_conv)+

lemma Encrypt_ok:
  assumes "aead_correct C" and "length k = SYMMETRIC_KEY_SIZE" and "length iv = IV_SIZE"
  shows "Encrypt C k iv p ad c t = Inr (aead_cipher C k iv ad p, aead_tag C k iv ad p)"
  using assms by (simp add: Encrypt_def aead_correctD)

lemma Decrypt_ok:
  assumes "aead_correct C" and "length k = SYMMETRIC_KEY_SIZE" and "length iv = IV_SIZE"
  shows "Decrypt C k iv (aead_tag C k iv ad p) (aead_cipher C k iv ad p) ad plain = Inr p"
  using assms by (simp add: Decrypt_def aead_correctD)

lemma Decrypt_key_size: "Decrypt C k iv t c ad p = Inr v \<Longrightarrow> length k = SYMMETRIC_KEY_SIZE"
  by (auto simp: Decrypt_def split: if_splits)

lemma Decrypt_length: "Decrypt C k iv t c ad p = Inr v \<Longrightarrow> length v = length c"
  by (auto simp: Decrypt_def rbind_Inr_iff split: if_splits prod.splits dest: write_to_length)

lemma SignCurve25519_ok:
  "crypto_lengths C \<Longrightarrow> length key = KEY_SIZE \<Longrightarrow>
     SignCurve25519 C msg key s = Inr (Hacl_Ed25519_sign C key msg)"
  by (simp add: SignCurve25519_def crypto_lengths_def)

lemma VerifyCurve25519_ok:
  "crypto_lengths C \<Longrightarrow> signature_correct C \<Longrightarrow> length key = KEY_SIZE \<Longrightarrow>
     VerifyCurve25519 C msg (Hacl_Ed25519_secret_to_public C key) (Hacl_Ed25519_sign C key msg) = Inr True"
  by (simp add: VerifyCurve25519_def crypto_lengths_def signature_correct_def)

lemma SHA256_ok: "crypto_lengths C \<Longrightarrow> SHA256 C d h = Inr (EverCrypt_Hash_hash_256 C d)"
  by (simp add: SHA256_def crypto_lengths_def)

lemma SHA256_list_ok:
  "crypto_lengths C \<Longrightarrow> SHA256_list C d h = Inr (EverCrypt_Hash_Incremental C d)"
  by (simp add: SHA256_list_def crypto_lengths_def)

section \<open>IncrementIV is addition of one modulo 2 to the 96\<close>

definition be_value :: "bytes \<Rightarrow> nat" where
  "be_value bs = foldl (\<lambda>a b. a * 256 + unat b) 0 bs"

lemma be_value_foldl: "foldl (\<lambda>a b. a * 256 + unat (b :: byte)) x bs = x * 256 ^ length bs + be_value bs"
proof (induction bs arbitrary: x)
  case Nil
  then show ?case by (simp add: be_value_def)
next
  case (Cons b bs)
  from Cons [of "x * 256 + unat b"] Cons [of "unat b"]
  show ?case by (simp add: be_value_def algebra_simps)
qed

lemma be_value_append: "be_value (xs @ ys) = be_value xs * 256 ^ length ys + be_value ys"
proof -
  have "be_value (xs @ ys) = foldl (\<lambda>a b. a * 256 + unat b) (be_value xs) ys"
    by (simp add: be_value_def)
  then show ?thesis by (simp only: be_value_foldl)
qed

lemma be_value_Nil [simp]: "be_value [] = 0"
  by (simp add: be_value_def)

lemma be_value_single [simp]: "be_value [b] = unat b"
  by (simp add: be_value_def)

lemma be_value_Cons: "be_value (b # bs) = unat b * 256 ^ length bs + be_value bs"
  using be_value_append [of "[b]" bs] by simp

lemma be_value_bound: "be_value bs < 256 ^ length bs"
proof (induction bs rule: rev_induct)
  case (snoc b bs)
  have "be_value bs * 256 + unat b < (be_value bs + 1) * 256"
    by simp
  also have "\<dots> \<le> 256 ^ length bs * 256"
    using snoc by (intro mult_right_mono) auto
  finally show ?case by (simp add: be_value_append)
qed simp

lemma be_value_inj: "length xs = length ys \<Longrightarrow> be_value xs = be_value ys \<Longrightarrow> xs = ys"
proof (induction xs arbitrary: ys rule: rev_induct)
  case (snoc x xs)
  then obtain y ys' where ys: "ys = ys' @ [y]" "length ys' = length xs"
    by (cases ys rule: rev_cases) auto
  with snoc.prems have e: "be_value xs * 256 + unat x = be_value ys' * 256 + unat y"
    by (simp add: be_value_append)
  have "(be_value xs * 256 + unat x) mod 256 = unat x" "(be_value ys' * 256 + unat y) mod 256 = unat y"
    by simp_all
  with e have "unat x = unat y" by simp
  moreover from this e have "be_value xs = be_value ys'" by simp
  ultimately show ?case using snoc.IH [of ys'] ys by (simp add: unsigned_word_eqI)
qed simp

lemma byte_Suc_cases:
  fixes b :: byte
  shows "b + 1 = 0 \<Longrightarrow> unat b = 255" and "b + 1 \<noteq> 0 \<Longrightarrow> unat (b + 1) = unat b + 1"
proof -
  have e: "unat (b + 1) = (unat b + 1) mod 256"
    by (simp add: unat_word_ariths)
  have lt: "unat b < 256" by simp
  show "b + 1 = 0 \<Longrightarrow> unat b = 255"
    using e lt by (cases "unat b = 255") auto
  show "b + 1 \<noteq> 0 \<Longrightarrow> unat (b + 1) = unat b + 1"
  proof -
    assume "b + 1 \<noteq> 0"
    then have "unat (b + 1) \<noteq> 0" by (simp add: unsigned_eq_0_iff)
    with e lt show ?thesis by (cases "unat b = 255") auto
  qed
qed

lemma IncrementIV_loop_length [simp]: "length (IncrementIV_loop i iv) = length iv"
  by (induction i iv rule: IncrementIV_loop.induct) (auto simp: Let_def)

lemma IncrementIV_loop_split:
  "i = length pre \<Longrightarrow>
     be_value (IncrementIV_loop i (pre @ post)) =
       (be_value pre + 1) mod 256 ^ i * 256 ^ length post + be_value post"
proof (induction i arbitrary: pre post)
  case 0
  then show ?case by simp
next
  case (Suc i)
  then obtain pre' b where pre: "pre = pre' @ [b]" "length pre' = i"
    by (cases pre rule: rev_cases) auto
  have upd: "(pre @ post)[i := (pre @ post) ! i + 1] = pre' @ (b + 1) # post"
    using pre by (simp add: nth_append list_update_append)
  have bound: "be_value pre' < 256 ^ i"
    using be_value_bound [of pre'] pre by simp
  show ?case
  proof (cases "b + 1 = 0")
    case False
    have "be_value pre' * 256 + unat b + 1 < 256 ^ Suc i"
    proof -
      have "unat b + 1 < 256" using byte_Suc_cases(2) [OF False] unat_byte_less [of "b + 1"] by simp
      then have "be_value pre' * 256 + unat b + 1 < (be_value pre' + 1) * 256" by simp
      also have "\<dots> \<le> 256 ^ i * 256" using bound by (intro mult_right_mono) auto
      finally show ?thesis by simp
    qed
    then have "(be_value pre + 1) mod 256 ^ Suc i = be_value pre' * 256 + unat (b + 1)"
      using byte_Suc_cases(2) [OF False] pre by (simp add: be_value_append)
    moreover have "IncrementIV_loop (Suc i) (pre @ post) = pre' @ (b + 1) # post"
      using False upd pre by (simp add: Let_def nth_append)
    ultimately show ?thesis
      by (simp add: be_value_append be_value_Cons algebra_simps)
  next
    case True
    then have b: "unat b = 255" by (rule byte_Suc_cases)
    have "(be_value pre + 1) mod 256 ^ Suc i = ((be_value pre' + 1) * 256) mod (256 ^ i * 256)"
      using pre b by (simp add: be_value_append algebra_simps)
    also have "\<dots> = (be_value pre' + 1) mod 256 ^ i * 256"
      by (rule mult_mod_left [symmetric])
    finally have m: "(be_value pre + 1) mod 256 ^ Suc i = (be_value pre' + 1) mod 256 ^ i * 256" .
    have "IncrementIV_loop (Suc i) (pre @ post) = IncrementIV_loop i (pre' @ (0 # post))"
      using True upd pre by (simp add: Let_def nth_append)
    moreover have "be_value (0 # post) = be_value post"
      by (simp add: be_value_Cons)
    ultimately show ?thesis
      using Suc.IH [of pre' "0 # post"] pre m by (simp add: algebra_simps)
  qed
qed

lemma IncrementIV_value:
  "length iv = IV_SIZE \<Longrightarrow> IncrementIV iv = Inr iv' \<Longrightarrow>
     length iv' = IV_SIZE \<and> be_value iv' = (be_value iv + 1) mod 2 ^ 96"
  using IncrementIV_loop_split [of IV_SIZE iv "[]"]
  by (auto simp: IncrementIV_def IV_SIZE_def)

end
