(* ===== verification/Key_Provider.thy ===== *)
theory Key_Provider
  imports Crypto
begin

text \<open>
  The key providers of confmsg (\<^verbatim>\<open>external/confmsg/confmsg/shared/keyprovider.h\<close>): the base
  class, which keeps the current and the previous key with their versions, and the
  providers \<^verbatim>\<open>StaticKeyProvider\<close>, \<^verbatim>\<open>RandomKeyProvider\<close> and \<^verbatim>\<open>RandomEd25519KeyProvider\<close>.
  The pure virtual \<^verbatim>\<open>DoRefreshKey\<close> is a parameter of the base class's operations; its
  contract is the locale \<open>key_provider_contract\<close>, interpreted on every provider.
  The members of a derived class are the field \<open>kp_derived\<close>.

  The random engine and the clock of the process are part of a \<open>world\<close>: the sequence of
  draws and of clock readings, each with the position of the next one.
\<close>

section \<open>Randomness, time, wiping (shared/util.cc)\<close>

record world =
  w_rng :: "nat \<Rightarrow> int"
  w_rng_pos :: nat
  w_clock :: "nat \<Rightarrow> int"
  w_clock_pos :: nat

definition Randomize :: "bytes \<Rightarrow> nat \<Rightarrow> 'w world_scheme \<Rightarrow> bytes \<times> 'w world_scheme" where
  "Randomize vec sz w =
     (foldl (\<lambda>v i. v[i := word_of_int (w_rng w (w_rng_pos w + i))]) (vec_resize sz vec) [0..<sz],
      w\<lparr>w_rng_pos := w_rng_pos w + sz\<rparr>)"

definition Wipe :: "bytes \<Rightarrow> bytes" where
  "Wipe vec = take 0 (replicate (length vec) 0)"

definition system_clock_now :: "'w world_scheme \<Rightarrow> int \<times> 'w world_scheme" where
  "system_clock_now w = (w_clock w (w_clock_pos w), w\<lparr>w_clock_pos := w_clock_pos w + 1\<rparr>)"

section \<open>The base class\<close>

datatype KeyType = Generic | Curve25519

record 'c key_provider =
  previous_key :: bytes
  current_key :: bytes
  previous_key_version :: u32
  current_key_version :: u32
  initialized :: bool
  key_type :: KeyType
  last_refreshed :: int
  kp_derived :: 'c

type_synonym ('c, 'w, 'a) kp_comp = "('c key_provider \<times> 'w world_scheme, exn, 'a) comp"

text \<open>
  The constructor leaves the two version members uninitialised: \<open>pv\<close> and \<open>cv\<close> are
  whatever the memory held. A default time point is the epoch.
\<close>

definition KeyProvider_new :: "u32 \<Rightarrow> u32 \<Rightarrow> nat \<Rightarrow> KeyType \<Rightarrow> 'c \<Rightarrow> 'c key_provider" where
  "KeyProvider_new pv cv key_size kt d =
     \<lparr>previous_key = vec_resize key_size [], current_key = vec_resize key_size [],
      previous_key_version = pv, current_key_version = cv,
      initialized = False, key_type = kt, last_refreshed = 0, kp_derived = d\<rparr>"

definition KeyProvider_RefreshKey :: "(bool \<Rightarrow> ('c, 'w, bool) kp_comp) \<Rightarrow> bool \<Rightarrow> ('c, 'w, bool) kp_comp" where
  "KeyProvider_RefreshKey DoRefreshKey sync_only =
     cbind (DoRefreshKey sync_only) (\<lambda>refreshed.
       if refreshed
       then (\<lambda>(kp, w). case system_clock_now w of (t, w') \<Rightarrow>
               (Inr refreshed, (kp\<lparr>last_refreshed := t\<rparr>, w')))
       else cret refreshed)"

definition KeyProvider_Initialize :: "(bool \<Rightarrow> ('c, 'w, bool) kp_comp) \<Rightarrow> ('c, 'w, unit) kp_comp" where
  "KeyProvider_Initialize DoRefreshKey =
     cthen (KeyProvider_RefreshKey DoRefreshKey False)
       (cmodify (\<lambda>(kp, w). (kp\<lparr>initialized := True\<rparr>, w)))"

definition GetKey :: "'c key_provider \<Rightarrow> u32 \<Rightarrow> exn + bytes" where
  "GetKey kp key_version =
     (if current_key_version kp = key_version then Inr (current_key kp)
      else if previous_key_version kp = key_version then Inr (previous_key kp)
      else Inl (CryptoError ''key with specified version not found''))"

definition IsKeyOutdated :: "'c key_provider \<Rightarrow> u32 \<Rightarrow> exn + bool" where
  "IsKeyOutdated kp key_version =
     (if current_key_version kp = key_version then Inr False
      else if previous_key_version kp = key_version then Inr True
      else Inl (CryptoError ''key with specified version not found''))"

definition KeyProvider_DeleteKey :: "'c key_provider \<Rightarrow> 'c key_provider" where
  "KeyProvider_DeleteKey kp =
     kp\<lparr>previous_key := Wipe (previous_key kp), current_key := Wipe (current_key kp),
        current_key_version := 0, previous_key_version := 0, initialized := False\<rparr>"

text \<open>The destructor.\<close>

definition KeyProvider_destroy :: "'c key_provider \<Rightarrow> 'c key_provider" where
  "KeyProvider_destroy kp = kp\<lparr>previous_key := Wipe (previous_key kp), current_key := Wipe (current_key kp)\<rparr>"

lemma KeyProvider_destroy_leaves_no_key:
  "previous_key (KeyProvider_destroy kp) = []" "current_key (KeyProvider_destroy kp) = []"
  by (simp_all add: KeyProvider_destroy_def Wipe_def)

section \<open>The local providers\<close>

definition StaticKeyProvider_DoRefreshKey :: "bool \<Rightarrow> ('c, 'w, bool) kp_comp" where
  "StaticKeyProvider_DoRefreshKey sync_only = cret False"

text \<open>\<^verbatim>\<open>std::copy\<close> of the key into \<^verbatim>\<open>current_key\<close>, which the base constructor sized to fit.\<close>

definition StaticKeyProvider_new :: "u32 \<Rightarrow> u32 \<Rightarrow> bytes \<Rightarrow> KeyType \<Rightarrow> 'c \<Rightarrow> 'c key_provider" where
  "StaticKeyProvider_new pv cv key kt d =
     (let kp = KeyProvider_new pv cv (length key) kt d
      in kp\<lparr>current_key := key @ drop (length key) (current_key kp)\<rparr>)"

definition StaticKeyProvider_Create ::
    "u32 \<Rightarrow> u32 \<Rightarrow> bytes \<Rightarrow> KeyType \<Rightarrow> 'c \<Rightarrow> 'w world_scheme \<Rightarrow> (exn + 'c key_provider) \<times> 'w world_scheme" where
  "StaticKeyProvider_Create pv cv key kt d w =
     (case KeyProvider_Initialize StaticKeyProvider_DoRefreshKey (StaticKeyProvider_new pv cv key kt d, w) of
        (r, (kp, w')) \<Rightarrow> (rbind r (\<lambda>_. Inr kp), w'))"

definition RandomKeyProvider_DoRefreshKey :: "bool \<Rightarrow> ('c, 'w, bool) kp_comp" where
  "RandomKeyProvider_DoRefreshKey sync_only = (\<lambda>(kp, w).
     if sync_only then (Inr False, (kp, w))
     else
       let kp1 = kp\<lparr>previous_key_version := current_key_version kp,
                    previous_key := current_key kp,
                    current_key_version := current_key_version kp + 1\<rparr>
       in case Randomize (current_key kp1) (length (current_key kp1)) w of (k, w') \<Rightarrow>
            (Inr True, (kp1\<lparr>current_key := k\<rparr>, w')))"

definition RandomKeyProvider_Create ::
    "u32 \<Rightarrow> u32 \<Rightarrow> nat \<Rightarrow> 'c \<Rightarrow> 'w world_scheme \<Rightarrow> (exn + 'c key_provider) \<times> 'w world_scheme" where
  "RandomKeyProvider_Create pv cv key_size d w =
     (case KeyProvider_Initialize RandomKeyProvider_DoRefreshKey (KeyProvider_new pv cv key_size Generic d, w) of
        (r, (kp, w')) \<Rightarrow> (rbind r (\<lambda>_. Inr kp), w'))"

text \<open>The bit pattern of RFC 8032, section 5.1.5, as the code writes it by index.\<close>

definition clamp_key :: "bytes \<Rightarrow> exn + bytes" where
  "clamp_key k =
     (if length k < 32 then Inl (Fault ''key index out of range'')
      else let k1 = k[0 := k ! 0 AND 248];
               k2 = k1[31 := k1 ! 31 AND 127]
           in Inr (k2[31 := k2 ! 31 OR 64]))"

definition RandomEd25519KeyProvider_DoRefreshKey :: "bool \<Rightarrow> ('c, 'w, bool) kp_comp" where
  "RandomEd25519KeyProvider_DoRefreshKey sync_only = (\<lambda>(kp, w).
     if sync_only then (Inr False, (kp, w))
     else
       let kp1 = kp\<lparr>previous_key_version := current_key_version kp,
                    previous_key := current_key kp,
                    current_key_version := current_key_version kp + 1\<rparr>
       in case Randomize (current_key kp1) (length (current_key kp1)) w of (k, w') \<Rightarrow>
          (case clamp_key k of
             Inl e \<Rightarrow> (Inl e, (kp1\<lparr>current_key := k\<rparr>, w'))
           | Inr k' \<Rightarrow> (Inr True, (kp1\<lparr>current_key := k'\<rparr>, w'))))"

definition RandomEd25519KeyProvider_Create ::
    "u32 \<Rightarrow> u32 \<Rightarrow> 'c \<Rightarrow> 'w world_scheme \<Rightarrow> (exn + 'c key_provider) \<times> 'w world_scheme" where
  "RandomEd25519KeyProvider_Create pv cv d w =
     (case KeyProvider_Initialize RandomEd25519KeyProvider_DoRefreshKey
             (KeyProvider_new pv cv 32 Curve25519 d, w) of
        (r, (kp, w')) \<Rightarrow> (rbind r (\<lambda>_. Inr kp), w'))"

section \<open>Randomize and the clamped key\<close>

lemma foldl_update_length [simp]: "length (foldl (\<lambda>v i. v[i := f i]) v is) = length v"
  by (induction "is" arbitrary: v) auto

lemma foldl_update_prefix:
  "n \<le> length v \<Longrightarrow> foldl (\<lambda>v i. v[i := f i]) v [0..<n] = map f [0..<n] @ drop n v"
proof (induction n)
  case (Suc n)
  have "(map f [0..<n] @ drop n v)[n := f n] = map f [0..<n] @ (drop n v)[0 := f n]"
    by (simp add: list_update_append)
  also have "(drop n v)[0 := f n] = f n # drop (Suc n) v"
    using Suc.prems by (simp add: Cons_nth_drop_Suc [symmetric])
  finally show ?case using Suc by simp
qed simp

lemma Randomize_eq:
  "Randomize vec sz w = (map (\<lambda>i. word_of_int (w_rng w (w_rng_pos w + i))) [0..<sz],
     w\<lparr>w_rng_pos := w_rng_pos w + sz\<rparr>)"
  by (simp add: Randomize_def foldl_update_prefix)

lemma Randomize_length: "length (fst (Randomize vec sz w)) = sz"
  by (simp add: Randomize_eq)

lemma clamp_key_ok:
  assumes "32 \<le> length k"
  shows "clamp_key k = Inr (k[0 := k ! 0 AND 248, 31 := (k ! 31 AND 127) OR 64])"
  using assms by (simp add: clamp_key_def Let_def)

lemma clamp_key_length: "clamp_key k = Inr k' \<Longrightarrow> length k' = length k"
  by (auto simp: clamp_key_def Let_def split: if_splits)

definition clamped :: "bytes \<Rightarrow> bool" where
  "clamped k \<longleftrightarrow> 32 \<le> length k \<and> k ! 0 AND 7 = 0 \<and> k ! 31 AND 128 = 0 \<and> k ! 31 AND 64 = 64"

lemma clamp_bits:
  fixes x :: byte
  shows "(x AND 248) AND 7 = 0" "((x AND 127) OR 64) AND 128 = 0" "((x AND 127) OR 64) AND 64 = 64"
  by (simp_all add: and.assoc bit.conj_disj_distrib2)

lemma clamp_key_clamped:
  assumes "clamp_key k = Inr k'"
  shows "clamped k'"
proof -
  have len: "32 \<le> length k" using assms by (auto simp: clamp_key_def split: if_splits)
  then have "0 < length k" by linarith
  with assms len show ?thesis
    by (auto simp: clamp_key_ok clamped_def clamp_bits)
qed

section \<open>The contract of DoRefreshKey\<close>

definition same_keys :: "'c key_provider \<Rightarrow> 'c key_provider \<Rightarrow> bool" where
  "same_keys kp kp' \<longleftrightarrow>
     current_key kp' = current_key kp \<and> current_key_version kp' = current_key_version kp
   \<and> previous_key kp' = previous_key kp \<and> previous_key_version kp' = previous_key_version kp"

definition rolled_over :: "'c key_provider \<Rightarrow> 'c key_provider \<Rightarrow> bool" where
  "rolled_over kp kp' \<longleftrightarrow>
     previous_key kp' = current_key kp \<and> previous_key_version kp' = current_key_version kp"

definition replaced :: "'c key_provider \<Rightarrow> 'c key_provider \<Rightarrow> bool" where
  "replaced kp kp' \<longleftrightarrow>
     previous_key kp' = previous_key kp \<and> previous_key_version kp' = previous_key_version kp"

text \<open>
  Every provider promises: a refresh that does not report success leaves both keys alone;
  one that does either moves the current key to the previous slot or replaces it without
  touching that slot. The members the base class owns are never written.
\<close>

locale key_provider_contract =
  fixes DoRefreshKey :: "bool \<Rightarrow> ('c, 'w, bool) kp_comp"
    and kp_inv :: "'c key_provider \<Rightarrow> bool"
  assumes refresh_inv: "kp_inv kp \<Longrightarrow> DoRefreshKey so (kp, w) = (r, (kp', w')) \<Longrightarrow> kp_inv kp'"
    and refresh_meta: "kp_inv kp \<Longrightarrow> DoRefreshKey so (kp, w) = (r, (kp', w')) \<Longrightarrow>
      key_type kp' = key_type kp \<and> initialized kp' = initialized kp \<and> last_refreshed kp' = last_refreshed kp"
    and refresh_failed: "kp_inv kp \<Longrightarrow> DoRefreshKey so (kp, w) = (r, (kp', w')) \<Longrightarrow> r \<noteq> Inr True \<Longrightarrow>
      same_keys kp kp'"
    and refresh_done: "kp_inv kp \<Longrightarrow> DoRefreshKey so (kp, w) = (Inr True, (kp', w')) \<Longrightarrow>
      rolled_over kp kp' \<or> replaced kp kp'"
    and inv_meta: "kp_inv (kp\<lparr>last_refreshed := t\<rparr>) = kp_inv kp"
      "kp_inv (kp\<lparr>initialized := b\<rparr>) = kp_inv kp"
begin

lemma RefreshKey_cases:
  assumes "kp_inv kp" and "KeyProvider_RefreshKey DoRefreshKey so (kp, w) = (r, (kp', w'))"
  obtains (unchanged) "r \<noteq> Inr True" "DoRefreshKey so (kp, w) = (r, (kp', w'))"
    | (refreshed) kp1 w1 where "r = Inr True" "DoRefreshKey so (kp, w) = (Inr True, (kp1, w1))"
        "kp' = kp1\<lparr>last_refreshed := fst (system_clock_now w1)\<rparr>" "w' = snd (system_clock_now w1)"
proof -
  obtain r0 kp0 w0 where e: "DoRefreshKey so (kp, w) = (r0, (kp0, w0))"
    by (metis surj_pair)
  show thesis
  proof (cases r0)
    case (Inl x)
    with e assms(2) that(1) show ?thesis
      by (auto simp: KeyProvider_RefreshKey_def cbind_def)
  next
    case (Inr b)
    with e assms(2) that show ?thesis
      by (cases b) (auto simp: KeyProvider_RefreshKey_def cbind_def split: prod.splits)
  qed
qed

lemma RefreshKey_inv:
  assumes "kp_inv kp" and "KeyProvider_RefreshKey DoRefreshKey so (kp, w) = (r, (kp', w'))"
  shows "kp_inv kp' \<and> key_type kp' = key_type kp"
  using assms(1)
  by (cases rule: RefreshKey_cases [OF assms])
     (auto dest: refresh_inv refresh_meta simp: inv_meta)

lemma RefreshKey_not_refreshed:
  assumes "kp_inv kp" and "KeyProvider_RefreshKey DoRefreshKey so (kp, w) = (r, (kp', w'))"
    and "r \<noteq> Inr True"
  shows "same_keys kp kp' \<and> last_refreshed kp' = last_refreshed kp"
  using assms(1,3)
  by (cases rule: RefreshKey_cases [OF assms(1,2)]) (auto dest: refresh_failed refresh_meta)

lemma RefreshKey_refreshed:
  assumes "kp_inv kp" and "KeyProvider_RefreshKey DoRefreshKey so (kp, w) = (Inr True, (kp', w'))"
  shows "rolled_over kp kp' \<or> replaced kp kp'"
  using assms(1) assms(2)
proof (cases rule: RefreshKey_cases)
  case (refreshed kp1 w1)
  with refresh_done [OF assms(1) refreshed(2)] show ?thesis
    by (auto simp: rolled_over_def replaced_def)
qed simp

text \<open>A client that still holds the version before a rollover is served, and told so.\<close>

lemma RefreshKey_old_version_served:
  assumes "kp_inv kp" and "KeyProvider_RefreshKey DoRefreshKey so (kp, w) = (Inr True, (kp', w'))"
    and "rolled_over kp kp'" and "current_key_version kp' \<noteq> current_key_version kp"
  shows "GetKey kp' (current_key_version kp) = Inr (current_key kp)
       \<and> IsKeyOutdated kp' (current_key_version kp) = Inr True"
  using assms by (auto simp: GetKey_def IsKeyOutdated_def rolled_over_def)

end

text \<open>A provider whose keys are always Curve25519 keys of the right size.\<close>

locale curve_key_provider = key_provider_contract +
  assumes inv_sized: "kp_inv kp \<Longrightarrow> length (current_key kp) = KEY_SIZE \<and> length (previous_key kp) = KEY_SIZE"
    and inv_curve: "kp_inv kp \<Longrightarrow> key_type kp = Curve25519"
begin

lemma GetKey_sized: "kp_inv kp \<Longrightarrow> GetKey kp v = Inr k \<Longrightarrow> length k = KEY_SIZE"
  using inv_sized by (auto simp: GetKey_def split: if_splits)

end

lemma GetKey_IsKeyOutdated:
  "(\<exists>k. GetKey kp v = Inr k) \<longleftrightarrow> (\<exists>b. IsKeyOutdated kp v = Inr b)"
  by (cases "current_key_version kp = v"; cases "previous_key_version kp = v")
     (auto simp: GetKey_def IsKeyOutdated_def)

section \<open>The local providers meet it\<close>

definition kp_sized :: "nat \<Rightarrow> 'c key_provider \<Rightarrow> bool" where
  "kp_sized n kp \<longleftrightarrow> length (current_key kp) = n \<and> length (previous_key kp) = n"

interpretation static_kp: key_provider_contract StaticKeyProvider_DoRefreshKey "\<lambda>_. True"
  by unfold_locales (auto simp: StaticKeyProvider_DoRefreshKey_def same_keys_def)

interpretation random_kp: key_provider_contract RandomKeyProvider_DoRefreshKey "kp_sized n"
  by unfold_locales
     (auto simp: RandomKeyProvider_DoRefreshKey_def same_keys_def rolled_over_def kp_sized_def
        Randomize_eq Let_def split: if_splits)

definition ed25519_inv :: "'c key_provider \<Rightarrow> bool" where
  "ed25519_inv kp \<longleftrightarrow> kp_sized 32 kp \<and> key_type kp = Curve25519"

lemma RandomEd25519_refresh_eq:
  assumes "kp_sized 32 kp"
  shows "RandomEd25519KeyProvider_DoRefreshKey False (kp, w) =
    (Inr True, (kp\<lparr>previous_key_version := current_key_version kp, previous_key := current_key kp,
       current_key_version := current_key_version kp + 1,
       current_key := (let k = fst (Randomize (current_key kp) 32 w)
                       in k[0 := k ! 0 AND 248, 31 := (k ! 31 AND 127) OR 64])\<rparr>,
      snd (Randomize (current_key kp) 32 w)))"
  using assms
  by (simp add: RandomEd25519KeyProvider_DoRefreshKey_def kp_sized_def clamp_key_ok Randomize_length
      Let_def split: prod.splits) (simp add: Randomize_eq clamp_key_ok)

interpretation ed25519_kp: curve_key_provider RandomEd25519KeyProvider_DoRefreshKey ed25519_inv
proof unfold_locales
  fix kp kp' :: "'c key_provider" and so r and w w' :: "'w world_scheme"
  assume inv: "ed25519_inv kp" and e: "RandomEd25519KeyProvider_DoRefreshKey so (kp, w) = (r, (kp', w'))"
  then have s: "kp_sized 32 kp" by (simp add: ed25519_inv_def)
  show "ed25519_inv kp'"
    using inv e RandomEd25519_refresh_eq [OF s, of w]
    by (cases so) (auto simp: RandomEd25519KeyProvider_DoRefreshKey_def [of True] ed25519_inv_def
        kp_sized_def Randomize_length Let_def)
  show "key_type kp' = key_type kp \<and> initialized kp' = initialized kp \<and> last_refreshed kp' = last_refreshed kp"
    using e RandomEd25519_refresh_eq [OF s, of w]
    by (cases so) (auto simp: RandomEd25519KeyProvider_DoRefreshKey_def [of True])
  show "r \<noteq> Inr True \<Longrightarrow> same_keys kp kp'"
    using e RandomEd25519_refresh_eq [OF s, of w]
    by (cases so) (auto simp: RandomEd25519KeyProvider_DoRefreshKey_def [of True] same_keys_def)
next
  fix kp kp' :: "'c key_provider" and so and w w' :: "'w world_scheme"
  assume inv: "ed25519_inv kp" and e: "RandomEd25519KeyProvider_DoRefreshKey so (kp, w) = (Inr True, (kp', w'))"
  then have s: "kp_sized 32 kp" by (simp add: ed25519_inv_def)
  show "rolled_over kp kp' \<or> replaced kp kp'"
    using e RandomEd25519_refresh_eq [OF s, of w]
    by (cases so) (auto simp: RandomEd25519KeyProvider_DoRefreshKey_def [of True] rolled_over_def)
qed (auto simp: ed25519_inv_def kp_sized_def KEY_SIZE_def)

end
