(* ===== verification/Protocol.thy ===== *)
theory Protocol
  imports Crypto
begin

text \<open>
  The messages of the confidential messaging protocol
  (\<^verbatim>\<open>external/confmsg/confmsg/shared/protocol.fbs\<close>) and \<^verbatim>\<open>WriteMessage\<close>. Every vector and
  table field of a flatbuffer is optional: an accessor of an absent field returns a null
  pointer, here \<open>None\<close>. The flatbuffers library and the code generated from the schema are
  not part of the repository: \<open>fb_encode\<close> is a finished builder, \<open>fb_decode\<close> the verifier
  with the accessors; \<open>fb_roundtrip\<close> is what the code relies on. Open Enclave's
  attestation calls are the fields of \<open>oe_lib\<close>.
\<close>

section \<open>Tables of protocol.fbs\<close>

definition Version_v1 :: byte where "Version_v1 = 0"
definition PointFormat_Compressed :: byte where "PointFormat_Compressed = 2"
definition EvidenceType_Quote :: byte where "EvidenceType_Quote = 0"
definition EvidenceType_Collateral :: byte where "EvidenceType_Collateral = 1"

record ECPoint =
  ec_point_format :: byte
  ec_xy :: "bytes option"

record KeyRequest =
  kreq_nonce :: "bytes option"

record SignedServiceIdentity =
  sid_nonce :: "bytes option"
  sid_service_identifier :: "bytes option"
  sid_server_share :: "ECPoint option"
  sid_server_signature_share :: "ECPoint option"
  sid_signature :: "bytes option"

record Evidence =
  ev_type :: byte
  ev_contents :: "bytes option"

record KeyResponse =
  kres_id :: "SignedServiceIdentity option"
  kres_lifetime_hint :: u32
  kres_key_version :: u32
  kres_authenticator :: "Evidence list option"

record Request =
  req_key_version :: u32
  req_iv :: "bytes option"
  req_tag :: "bytes option"
  req_client_share :: "ECPoint option"
  req_additional_data :: "bytes option"
  req_ciphertext :: "bytes option"

record Response =
  res_key_outdated :: bool
  res_iv :: "bytes option"
  res_tag :: "bytes option"
  res_additional_data :: "bytes option"
  res_ciphertext :: "bytes option"

text \<open>
  The union and its type tag. The verifier accepts a tag with an absent table, hence the
  options; \<open>Body_other\<close> is \<^verbatim>\<open>NONE\<close> or a tag outside the enumeration.
\<close>

datatype Body =
    Body_KeyRequest "KeyRequest option"
  | Body_KeyResponse "KeyResponse option"
  | Body_Request "Request option"
  | Body_Response "Response option"
  | Body_other byte

record Message =
  msg_version :: byte
  msg_body :: Body

section \<open>Libraries the protocol code calls\<close>

record fb_codec =
  fb_encode :: "Message \<Rightarrow> bytes"
  fb_decode :: "bytes \<Rightarrow> Message option"

definition fb_roundtrip :: "fb_codec \<Rightarrow> bool" where
  "fb_roundtrip F \<longleftrightarrow> (\<forall>m. fb_decode F (fb_encode F m) = Some m)"

record oe_report =
  oe_id_version :: nat
  oe_unique_id :: bytes
  oe_signer_id :: bytes
  oe_product_id :: bytes
  oe_security_version :: nat
  oe_attributes :: u64
  oe_report_data :: bytes

record oe_lib =
  oe_get_report :: "bytes \<Rightarrow> nat + bytes"
  oe_result_str :: "nat \<Rightarrow> string"
  oe_verify_remote_report :: "bytes \<Rightarrow> bytes \<Rightarrow> oe_report option"
  OE_UNIQUE_ID_SIZE :: nat
  OE_SIGNER_ID_SIZE :: nat
  OE_REPORT_ATTRIBUTES_DEBUG :: u64

text \<open>
  What one build of the code is linked with; the two flags are the preprocessor symbols
  \<^verbatim>\<open>OE_BUILD_ENCLAVE\<close> and \<^verbatim>\<open>HAVE_OE_HOST_VERIFY\<close>.
\<close>

record libs =
  l_crypto :: crypto_lib
  l_fb :: fb_codec
  l_oe :: oe_lib
  OE_BUILD_ENCLAVE :: bool
  HAVE_OE_HOST_VERIFY :: bool

section \<open>Shared steps\<close>

definition deref :: "'a option \<Rightarrow> exn + 'a" where
  "deref p = opt_or (Fault ''null pointer dereference'') p"

lemma deref_simps [simp, comp_simps]:
  "deref None = Inl (Fault ''null pointer dereference'')"
  "deref (Some x) = Inr x"
  by (simp_all add: deref_def)

lemma deref_Inr_iff [comp_inv]: "deref p = Inr x \<longleftrightarrow> p = Some x"
  by (cases p) auto

definition WriteMessage :: "bytes \<Rightarrow> nat \<Rightarrow> exn + bytes" where
  "WriteMessage fb max_msg_size =
     (if length fb > max_msg_size
      then Inl (OutputBufferTooSmallError (''message too large ('' @ to_string (int (length fb))
                  @ '' > '' @ to_string (int max_msg_size) @ '')''))
      else Inr fb)"

lemma WriteMessage_fits: "length fb \<le> n \<Longrightarrow> WriteMessage fb n = Inr fb"
  by (simp add: WriteMessage_def)

lemma WriteMessage_Inr_iff [comp_inv]: "WriteMessage fb n = Inr m \<longleftrightarrow> m = fb \<and> length fb \<le> n"
  by (auto simp: WriteMessage_def)

text \<open>
  The loop that combines the static with the per-message IV, on both ends: \<^verbatim>\<open>p[i]\<close> is read
  for every \<open>i < IV_SIZE\<close>.
\<close>

definition xor_ivs :: "bytes \<Rightarrow> bytes \<Rightarrow> exn + bytes" where
  "xor_ivs static_iv iv =
     (if length static_iv < IV_SIZE \<or> length iv < IV_SIZE
      then Inl (Fault ''IV read out of range'')
      else Inr (map (\<lambda>i. static_iv ! i XOR iv ! i) [0..<IV_SIZE]))"

lemma xor_ivs_ok:
  "length s = IV_SIZE \<Longrightarrow> length iv = IV_SIZE \<Longrightarrow> xor_ivs s iv = Inr (map2 (XOR) s iv)"
  by (simp add: xor_ivs_def list_eq_iff_nth_eq)

end
