(* ===== verification/Sample_Libs.thy ===== *)
theory Sample_Libs
  imports Protocol
begin

text \<open>
  Concrete functions for the libraries the code is linked with, used to apply the theorems
  that are stated for every library satisfying \<^const>\<open>crypto_correct\<close> and \<^const>\<open>fb_roundtrip\<close>.
  They are no cryptography and no flatbuffers: they only show that the hypotheses can hold.
\<close>

section \<open>A codec for messages\<close>

definition wire :: "('a \<Rightarrow> bytes) \<Rightarrow> (bytes \<Rightarrow> ('a \<times> bytes) option) \<Rightarrow> bool" where
  "wire put get \<longleftrightarrow> (\<forall>x r. get (put x @ r) = Some (x, r))"

lemma wireD: "wire put get \<Longrightarrow> get (put x @ r) = Some (x, r)"
  by (simp add: wire_def)

definition put_byte :: "byte \<Rightarrow> bytes" where "put_byte b = [b]"

fun get_byte :: "bytes \<Rightarrow> (byte \<times> bytes) option" where
  "get_byte [] = None"
| "get_byte (b # r) = Some (b, r)"

lemma wire_byte: "wire put_byte get_byte"
  by (simp add: wire_def put_byte_def)

definition put_bool :: "bool \<Rightarrow> bytes" where "put_bool b = [if b then 1 else 0]"

definition get_bool :: "bytes \<Rightarrow> (bool \<times> bytes) option" where
  "get_bool r = map_option (\<lambda>(b, r'). (b = 1, r')) (get_byte r)"

lemma wire_bool: "wire put_bool get_bool"
  by (simp add: wire_def put_bool_def get_bool_def)

fun put_option :: "('a \<Rightarrow> bytes) \<Rightarrow> 'a option \<Rightarrow> bytes" where
  "put_option put None = [0]"
| "put_option put (Some x) = 1 # put x"

fun get_option :: "(bytes \<Rightarrow> ('a \<times> bytes) option) \<Rightarrow> bytes \<Rightarrow> ('a option \<times> bytes) option" where
  "get_option get [] = None"
| "get_option get (b # r) =
     (if b = 0 then Some (None, r) else map_option (\<lambda>(x, r'). (Some x, r')) (get r))"

lemma wire_option: "wire put get \<Longrightarrow> wire (put_option put) (get_option get)"
  unfolding wire_def by (intro allI, rename_tac x r, case_tac x) simp_all

fun put_list :: "('a \<Rightarrow> bytes) \<Rightarrow> 'a list \<Rightarrow> bytes" where
  "put_list put [] = [0]"
| "put_list put (x # xs) = 1 # put x @ put_list put xs"

fun get_list :: "(bytes \<Rightarrow> ('a \<times> bytes) option) \<Rightarrow> nat \<Rightarrow> bytes \<Rightarrow> ('a list \<times> bytes) option" where
  "get_list get 0 r = None"
| "get_list get (Suc n) [] = None"
| "get_list get (Suc n) (b # r) =
     (if b = 0 then Some ([], r)
      else case get r of
             None \<Rightarrow> None
           | Some (x, r') \<Rightarrow> map_option (\<lambda>(xs, r''). (x # xs, r'')) (get_list get n r'))"

definition get_vector :: "(bytes \<Rightarrow> ('a \<times> bytes) option) \<Rightarrow> bytes \<Rightarrow> ('a list \<times> bytes) option" where
  "get_vector get r = get_list get (Suc (length r)) r"

lemma get_list_put: "wire put get \<Longrightarrow> length xs < n \<Longrightarrow> get_list get n (put_list put xs @ r) = Some (xs, r)"
proof (induction xs arbitrary: n)
  case (Cons x xs)
  then show ?case by (cases n) (simp_all add: wireD)
qed (auto elim: less_natE simp: less_eq_Suc_le dest: Suc_le_D)

lemma put_list_length: "length xs < length (put_list put xs)"
  by (induction xs) auto

lemma wire_list: "wire put get \<Longrightarrow> wire (put_list put) (get_vector get)"
  unfolding wire_def [of "put_list put"] get_vector_def
  by (intro allI get_list_put) (use put_list_length [of _ put] in \<open>auto simp: less_Suc_eq intro: trans_less_add1\<close>)

definition put_pair :: "('a \<Rightarrow> bytes) \<Rightarrow> ('b \<Rightarrow> bytes) \<Rightarrow> 'a \<times> 'b \<Rightarrow> bytes" where
  "put_pair p q x = p (fst x) @ q (snd x)"

definition get_pair :: "(bytes \<Rightarrow> ('a \<times> bytes) option) \<Rightarrow> (bytes \<Rightarrow> ('b \<times> bytes) option)
    \<Rightarrow> bytes \<Rightarrow> (('a \<times> 'b) \<times> bytes) option" where
  "get_pair g h r = (case g r of None \<Rightarrow> None | Some (x, r') \<Rightarrow> map_option (\<lambda>(y, r''). ((x, y), r'')) (h r'))"

lemma wire_pair: "wire p g \<Longrightarrow> wire q h \<Longrightarrow> wire (put_pair p q) (get_pair g h)"
  unfolding wire_def [of "put_pair p q"] by (auto simp: put_pair_def get_pair_def wireD)

text \<open>A type whose values are given by those of another one.\<close>

definition put_via :: "('a \<Rightarrow> 'b) \<Rightarrow> ('b \<Rightarrow> bytes) \<Rightarrow> 'a \<Rightarrow> bytes" where
  "put_via f p x = p (f x)"

definition get_via :: "('b \<Rightarrow> 'a) \<Rightarrow> (bytes \<Rightarrow> ('b \<times> bytes) option) \<Rightarrow> bytes \<Rightarrow> ('a \<times> bytes) option" where
  "get_via h g r = map_option (\<lambda>(y, r'). (h y, r')) (g r)"

lemma wire_via: "wire p g \<Longrightarrow> (\<And>x. h (f x) = x) \<Longrightarrow> wire (put_via f p) (get_via h g)"
  unfolding wire_def [of "put_via f p"] by (simp add: put_via_def get_via_def wireD)

abbreviation "put_bytes \<equiv> put_option (put_list put_byte)"
abbreviation "get_bytes \<equiv> get_option (get_vector get_byte)"

lemmas wire_bytes = wire_option [OF wire_list [OF wire_byte]]

definition u32_bytes :: "u32 \<Rightarrow> byte \<times> byte \<times> byte \<times> byte" where
  "u32_bytes w = (let n = unat w in
     (word_of_nat (n mod 256), word_of_nat (n div 256 mod 256),
      word_of_nat (n div 65536 mod 256), word_of_nat (n div 16777216)))"

definition u32_of_bytes :: "byte \<times> byte \<times> byte \<times> byte \<Rightarrow> u32" where
  "u32_of_bytes = (\<lambda>(a, b, c, d).
     word_of_nat (unat a + 256 * unat b + 65536 * unat c + 16777216 * unat d))"

lemma nat_base_256: "n mod 256 + 256 * (n div 256 mod 256) + 65536 * (n div 65536 mod 256)
    + 16777216 * (n div 16777216) = (n :: nat)"
proof -
  define a b where "a = n div 256" and "b = a div 256"
  have e: "n div 65536 = b" "n div 16777216 = b div 256"
    by (simp_all add: a_def b_def div_mult2_eq [symmetric])
  have "n = 256 * a + n mod 256" "a = 256 * b + a mod 256" "b = 256 * (b div 256) + b mod 256"
    by (simp_all add: a_def b_def)
  then show ?thesis unfolding e a_def [symmetric] by linarith
qed

lemma u32_of_bytes_inverse: "u32_of_bytes (u32_bytes w) = w"
proof -
  have "unat w < 2 ^ LENGTH(32)" by (rule unsigned_less)
  then have "unat w div 16777216 < 256" by (simp add: less_mult_imp_div_less)
  moreover have "unat (word_of_nat k :: byte) = k" if "k < 256" for k
    using that by (simp add: unat_of_nat take_bit_nat_eq_self)
  ultimately have "u32_of_bytes (u32_bytes w) = word_of_nat (unat w)"
    unfolding u32_of_bytes_def u32_bytes_def Let_def prod.case
    by (simp only: nat_base_256 mod_less_divisor zero_less_numeral)
  then show ?thesis by simp
qed

abbreviation "put_u32 \<equiv> put_via u32_bytes (put_pair put_byte (put_pair put_byte (put_pair put_byte put_byte)))"
abbreviation "get_u32 \<equiv> get_via u32_of_bytes (get_pair get_byte (get_pair get_byte (get_pair get_byte get_byte)))"

lemma wire_u32: "wire put_u32 get_u32"
  by (intro wire_via wire_pair wire_byte u32_of_bytes_inverse)

text \<open>The tables, each through the tuple of its fields.\<close>

definition put_ECPoint :: "ECPoint \<Rightarrow> bytes" where
  "put_ECPoint = put_via (\<lambda>p. (ec_point_format p, ec_xy p)) (put_pair put_byte put_bytes)"

definition get_ECPoint :: "bytes \<Rightarrow> (ECPoint \<times> bytes) option" where
  "get_ECPoint = get_via (\<lambda>(f, x). \<lparr>ec_point_format = f, ec_xy = x\<rparr>) (get_pair get_byte get_bytes)"

lemma wire_ECPoint: "wire put_ECPoint get_ECPoint"
  unfolding put_ECPoint_def get_ECPoint_def by (intro wire_via wire_pair wire_byte wire_bytes) simp

definition put_KeyRequest :: "KeyRequest \<Rightarrow> bytes" where
  "put_KeyRequest = put_via kreq_nonce put_bytes"

definition get_KeyRequest :: "bytes \<Rightarrow> (KeyRequest \<times> bytes) option" where
  "get_KeyRequest = get_via (\<lambda>n. \<lparr>kreq_nonce = n\<rparr>) get_bytes"

lemma wire_KeyRequest: "wire put_KeyRequest get_KeyRequest"
  unfolding put_KeyRequest_def get_KeyRequest_def by (intro wire_via wire_bytes) simp

definition put_SignedServiceIdentity :: "SignedServiceIdentity \<Rightarrow> bytes" where
  "put_SignedServiceIdentity = put_via
     (\<lambda>i. (sid_nonce i, sid_service_identifier i, sid_server_share i, sid_server_signature_share i, sid_signature i))
     (put_pair put_bytes (put_pair put_bytes (put_pair (put_option put_ECPoint)
        (put_pair (put_option put_ECPoint) put_bytes))))"

definition get_SignedServiceIdentity :: "bytes \<Rightarrow> (SignedServiceIdentity \<times> bytes) option" where
  "get_SignedServiceIdentity = get_via
     (\<lambda>(a, b, c, d, e). \<lparr>sid_nonce = a, sid_service_identifier = b, sid_server_share = c,
        sid_server_signature_share = d, sid_signature = e\<rparr>)
     (get_pair get_bytes (get_pair get_bytes (get_pair (get_option get_ECPoint)
        (get_pair (get_option get_ECPoint) get_bytes))))"

lemma wire_SignedServiceIdentity: "wire put_SignedServiceIdentity get_SignedServiceIdentity"
  unfolding put_SignedServiceIdentity_def get_SignedServiceIdentity_def
  by (intro wire_via wire_pair wire_bytes wire_option wire_ECPoint) simp

definition put_Evidence :: "Evidence \<Rightarrow> bytes" where
  "put_Evidence = put_via (\<lambda>e. (ev_type e, ev_contents e)) (put_pair put_byte put_bytes)"

definition get_Evidence :: "bytes \<Rightarrow> (Evidence \<times> bytes) option" where
  "get_Evidence = get_via (\<lambda>(t, c). \<lparr>ev_type = t, ev_contents = c\<rparr>) (get_pair get_byte get_bytes)"

lemma wire_Evidence: "wire put_Evidence get_Evidence"
  unfolding put_Evidence_def get_Evidence_def by (intro wire_via wire_pair wire_byte wire_bytes) simp

definition put_KeyResponse :: "KeyResponse \<Rightarrow> bytes" where
  "put_KeyResponse = put_via (\<lambda>k. (kres_id k, kres_lifetime_hint k, kres_key_version k, kres_authenticator k))
     (put_pair (put_option put_SignedServiceIdentity) (put_pair put_u32 (put_pair put_u32
        (put_option (put_list put_Evidence)))))"

definition get_KeyResponse :: "bytes \<Rightarrow> (KeyResponse \<times> bytes) option" where
  "get_KeyResponse = get_via (\<lambda>(i, l, v, a). \<lparr>kres_id = i, kres_lifetime_hint = l, kres_key_version = v,
        kres_authenticator = a\<rparr>)
     (get_pair (get_option get_SignedServiceIdentity) (get_pair get_u32 (get_pair get_u32
        (get_option (get_vector get_Evidence)))))"

lemma wire_KeyResponse: "wire put_KeyResponse get_KeyResponse"
  unfolding put_KeyResponse_def get_KeyResponse_def
  by (rule wire_via) (intro wire_pair wire_option wire_SignedServiceIdentity wire_u32 wire_list wire_Evidence, simp)

definition put_Request :: "Request \<Rightarrow> bytes" where
  "put_Request = put_via
     (\<lambda>q. (req_key_version q, req_iv q, req_tag q, req_client_share q, req_additional_data q, req_ciphertext q))
     (put_pair put_u32 (put_pair put_bytes (put_pair put_bytes (put_pair (put_option put_ECPoint)
        (put_pair put_bytes put_bytes)))))"

definition get_Request :: "bytes \<Rightarrow> (Request \<times> bytes) option" where
  "get_Request = get_via
     (\<lambda>(v, i, t, s, a, c). \<lparr>req_key_version = v, req_iv = i, req_tag = t, req_client_share = s,
        req_additional_data = a, req_ciphertext = c\<rparr>)
     (get_pair get_u32 (get_pair get_bytes (get_pair get_bytes (get_pair (get_option get_ECPoint)
        (get_pair get_bytes get_bytes)))))"

lemma wire_Request: "wire put_Request get_Request"
  unfolding put_Request_def get_Request_def
  by (rule wire_via) (intro wire_pair wire_u32 wire_bytes wire_option wire_ECPoint, simp)

definition put_Response :: "Response \<Rightarrow> bytes" where
  "put_Response = put_via
     (\<lambda>q. (res_key_outdated q, res_iv q, res_tag q, res_additional_data q, res_ciphertext q))
     (put_pair put_bool (put_pair put_bytes (put_pair put_bytes (put_pair put_bytes put_bytes))))"

definition get_Response :: "bytes \<Rightarrow> (Response \<times> bytes) option" where
  "get_Response = get_via
     (\<lambda>(o', i, t, a, c). \<lparr>res_key_outdated = o', res_iv = i, res_tag = t, res_additional_data = a,
        res_ciphertext = c\<rparr>)
     (get_pair get_bool (get_pair get_bytes (get_pair get_bytes (get_pair get_bytes get_bytes))))"

lemma wire_Response: "wire put_Response get_Response"
  unfolding put_Response_def get_Response_def by (intro wire_via wire_pair wire_bool wire_bytes) simp

fun put_Body :: "Body \<Rightarrow> bytes" where
  "put_Body (Body_KeyRequest r) = 0 # put_option put_KeyRequest r"
| "put_Body (Body_KeyResponse r) = 1 # put_option put_KeyResponse r"
| "put_Body (Body_Request r) = 2 # put_option put_Request r"
| "put_Body (Body_Response r) = 3 # put_option put_Response r"
| "put_Body (Body_other t) = 4 # put_byte t"

fun get_Body :: "bytes \<Rightarrow> (Body \<times> bytes) option" where
  "get_Body [] = None"
| "get_Body (t # r) =
     (if t = 0 then get_via Body_KeyRequest (get_option get_KeyRequest) r
      else if t = 1 then get_via Body_KeyResponse (get_option get_KeyResponse) r
      else if t = 2 then get_via Body_Request (get_option get_Request) r
      else if t = 3 then get_via Body_Response (get_option get_Response) r
      else if t = 4 then get_via Body_other get_byte r
      else None)"

lemma wire_Body: "wire put_Body get_Body"
  unfolding wire_def
proof (intro allI)
  fix b r
  show "get_Body (put_Body b @ r) = Some (b, r)"
    by (cases b) (simp_all add: get_via_def wireD [OF wire_option [OF wire_KeyRequest]]
        wireD [OF wire_option [OF wire_KeyResponse]] wireD [OF wire_option [OF wire_Request]]
        wireD [OF wire_option [OF wire_Response]] wireD [OF wire_byte])
qed

definition sample_codec :: fb_codec where
  "sample_codec =
     \<lparr>fb_encode = (\<lambda>m. put_byte (msg_version m) @ put_Body (msg_body m)),
      fb_decode = (\<lambda>r. map_option fst (get_via (\<lambda>(v, b). \<lparr>msg_version = v, msg_body = b\<rparr>)
                       (get_pair get_byte get_Body) r))\<rparr>"

lemma sample_codec_roundtrip: "fb_roundtrip sample_codec"
proof -
  have "get_Body (put_Body b) = Some (b, [])" for b
    using wireD [OF wire_Body, of b "[]"] by simp
  then show ?thesis
    by (simp add: fb_roundtrip_def sample_codec_def put_byte_def get_via_def get_pair_def)
qed

section \<open>Primitives\<close>

definition sample_crypto :: crypto_lib where
  "sample_crypto =
     \<lparr>EverCrypt_Curve25519_secret_to_public = vec_resize KEY_SIZE,
      Hacl_Ed25519_secret_to_public = vec_resize KEY_SIZE,
      EverCrypt_Curve25519_ecdh = (\<lambda>a b. map2 (XOR) (vec_resize KEY_SIZE a) (vec_resize KEY_SIZE b)),
      EverCrypt_HKDF_expand_sha2_256 = (\<lambda>p i n. vec_resize n (i @ p)),
      EverCrypt_AEAD_create_in = (\<lambda>k. 0),
      EverCrypt_AEAD_encrypt = (\<lambda>k iv ad p. (0, map (\<lambda>b. b XOR hd (k @ [0])) p, vec_resize TAG_SIZE (iv @ k))),
      EverCrypt_AEAD_decrypt = (\<lambda>k iv ad c t. if t = vec_resize TAG_SIZE (iv @ k)
         then (0, map (\<lambda>b. b XOR hd (k @ [0])) c) else (1, [])),
      Hacl_Ed25519_sign = (\<lambda>k m. vec_resize SIGNATURE_SIZE (m @ k)),
      Hacl_Ed25519_verify = (\<lambda>p m s. s = vec_resize SIGNATURE_SIZE (m @ p)),
      EverCrypt_Hash_hash_256 = vec_resize SHA256_SIZE,
      EverCrypt_Hash_Incremental = (\<lambda>ds. vec_resize SHA256_SIZE (concat ds)),
      mbedtls_pk_parse_public_key = (\<lambda>pem. if pem = [] then Inl (- 1)
         else Inr \<lparr>pk_is_rsa = True, pk_rsa_len = 4, pk_rsa_export_raw = Inr [1, 2, 3, 4]\<rparr>),
      mbedtls_strerror = (\<lambda>e. ''error '' @ to_string e)\<rparr>"

lemma map2_xor_commute: "map2 (XOR) xs ys = map2 (XOR) ys (xs :: bytes)"
  by (induction xs ys rule: list_induct2') (simp_all add: xor.commute)

lemma map_xor_twice: "map (\<lambda>b. b XOR x) (map (\<lambda>b. b XOR x) p) = (p :: bytes)"
  by (induction p) (simp_all add: xor.assoc)

lemma sample_crypto_correct: "crypto_correct sample_crypto"
  unfolding crypto_correct_def
proof (intro conjI)
  show "crypto_lengths sample_crypto" by (simp add: crypto_lengths_def sample_crypto_def)
  show "ecdh_commutes sample_crypto"
    unfolding ecdh_commutes_def sample_crypto_def by (simp add: map2_xor_commute)
  show "aead_correct sample_crypto"
    by (auto simp: aead_correct_def sample_crypto_def EverCrypt_Error_Success_def xor.assoc comp_def)
  show "signature_correct sample_crypto" by (simp add: signature_correct_def sample_crypto_def)
qed

section \<open>Attestation and the linked builds\<close>

text \<open>A quote is the report data after a marker byte; verification unpacks it.\<close>

definition sample_oe :: oe_lib where
  "sample_oe =
     \<lparr>oe_get_report = (\<lambda>h. Inr (7 # h)), oe_result_str = (\<lambda>n. ''OE_FAILURE''),
      oe_verify_remote_report = (\<lambda>q c. case q of [] \<Rightarrow> None
        | b # h \<Rightarrow> if b = 7 then Some \<lparr>oe_id_version = 0, oe_unique_id = replicate 32 5,
             oe_signer_id = replicate 32 6, oe_product_id = [1], oe_security_version = 1,
             oe_attributes = 0, oe_report_data = vec_resize 64 h\<rparr> else None),
      OE_UNIQUE_ID_SIZE = 32, OE_SIGNER_ID_SIZE = 32, OE_REPORT_ATTRIBUTES_DEBUG = 1\<rparr>"

definition sample_enclave_libs :: libs where
  "sample_enclave_libs = \<lparr>l_crypto = sample_crypto, l_fb = sample_codec, l_oe = sample_oe,
     OE_BUILD_ENCLAVE = True, HAVE_OE_HOST_VERIFY = False\<rparr>"

definition sample_host_libs :: libs where
  "sample_host_libs = \<lparr>l_crypto = sample_crypto, l_fb = sample_codec, l_oe = sample_oe,
     OE_BUILD_ENCLAVE = False, HAVE_OE_HOST_VERIFY = True\<rparr>"

lemma sample_libs_simps [simp]:
  "l_crypto sample_enclave_libs = sample_crypto" "l_crypto sample_host_libs = sample_crypto"
  "l_fb sample_enclave_libs = sample_codec" "l_fb sample_host_libs = sample_codec"
  "l_oe sample_enclave_libs = sample_oe" "l_oe sample_host_libs = sample_oe"
  "OE_BUILD_ENCLAVE sample_enclave_libs" "HAVE_OE_HOST_VERIFY sample_host_libs"
  by (simp_all add: sample_enclave_libs_def sample_host_libs_def)

lemma sample_crypto_lengths [simp]: "crypto_lengths sample_crypto"
  using sample_crypto_correct by (simp add: crypto_correct_def)

end
