(* ===== verification/Environment.thy ===== *)
theory Environment
  imports Executor Key_Provider Sample_Libs
begin

text \<open>
  The enclave's model environment, \<^verbatim>\<open>ServerEnvironment\<close>
  (\<^verbatim>\<open>enclave/core/environment.cc\<close>), and the tool that writes the encrypted models it
  opens, \<^verbatim>\<open>tools/encrypt_model.cc\<close>. Of the object, the log severity, the session, the output
  names, the stored encrypted model and the model key provider are kept; spdlog's loggers and
  sinks are left out.
\<close>

section \<open>Log levels\<close>

datatype OrtLoggingLevel = ORT_LOGGING_LEVEL_VERBOSE | ORT_LOGGING_LEVEL_INFO | ORT_LOGGING_LEVEL_WARNING
  | ORT_LOGGING_LEVEL_ERROR | ORT_LOGGING_LEVEL_FATAL | ORT_LOGGING_LEVEL_other int

datatype level_enum = level_trace | level_debug | level_info | level_warn | level_err | level_critical | level_off

fun Convert :: "OrtLoggingLevel \<Rightarrow> level_enum" where
  "Convert ORT_LOGGING_LEVEL_VERBOSE = level_debug"
| "Convert ORT_LOGGING_LEVEL_INFO = level_info"
| "Convert ORT_LOGGING_LEVEL_WARNING = level_warn"
| "Convert ORT_LOGGING_LEVEL_ERROR = level_err"
| "Convert ORT_LOGGING_LEVEL_FATAL = level_critical"
| "Convert (ORT_LOGGING_LEVEL_other _) = level_off"

section \<open>The environment\<close>

record ('m, 'c) ServerEnvironment =
  env_severity :: OrtLoggingLevel
  env_log_level :: level_enum
  env_session :: "'m option"
  env_model_output_names :: "string list"
  env_encrypted_model :: bytes
  env_model_key_provider :: "'c key_provider option"

type_synonym ('m, 'c, 'a) env_comp = "(('m, 'c) ServerEnvironment, exn, 'a) comp"

definition ServerEnvironment_new :: "OrtLoggingLevel \<Rightarrow> 'c key_provider option \<Rightarrow> ('m, 'c) ServerEnvironment" where
  "ServerEnvironment_new severity model_key_provider =
     \<lparr>env_severity = severity, env_log_level = Convert severity, env_session = None,
      env_model_output_names = [], env_encrypted_model = [],
      env_model_key_provider = model_key_provider\<rparr>"

definition SetEncryptedModel :: "bytes \<Rightarrow> ('m, 'c, unit) env_comp" where
  "SetEncryptedModel model_data = cmodify (\<lambda>e. e\<lparr>env_encrypted_model := model_data\<rparr>)"

text \<open>
  \<^verbatim>\<open>InitializeModel(const uint8_t*, size_t)\<close>: the model is opened as it is, or decrypted under
  the provider's current key with the all-zero IV and the tag at its end. The output names are
  appended to those already there.
\<close>

definition open_model :: "crypto_lib \<Rightarrow> 'm ort_lib \<Rightarrow> ('m, 'c) ServerEnvironment \<Rightarrow> bytes \<Rightarrow> exn + 'm" where
  "open_model C O' e model_data =
     (case env_model_key_provider e of
        None \<Rightarrow> ort_session O' model_data
      | Some kp \<Rightarrow>
          if length model_data \<le> TAG_SIZE then Inl (RuntimeError ''Not enough encrypted model data'')
          else
            let iv = replicate IV_SIZE 0;
                cipher = take (length model_data - TAG_SIZE) model_data;
                tag = drop (length model_data - TAG_SIZE) model_data
            in rbind (Decrypt C (current_key kp) iv tag cipher [] (replicate (length cipher) 0)) (\<lambda>plain.
                 ort_session O' plain))"

definition InitializeModel :: "crypto_lib \<Rightarrow> 'm ort_lib \<Rightarrow> bytes \<Rightarrow> ('m, 'c, unit) env_comp" where
  "InitializeModel C O' model_data =
     cbind (\<lambda>e. (open_model C O' e model_data, e)) (\<lambda>m.
       cmodify (\<lambda>e. e\<lparr>env_session := Some m,
                      env_model_output_names := env_model_output_names e @ ort_output_names O' m\<rparr>))"

text \<open>\<^verbatim>\<open>InitializeModel(std::unique_ptr<KeyProvider>&&)\<close>, the one a provisioned key reaches.\<close>

definition InitializeModel_provider :: "crypto_lib \<Rightarrow> 'm ort_lib \<Rightarrow> 'c key_provider \<Rightarrow> ('m, 'c, unit) env_comp" where
  "InitializeModel_provider C O' model_key_provider =
     cbind (cget env_model_output_names) (\<lambda>names.
       if names \<noteq> [] then cthrow ModelAlreadyInitializedError
       else
         cthen (cmodify (\<lambda>e. e\<lparr>env_model_key_provider := Some model_key_provider\<rparr>))
         (cbind (cget env_encrypted_model) (\<lambda>model.
          cthen (InitializeModel C O' model)
            (cmodify (\<lambda>e. e\<lparr>env_encrypted_model := []\<rparr>)))))"

definition GetModelOutputNames :: "('m, 'c) ServerEnvironment \<Rightarrow> string list" where
  "GetModelOutputNames e = env_model_output_names e"

definition GetLogSeverity :: "('m, 'c) ServerEnvironment \<Rightarrow> OrtLoggingLevel" where
  "GetLogSeverity e = env_severity e"

definition GetSession :: "('m, 'c) ServerEnvironment \<Rightarrow> 'm option" where
  "GetSession e = env_session e"

section \<open>The encryption tool\<close>

text \<open>
  The files are a map from names to contents; \<open>can_write\<close> says which names open for writing.
  \<^verbatim>\<open>fkey >> key_hex\<close> reads one word and leaves the string alone when there is none.
\<close>

record file_system =
  fs_files :: "string \<rightharpoonup> bytes"
  fs_can_write :: "string \<Rightarrow> bool"

type_synonym 'a file_comp = "(file_system, exn, 'a) comp"

definition EncryptModelFile :: "crypto_lib \<Rightarrow> bytes \<Rightarrow> string \<Rightarrow> string \<Rightarrow> bytes file_comp" where
  "EncryptModelFile C key in_filename out_filename =
     cbind (cget (\<lambda>fs. fs_files fs in_filename)) (\<lambda>fin.
       case fin of
         None \<Rightarrow> cthrow (RuntimeError (''Can't open file: '' @ in_filename))
       | Some plain \<Rightarrow>
           cbind (clift (Encrypt C key (replicate IV_SIZE 0) plain [] [] [])) (\<lambda>(cipher, tag).
           cbind (cget (\<lambda>fs. fs_can_write fs out_filename)) (\<lambda>fout.
             if \<not> fout then cthrow (RuntimeError (''Can't open file: '' @ in_filename))
             else
               cthen (cmodify (\<lambda>fs. fs\<lparr>fs_files := (fs_files fs)(out_filename \<mapsto> cipher @ tag)\<rparr>))
                 (clift (SHA256_list C [cipher, tag] [])))))"

definition read_word :: "string \<Rightarrow> string \<Rightarrow> string" where
  "read_word contents old =
     (let w = dropWhile isspace contents in if w = [] then old else takeWhile (\<lambda>c. \<not> isspace c) w)"

definition string_of_bytes :: "bytes \<Rightarrow> string" where
  "string_of_bytes b = map (\<lambda>x. char_of (unat x)) b"

text \<open>The exit code and what is printed. \<^verbatim>\<open>catch (...)\<close> takes every exception; a fault is not one.\<close>

definition encrypt_model_main :: "crypto_lib \<Rightarrow> string list \<Rightarrow> file_system \<Rightarrow> (exn + int \<times> string) \<times> file_system" where
  "encrypt_model_main C argv fs =
     (case argv of
        [prog, key_arg, in_filename, out_filename] \<Rightarrow>
          let key_hex = (case fs_files fs key_arg of
                           None \<Rightarrow> key_arg
                         | Some contents \<Rightarrow> read_word (string_of_bytes contents) key_arg)
          in if length key_hex \<noteq> 2 * SYMMETRIC_KEY_SIZE
             then (Inr (4, ''Error: expected key size of '' @ dec_of_nat SYMMETRIC_KEY_SIZE @ '' bytes (''
                         @ dec_of_nat (2 * SYMMETRIC_KEY_SIZE) @ '' characters)''), fs)
             else
               (case cbind (clift (Hex2Buffer key_hex)) (\<lambda>key. EncryptModelFile C key in_filename out_filename) fs of
                  (Inr model_hash, fs') \<Rightarrow> (Inr (0, ''model hash: '' @ Buffer2Hex model_hash), fs')
                | (Inl e, fs') \<Rightarrow>
                    if is_Fault e then (Inl e, fs')
                    else if is_std_exception e then (Inr (2, ''Caught exception: '' @ exn_what e), fs')
                    else (Inr (2, ''Caught unknown exception''), fs'))
      | prog # _ \<Rightarrow> (Inr (1, ''Usage: '' @ prog @ '' <key|key-file> <in-file> <out-file>''), fs)
      | [] \<Rightarrow> (Inl (Fault ''no program name''), fs))"

section \<open>Text files\<close>

lemma chars_of_bytes: "map (\<lambda>x. char_of (unat x)) (bytes_of_string s) = s"
proof -
  have "char_of (unat (of_char c :: byte)) = c" for c
  proof -
    have "unat (of_nat (of_char c) :: byte) = of_char c"
      by (simp only: unat_of_nat) (simp add: unat_of_nat)
    then show ?thesis by (simp only: of_nat_of_char char_of_char)
  qed
  then show ?thesis by (simp add: bytes_of_string_def comp_def)
qed

lemma string_of_bytes_of_string [simp]: "string_of_bytes (bytes_of_string s) = s"
  by (simp add: string_of_bytes_def chars_of_bytes)

section \<open>Invariants\<close>

text \<open>
  An environment whose outputs are known has a session.
\<close>

definition env_ok :: "('m, 'c) ServerEnvironment \<Rightarrow> bool" where
  "env_ok e \<longleftrightarrow> (env_model_output_names e \<noteq> [] \<longrightarrow> env_session e \<noteq> None)"

lemma env_ok_new: "env_ok (ServerEnvironment_new sev kp)"
  by (simp add: env_ok_def ServerEnvironment_new_def)

lemma InitializeModel_cases:
  "InitializeModel C O' d e = (case open_model C O' e d of Inl x \<Rightarrow> (Inl x, e)
     | Inr m \<Rightarrow> (Inr (), e\<lparr>env_session := Some m,
                      env_model_output_names := env_model_output_names e @ ort_output_names O' m\<rparr>))"
  by (auto simp: InitializeModel_def cbind_def split: sum.splits)

lemma InitializeModel_preserves_ok: "preserves env_ok (InitializeModel C O' d)"
  by (rule preservesI) (auto simp: InitializeModel_cases env_ok_def split: sum.splits)

lemma InitializeModel_provider_cases:
  assumes "env_model_output_names e = []"
  shows "InitializeModel_provider C O' kp e =
    (let e1 = e\<lparr>env_model_key_provider := Some kp\<rparr>
     in case open_model C O' e1 (env_encrypted_model e) of
          Inl x \<Rightarrow> (Inl x, e1)
        | Inr m \<Rightarrow> (Inr (), e1\<lparr>env_session := Some m, env_model_output_names := ort_output_names O' m,
                              env_encrypted_model := []\<rparr>))"
  using assms
  by (auto simp: InitializeModel_provider_def InitializeModel_cases cthen_def cbind_def Let_def split: sum.splits)

lemma InitializeModel_provider_again:
  "env_model_output_names e \<noteq> [] \<Longrightarrow>
     InitializeModel_provider C O' kp e = (Inl ModelAlreadyInitializedError, e)"
  by (simp add: InitializeModel_provider_def)

lemma open_model_encrypted:
  assumes "aead_correct C" and "length (current_key kp) = SYMMETRIC_KEY_SIZE" and "plain \<noteq> []"
    and "env_model_key_provider e = Some kp"
    and "Encrypt C (current_key kp) (replicate IV_SIZE 0) plain [] c t = Inr (cipher, tag)"
  shows "open_model C O' e (cipher @ tag) = ort_session O' plain"
proof -
  have iv: "length (replicate IV_SIZE (0 :: byte)) = IV_SIZE" by simp
  note a = aead_correctD [OF assms(1,2) iv]
  have ct: "cipher = aead_cipher C (current_key kp) (replicate IV_SIZE 0) [] plain"
      "tag = aead_tag C (current_key kp) (replicate IV_SIZE 0) [] plain"
    using assms(5) Encrypt_ok [OF assms(1,2) iv] by auto
  with a have l: "length cipher = length plain" "length tag = TAG_SIZE" by auto
  then have "take (length (cipher @ tag) - TAG_SIZE) (cipher @ tag) = cipher"
    "drop (length (cipher @ tag) - TAG_SIZE) (cipher @ tag) = tag" by simp_all
  moreover have "\<not> length (cipher @ tag) \<le> TAG_SIZE" using l assms(3) by simp
  ultimately show ?thesis
    unfolding open_model_def using Decrypt_ok [OF assms(1,2) iv] assms(4) ct by (simp add: Let_def)
qed

section \<open>Properties\<close>

text \<open>\<^verbatim>\<open>SHA256\<close> over a list of buffers is the hash of their concatenation.\<close>

definition incremental_hash :: "crypto_lib \<Rightarrow> bool" where
  "incremental_hash C \<longleftrightarrow> (\<forall>ds. EverCrypt_Hash_Incremental C ds = EverCrypt_Hash_hash_256 C (concat ds))"

text \<open>
  C18: what \<^verbatim>\<open>encrypt_model\<close> writes, the enclave opens: when the tool exits with 0 for a key given
  in hexadecimal, an environment that holds the written file and is provisioned with that key opens
  the original model, knows its outputs and forgets the encrypted copy; and the hash the tool prints
  is the enclave's service identifier, the SHA-256 of the written file.
\<close>

theorem encrypted_model_opens:
  assumes C: "aead_correct C" "crypto_lengths C" "incremental_hash C"
    and key: "length key = SYMMETRIC_KEY_SIZE" "fs_files fs (Buffer2Hex key) = None"
    and plain: "fs_files fs in_file = Some plain" "plain \<noteq> []"
    and tool: "encrypt_model_main C [prog, Buffer2Hex key, in_file, out_file] fs = (Inr (0, out), fs')"
    and env: "env_model_output_names e = []" "env_encrypted_model e = the (fs_files fs' out_file)"
    and model: "ort_session O' plain = Inr m"
    and kp: "current_key kp = key"
  shows "\<exists>e'. InitializeModel_provider C O' kp e = (Inr (), e') \<and> env_session e' = Some m
       \<and> env_model_output_names e' = ort_output_names O' m \<and> env_encrypted_model e' = []
       \<and> (\<exists>h. SHA256 C (env_encrypted_model e) [] = Inr h \<and> out = ''model hash: '' @ Buffer2Hex h)"
proof -
  have iv: "length (replicate IV_SIZE (0 :: byte)) = IV_SIZE" by simp
  obtain cipher tag where enc: "Encrypt C key (replicate IV_SIZE 0) plain [] [] [] = Inr (cipher, tag)"
    using Encrypt_ok [OF C(1) key(1) iv] by auto
  have hex: "Hex2Buffer (Buffer2Hex key) = Inr key" "length (Buffer2Hex key) = 2 * SYMMETRIC_KEY_SIZE"
    using confmsg_hex.dec_enc confmsg_hex.enc_length key(1) by auto
  have w: "fs_files fs' out_file = Some (cipher @ tag)"
    and out: "out = ''model hash: '' @ Buffer2Hex (EverCrypt_Hash_Incremental C [cipher, tag])"
    using tool enc hex key(2) plain(1) SHA256_list_ok [OF C(2)]
    by (auto simp: encrypt_model_main_def EncryptModelFile_def cbind_def cthen_def split: if_splits)
  have "open_model C O' (e\<lparr>env_model_key_provider := Some kp\<rparr>) (env_encrypted_model e) = Inr m"
    using open_model_encrypted [OF C(1) _ plain(2), of kp "e\<lparr>env_model_key_provider := Some kp\<rparr>"] enc env(2) w key(1) kp model
    by simp
  moreover have "SHA256 C (env_encrypted_model e) [] = Inr (EverCrypt_Hash_Incremental C [cipher, tag])"
    using SHA256_ok [OF C(2)] C(3) env(2) w by (simp add: incremental_hash_def)
  ultimately show ?thesis
    using env(1) out by (simp add: InitializeModel_provider_cases Let_def)
qed

text \<open>
  C30: a model key can be provisioned at most once, and a wrong key is not the end: while no model is
  open, a provisioning attempt that fails leaves the encrypted model in place and no session, so that
  any later attempt behaves as if it were the first; once a model with outputs is open every further
  attempt is refused without a change.
\<close>

theorem model_provisioning_retry:
  assumes "InitializeModel_provider C O' kp e = (r, e')"
  shows "(env_model_output_names e \<noteq> [] \<longrightarrow> r = Inl ModelAlreadyInitializedError \<and> e' = e)
    \<and> (env_model_output_names e = [] \<longrightarrow> (\<forall>x. r = Inl x \<longrightarrow>
         env_session e' = env_session e \<and> env_encrypted_model e' = env_encrypted_model e
       \<and> InitializeModel_provider C O' kp' e' = InitializeModel_provider C O' kp' e))
    \<and> (env_model_output_names e = [] \<longrightarrow> (r = Inr () \<longrightarrow>
         env_encrypted_model e' = [] \<and> (\<exists>m. env_session e' = Some m \<and> env_model_output_names e' = ort_output_names O' m)))"
proof (cases "env_model_output_names e = []")
  case True
  then show ?thesis using assms
    by (auto simp: InitializeModel_provider_cases Let_def open_model_def split: sum.splits)
next
  case False
  then show ?thesis using assms by (simp add: InitializeModel_provider_again)
qed

section \<open>Witnesses\<close>

definition sample_model_key :: bytes where
  "sample_model_key = replicate 32 7"

definition sample_files :: file_system where
  "sample_files = \<lparr>fs_files = [''model.onnx'' \<mapsto> [1, 2, 3]], fs_can_write = (\<lambda>f. f = ''model.enc'')\<rparr>"

definition sample_model_kp :: "unit key_provider" where
  "sample_model_kp = StaticKeyProvider_new 0 0 sample_model_key Curve25519 ()"

definition sample_env :: "bytes \<Rightarrow> (unit, unit) ServerEnvironment" where
  "sample_env model = (ServerEnvironment_new ORT_LOGGING_LEVEL_FATAL None)\<lparr>env_encrypted_model := model\<rparr>"

lemma sample_incremental_hash: "incremental_hash sample_crypto"
  by (simp add: incremental_hash_def sample_crypto_def)

lemma sample_aead: "aead_correct sample_crypto"
  using sample_crypto_correct by (simp add: crypto_correct_def)

lemma sample_tool_run:
  "\<exists>out fs'. encrypt_model_main sample_crypto [''encrypt_model'', Buffer2Hex sample_model_key, ''model.onnx'', ''model.enc''] sample_files
     = (Inr (0, out), fs')"
proof -
  have k: "length sample_model_key = SYMMETRIC_KEY_SIZE" by (simp add: sample_model_key_def size_defs)
  have l: "length (Buffer2Hex sample_model_key) = 2 * SYMMETRIC_KEY_SIZE"
    using k confmsg_hex.enc_length by simp
  then have "Buffer2Hex sample_model_key \<noteq> ''model.onnx''" by (auto simp: size_defs)
  then have "fs_files sample_files (Buffer2Hex sample_model_key) = None" by (simp add: sample_files_def)
  then show ?thesis
    using k l Encrypt_ok [OF sample_aead k, of "replicate IV_SIZE 0"] SHA256_list_ok [OF sample_crypto_lengths]
    by (simp add: encrypt_model_main_def EncryptModelFile_def cbind_def cthen_def confmsg_hex.dec_enc sample_files_def)
qed

theorem encrypted_model_opens_witness:
  "\<exists>out fs' e'. encrypt_model_main sample_crypto
       [''encrypt_model'', Buffer2Hex sample_model_key, ''model.onnx'', ''model.enc''] sample_files = (Inr (0, out), fs')
   \<and> InitializeModel_provider sample_crypto echo_ort sample_model_kp
       (sample_env (the (fs_files fs' ''model.enc''))) = (Inr (), e')
   \<and> env_session e' = Some () \<and> env_model_output_names e' = [''y'']"
proof -
  obtain out fs' where t: "encrypt_model_main sample_crypto
       [''encrypt_model'', Buffer2Hex sample_model_key, ''model.onnx'', ''model.enc''] sample_files = (Inr (0, out), fs')"
    using sample_tool_run by blast
  have l: "length (Buffer2Hex sample_model_key) = 64"
    using confmsg_hex.enc_length by (simp add: sample_model_key_def)
  then have n: "Buffer2Hex sample_model_key \<noteq> ''model.onnx''" by auto
  have "\<exists>e'. InitializeModel_provider sample_crypto echo_ort sample_model_kp
       (sample_env (the (fs_files fs' ''model.enc''))) = (Inr (), e')
     \<and> env_session e' = Some () \<and> env_model_output_names e' = ort_output_names echo_ort ()"
    using encrypted_model_opens [OF sample_aead sample_crypto_lengths sample_incremental_hash _ _ _ _ t,
        of "[1, 2, 3]" "sample_env (the (fs_files fs' ''model.enc''))" echo_ort "()" sample_model_kp] n
    by (auto simp: sample_model_key_def sample_files_def size_defs sample_env_def ServerEnvironment_new_def
        echo_ort_def sample_model_kp_def StaticKeyProvider_new_def KeyProvider_new_def Let_def)
  with t show ?thesis by (auto simp: echo_ort_def)
qed

theorem model_provisioning_retry_witness:
  "\<exists>x e'. InitializeModel_provider sample_crypto echo_ort sample_model_kp (sample_env [1, 2]) = (Inl x, e')
     \<and> env_encrypted_model e' = [1, 2]
     \<and> InitializeModel_provider sample_crypto echo_ort sample_model_kp e' = (Inl x, e')"
proof -
  have "\<exists>x e'. InitializeModel_provider sample_crypto echo_ort sample_model_kp (sample_env [1, 2]) = (Inl x, e')"
    by (simp add: InitializeModel_provider_cases sample_env_def ServerEnvironment_new_def open_model_def
        TAG_SIZE_def Let_def)
  then obtain x e' where e: "InitializeModel_provider sample_crypto echo_ort sample_model_kp (sample_env [1, 2]) = (Inl x, e')"
    by blast
  with model_provisioning_retry [OF e, of sample_model_kp] show ?thesis
    by (auto simp: sample_env_def ServerEnvironment_new_def)
qed

end
