(* ===== verification/Host_Http.thy ===== *)
theory Host_Http
  imports Errors Text_Util Environment
begin

text \<open>
  The HTTP side of the host: error bodies (\<^verbatim>\<open>host/json_handling.cc\<close>), routing
  (\<^verbatim>\<open>host/core/routes.cc\<close>), contexts and sessions (\<^verbatim>\<open>context.h\<close>, \<^verbatim>\<open>session.cc\<close>), the listener and the
  application object (\<^verbatim>\<open>listener.cc\<close>, \<^verbatim>\<open>http_server.cc\<close>) and the request handler
  (\<^verbatim>\<open>host/request_handler.cc\<close>). Boost.Beast, Boost.Asio and RE2 are parameters: the pattern match, the
  payload preparation, the sockets and the results of the asynchronous operations. A header field is
  found by its name without regard to case, as Beast does.
\<close>

section \<open>JSON error bodies\<close>

definition escape_char :: "char \<Rightarrow> string" where
  "escape_char c =
     (if c = CHR 0x22 then [CHR 0x5C, CHR 0x22]
      else if c = CHR 0x5C then [CHR 0x5C, CHR 0x5C]
      else if c = CHR 0x08 then [CHR 0x5C, CHR ''b'']
      else if c = CHR 0x0C then [CHR 0x5C, CHR ''f'']
      else if c = CHR 0x0A then [CHR 0x5C, CHR ''n'']
      else if c = CHR 0x0D then [CHR 0x5C, CHR ''r'']
      else if c = CHR 0x09 then [CHR 0x5C, CHR ''t'']
      else if (of_char c :: nat) \<le> 31
      then [CHR 0x5C, CHR ''u''] @ setw_fill 4 CHR ''0'' (hex_of_nat (of_char c))
      else [c])"

definition escape_string :: "string \<Rightarrow> string" where
  "escape_string message = concat (map escape_char message)"

definition CreateJsonError :: "int \<Rightarrow> string \<Rightarrow> string" where
  "CreateJsonError error_code error_message =
     ''{'' @ [CHR 0x22] @ ''error_code'' @ [CHR 0x22] @ '': '' @ to_string error_code @ '', ''
       @ [CHR 0x22] @ ''error_message'' @ [CHR 0x22] @ '': '' @ [CHR 0x22] @ escape_string error_message
       @ [CHR 0x22] @ ''}'' @ [CHR 0x0A]"

section \<open>Requests, responses, contexts\<close>

datatype verb = verb_get | verb_post | verb_other string

type_synonym http_status = nat

abbreviation http_ok :: http_status where "http_ok \<equiv> 200"
abbreviation http_bad_request :: http_status where "http_bad_request \<equiv> 400"
abbreviation http_unauthorized :: http_status where "http_unauthorized \<equiv> 401"
abbreviation http_not_found :: http_status where "http_not_found \<equiv> 404"
abbreviation http_method_not_allowed :: http_status where "http_method_not_allowed \<equiv> 405"
abbreviation http_internal_server_error :: http_status where "http_internal_server_error \<equiv> 500"

type_synonym http_fields = "(string \<times> string) list"

record http_request =
  rq_method :: verb
  rq_target :: string
  rq_fields :: http_fields
  rq_body :: bytes
  rq_keep_alive :: bool

record http_response =
  rs_status :: http_status
  rs_fields :: http_fields
  rs_body :: bytes
  rs_keep_alive :: bool

definition empty_response :: http_response where
  "empty_response = \<lparr>rs_status = http_ok, rs_fields = [], rs_body = [], rs_keep_alive = True\<rparr>"

definition same_field :: "string \<Rightarrow> string \<Rightarrow> bool" where
  "same_field a b \<longleftrightarrow> map tolower a = map tolower b"

definition field_of :: "string \<Rightarrow> http_fields \<Rightarrow> string option" where
  "field_of name fs = map_option snd (find (\<lambda>(k, v). same_field k name) fs)"

text \<open>\<^verbatim>\<open>insert\<close> adds a field, \<^verbatim>\<open>set\<close> replaces those of the same name.\<close>

definition insert_field :: "string \<Rightarrow> string \<Rightarrow> http_response \<Rightarrow> http_response" where
  "insert_field name v r = r\<lparr>rs_fields := rs_fields r @ [(name, v)]\<rparr>"

definition set_field :: "string \<Rightarrow> string \<Rightarrow> http_response \<Rightarrow> http_response" where
  "set_field name v r = r\<lparr>rs_fields := filter (\<lambda>(k, _). \<not> same_field k name) (rs_fields r) @ [(name, v)]\<rparr>"

record HttpContext =
  cx_request :: http_request
  cx_response :: http_response
  cx_request_id :: string
  cx_client_request_id :: string
  cx_error_code :: http_status
  cx_error_message :: string

text \<open>\<^verbatim>\<open>InternalRequestId\<close> is a random UUID: its text is an argument.\<close>

definition HttpContext_new :: "string \<Rightarrow> http_request \<Rightarrow> HttpContext" where
  "HttpContext_new internal_request_id req =
     \<lparr>cx_request = req, cx_response = empty_response, cx_request_id = internal_request_id,
      cx_client_request_id = [], cx_error_code = http_internal_server_error,
      cx_error_message = ''An unknown server error has occurred''\<rparr>"

section \<open>Routes\<close>

text \<open>A handler works on the context and on the state \<open>'w\<close> of what it serves. A null function is \<open>None\<close>.\<close>

type_synonym 'w handler = "(HttpContext \<times> 'w, exn, unit) comp"

record 'w Routes =
  post_fn_table :: "(string \<times> 'w handler) list"
  get_fn_table :: "(string \<times> 'w handler) list"
  on_error :: "'w handler option"

definition Routes_new :: "'w Routes" where
  "Routes_new = \<lparr>post_fn_table = [], get_fn_table = [], on_error = None\<rparr>"

definition RegisterController :: "verb \<Rightarrow> string \<Rightarrow> 'w handler option \<Rightarrow> 'w Routes \<Rightarrow> bool \<times> 'w Routes" where
  "RegisterController method url_pattern controller r =
     (case controller of
        None \<Rightarrow> (False, r)
      | Some f \<Rightarrow>
          (case method of
             verb_get \<Rightarrow> (True, r\<lparr>get_fn_table := get_fn_table r @ [(url_pattern, f)]\<rparr>)
           | verb_post \<Rightarrow> (True, r\<lparr>post_fn_table := post_fn_table r @ [(url_pattern, f)]\<rparr>)
           | verb_other _ \<Rightarrow> (False, r)))"

definition RegisterErrorCallback :: "'w handler option \<Rightarrow> 'w Routes \<Rightarrow> bool \<times> 'w Routes" where
  "RegisterErrorCallback controller r =
     (case controller of None \<Rightarrow> (False, r) | Some f \<Rightarrow> (True, r\<lparr>on_error := Some f\<rparr>))"

fun first_match :: "(string \<Rightarrow> string \<Rightarrow> bool) \<Rightarrow> string \<Rightarrow> (string \<times> 'w handler) list \<Rightarrow> 'w handler option" where
  "first_match FullMatch url [] = None"
| "first_match FullMatch url ((pattern, f) # table) =
     (if FullMatch url pattern then Some f else first_match FullMatch url table)"

definition ParseUrl :: "(string \<Rightarrow> string \<Rightarrow> bool) \<Rightarrow> 'w Routes \<Rightarrow> verb \<Rightarrow> string \<Rightarrow> http_status + 'w handler" where
  "ParseUrl FullMatch r method url =
     (let select = (\<lambda>func_table. case func_table of
            [] \<Rightarrow> Inl http_method_not_allowed
          | _ \<Rightarrow> (case first_match FullMatch url func_table of
                    None \<Rightarrow> Inl http_not_found
                  | Some f \<Rightarrow> Inr f))
      in case method of
           verb_get \<Rightarrow> select (get_fn_table r)
         | verb_post \<Rightarrow> select (post_fn_table r)
         | verb_other _ \<Rightarrow> Inl http_method_not_allowed)"

section \<open>Sessions\<close>

definition MS_REQUEST_ID_HEADER :: string where "MS_REQUEST_ID_HEADER = ''x-ms-request-id''"
definition MS_CLIENT_REQUEST_ID_HEADER :: string where "MS_CLIENT_REQUEST_ID_HEADER = ''x-ms-client-request-id''"

fun verb_string :: "verb \<Rightarrow> string" where
  "verb_string verb_get = ''GET''"
| "verb_string verb_post = ''POST''"
| "verb_string (verb_other s) = s"

text \<open>The part of Beast and RE2 a session uses.\<close>

record http_lib =
  re2_FullMatch :: "string \<Rightarrow> string \<Rightarrow> bool"
  obsolete_reason :: "http_status \<Rightarrow> string"
  prepare_payload :: "http_response \<Rightarrow> http_response"
  need_eof :: "http_response \<Rightarrow> bool"

definition ExecuteUserFunction :: "http_lib \<Rightarrow> 'w Routes \<Rightarrow> (HttpContext \<times> 'w, exn, http_status) comp" where
  "ExecuteUserFunction H routes =
     cthen (cmodify (\<lambda>(cx, w). (case field_of MS_CLIENT_REQUEST_ID_HEADER (rq_fields (cx_request cx)) of
               None \<Rightarrow> cx
             | Some v \<Rightarrow> cx\<lparr>cx_client_request_id := v\<rparr>, w)))
     (cbind (cget (\<lambda>(cx, w). cx_request cx)) (\<lambda>request.
        case ParseUrl (re2_FullMatch H) routes (rq_method request) (rq_target request) of
          Inl status \<Rightarrow>
            cthen (cmodify (\<lambda>(cx, w). (cx\<lparr>cx_error_code := status,
                     cx_error_message := obsolete_reason H status @ ''. For HTTP method: ''
                       @ verb_string (rq_method request) @ '' and request path: '' @ rq_target request\<rparr>, w)))
              (cret status)
        | Inr func \<Rightarrow>
            ccatch (cthen func (cret http_ok))
              (\<lambda>e. if is_std_exception e
                   then cthen (cmodify (\<lambda>(cx, w). (cx\<lparr>cx_error_message := exn_what e\<rparr>, w)))
                          (cret http_internal_server_error)
                   else cthrow e)))"

definition is_liveness_probe :: "http_request \<Rightarrow> bool" where
  "is_liveness_probe r \<longleftrightarrow> rq_method r = verb_get \<and> rq_target r = ''/''"

text \<open>
  \<^verbatim>\<open>HttpSession::HandleRequest\<close> up to the call of \<^verbatim>\<open>Send\<close>; it yields the response to send.
\<close>

definition Session_HandleRequest ::
    "http_lib \<Rightarrow> 'w Routes \<Rightarrow> string \<Rightarrow> http_request \<Rightarrow> ('w, exn, http_response) comp" where
  "Session_HandleRequest H routes internal_request_id req w =
     (let cx0 = HttpContext_new internal_request_id req;
          m = (if is_liveness_probe req
               then cmodify (\<lambda>(cx, w). (cx\<lparr>cx_response := (cx_response cx)\<lparr>rs_body := bytes_of_string ''Healthy''\<rparr>\<rparr>, w))
               else cbind (ExecuteUserFunction H routes) (\<lambda>status.
                      if status \<noteq> http_ok
                      then (case on_error routes of
                              None \<Rightarrow> cthrow (OtherStdException ''bad_function_call'')
                            | Some f \<Rightarrow> f)
                      else cret ()))
      in case m (cx0, w) of
           (Inl e, (cx, w')) \<Rightarrow> (Inl e, w')
         | (Inr _, (cx, w')) \<Rightarrow>
             (Inr (prepare_payload H ((cx_response cx)\<lparr>rs_keep_alive := rq_keep_alive req\<rparr>)), w'))"

text \<open>
  The session as a state machine. A session waits for a read or a write to complete; it is closed
  after a shutdown, and gone after an error, when nothing is pending and the last reference drops.
\<close>

datatype session_state = Reading | Writing http_response | Closed | Gone

datatype read_result = ReadEndOfStream | ReadError string | ReadRequest http_request

definition body_limit :: nat where "body_limit = 25 * 1024 * 1024"

definition DoRead :: session_state where "DoRead = Reading"
definition DoClose :: session_state where "DoClose = Closed"
definition Session_Run :: session_state where "Session_Run = DoRead"

definition Send :: "http_response \<Rightarrow> session_state" where "Send msg = Writing msg"

definition OnRead :: "http_lib \<Rightarrow> 'w Routes \<Rightarrow> string \<Rightarrow> read_result \<Rightarrow> ('w, exn, session_state) comp" where
  "OnRead H routes internal_request_id ec =
     (case ec of
        ReadEndOfStream \<Rightarrow> cret DoClose
      | ReadError _ \<Rightarrow> cret Gone
      | ReadRequest req \<Rightarrow>
          cbind (Session_HandleRequest H routes internal_request_id req) (\<lambda>response. cret (Send response)))"

definition OnWrite :: "http_lib \<Rightarrow> bool \<Rightarrow> http_response \<Rightarrow> session_state" where
  "OnWrite H ec msg = (if ec then Gone else if need_eof H msg then DoClose else DoRead)"

section \<open>The request handler\<close>

text \<open>The host's \<^verbatim>\<open>ServerEnvironment\<close>; its loggers are left out.\<close>

record HostEnvironment =
  he_auth_key :: string
  he_log_level :: level_enum

definition IsAuthEnabled :: "HostEnvironment \<Rightarrow> bool" where
  "IsAuthEnabled env \<longleftrightarrow> he_auth_key env \<noteq> []"

definition GetAuthKey :: "HostEnvironment \<Rightarrow> string" where
  "GetAuthKey env = he_auth_key env"

definition GenerateErrorResponse :: "http_status \<Rightarrow> int \<Rightarrow> string \<Rightarrow> HttpContext \<Rightarrow> HttpContext" where
  "GenerateErrorResponse http_error_code app_error_code message cx =
     (let r1 = insert_field MS_REQUEST_ID_HEADER (cx_request_id cx) (cx_response cx);
          r2 = (if cx_client_request_id cx \<noteq> []
                then insert_field MS_CLIENT_REQUEST_ID_HEADER (cx_client_request_id cx) r1 else r1);
          r3 = r2\<lparr>rs_status := http_error_code,
                  rs_body := bytes_of_string (CreateJsonError app_error_code message)\<rparr>
      in cx\<lparr>cx_response := set_field ''Content-Type'' ''application/json'' r3\<rparr>)"

definition authorized :: "HostEnvironment \<Rightarrow> http_request \<Rightarrow> bool" where
  "authorized env req \<longleftrightarrow>
     (case field_of ''Authorization'' (rq_fields req) of
        None \<Rightarrow> False
      | Some v \<Rightarrow> v = ''Bearer '' @ GetAuthKey env)"

text \<open>
  \<^verbatim>\<open>enclave.HandleRequest\<close> is an argument: it takes the request identifier, the request type and the
  body, and yields the output or throws.
\<close>

type_synonym 'w enclave_call = "string \<Rightarrow> byte \<Rightarrow> bytes \<Rightarrow> ('w, exn, bytes) comp"

definition SuccessResponse :: "bytes \<Rightarrow> HttpContext \<Rightarrow> HttpContext" where
  "SuccessResponse response_body cx =
     (let r1 = set_field ''Content-Type'' ''application/octet-stream'' (cx_response cx);
          r2 = insert_field MS_REQUEST_ID_HEADER (cx_request_id cx) r1;
          r3 = (if cx_client_request_id cx \<noteq> []
                then insert_field MS_CLIENT_REQUEST_ID_HEADER (cx_client_request_id cx) r2 else r2)
      in cx\<lparr>cx_response := r3\<lparr>rs_body := response_body, rs_status := http_ok\<rparr>\<rparr>)"

definition Host_HandleRequest :: "HostEnvironment \<Rightarrow> 'w enclave_call \<Rightarrow> byte \<Rightarrow> 'w handler" where
  "Host_HandleRequest env enclave request_type = (\<lambda>(cx, w).
     if IsAuthEnabled env \<and> \<not> authorized env (cx_request cx)
     then (Inr (), (GenerateErrorResponse http_unauthorized (- 1) ''Invalid authorization key'' cx, w))
     else
       (case enclave (cx_request_id cx) request_type (rq_body (cx_request cx)) w of
          (Inr out, w') \<Rightarrow> (Inr (), (SuccessResponse out cx, w'))
        | (Inl (EnclaveSDKError m), w') \<Rightarrow>
            (Inr (), (GenerateErrorResponse http_internal_server_error (- 1) (exn_what (EnclaveSDKError m)) cx, w'))
        | (Inl (EnclaveCallError status), w') \<Rightarrow>
            (Inr (), (GenerateErrorResponse http_bad_request status (exn_what (EnclaveCallError status)) cx, w'))
        | (Inl e, w') \<Rightarrow> (Inl e, (cx, w'))))"

section \<open>The application\<close>

record Details =
  d_address :: string
  d_port :: "16 word"
  d_threads :: int

type_synonym 'w start_fn = "Details \<Rightarrow> ('w, exn, unit) comp"

record 'w App =
  app_routes :: "'w Routes"
  app_on_start :: "'w start_fn option"
  app_http_details :: Details

definition App_new :: "int \<Rightarrow> 'w App" where
  "App_new hardware_concurrency =
     \<lparr>app_routes = Routes_new, app_on_start = None,
      app_http_details = \<lparr>d_address = ''0.0.0.0'', d_port = 8001, d_threads = hardware_concurrency\<rparr>\<rparr>"

definition App_Bind :: "string \<Rightarrow> 16 word \<Rightarrow> 'w App \<Rightarrow> 'w App" where
  "App_Bind address port a =
     a\<lparr>app_http_details := (app_http_details a)\<lparr>d_address := address, d_port := port\<rparr>\<rparr>"

definition App_NumThreads :: "int \<Rightarrow> 'w App \<Rightarrow> 'w App" where
  "App_NumThreads threads a = a\<lparr>app_http_details := (app_http_details a)\<lparr>d_threads := threads\<rparr>\<rparr>"

definition App_RegisterStartup :: "'w start_fn \<Rightarrow> 'w App \<Rightarrow> 'w App" where
  "App_RegisterStartup on_start a = a\<lparr>app_on_start := Some on_start\<rparr>"

definition App_RegisterPost :: "string \<Rightarrow> 'w handler \<Rightarrow> 'w App \<Rightarrow> 'w App" where
  "App_RegisterPost route fn a = a\<lparr>app_routes := snd (RegisterController verb_post route (Some fn) (app_routes a))\<rparr>"

definition App_RegisterError :: "'w handler \<Rightarrow> 'w App \<Rightarrow> 'w App" where
  "App_RegisterError fn a = a\<lparr>app_routes := snd (RegisterErrorCallback (Some fn) (app_routes a))\<rparr>"

text \<open>
  The listener. The results of the acceptor's operations are an argument, in the order of the
  calls; an error ends the initialisation.
\<close>

record acceptor =
  acc_open :: bool
  acc_set_option :: bool
  acc_bind :: bool
  acc_listen :: bool

datatype listener_state = Listener_idle | Listener_open | Listener_accepting

definition Listener_Init :: "acceptor \<Rightarrow> bool \<times> listener_state" where
  "Listener_Init acc =
     (if \<not> acc_open acc then (False, Listener_idle)
      else if \<not> acc_set_option acc then (False, Listener_open)
      else if \<not> acc_bind acc then (False, Listener_open)
      else if \<not> acc_listen acc then (False, Listener_open)
      else (True, Listener_open))"

definition Listener_Run :: "listener_state \<Rightarrow> bool \<times> listener_state" where
  "Listener_Run s = (if s = Listener_idle then (False, s) else (True, Listener_accepting))"

text \<open>Each accepted connection starts a session; an error does not; either way the listener goes on.\<close>

definition OnAccept :: "bool \<Rightarrow> session_state list \<Rightarrow> session_state list \<times> listener_state" where
  "OnAccept ec sessions = (if ec then sessions else sessions @ [Session_Run], Listener_accepting)"

text \<open>
  \<^verbatim>\<open>App::Run\<close>: \<open>None\<close> is \<^verbatim>\<open>exit(EXIT_FAILURE)\<close>, otherwise the number of threads that run the I/O
  loop. \<^verbatim>\<open>reserve\<close> takes its argument as an unsigned number: a negative one throws.
\<close>

definition App_Run :: "acceptor \<Rightarrow> 'w App \<Rightarrow> ('w, exn, nat option) comp" where
  "App_Run acc a =
     (case Listener_Init acc of
        (False, _) \<Rightarrow> cret None
      | (True, s) \<Rightarrow>
          (case Listener_Run s of
             (False, _) \<Rightarrow> cret None
           | (True, _) \<Rightarrow>
               cthen (case app_on_start a of
                        None \<Rightarrow> cthrow (OtherStdException ''bad_function_call'')
                      | Some on_start \<Rightarrow> on_start (app_http_details a))
               (let threads = d_threads (app_http_details a)
                in if threads - 1 < 0 then cthrow (OtherStdException ''vector::reserve'')
                   else cret (Some (nat (threads - 1) + 1)))))"

section \<open>JSON bodies are well formed\<close>

text \<open>A JSON string after RFC 8259, read up to the quote that ends it: the value and the rest; \<open>None\<close> is
  a malformed string.\<close>

definition json_letters :: "(char \<times> char) list" where
  "json_letters = [(CHR 0x22, CHR 0x22), (CHR 0x5C, CHR 0x5C), (CHR ''/'', CHR ''/''), (CHR ''b'', CHR 0x08),
     (CHR ''f'', CHR 0x0C), (CHR ''n'', CHR 0x0A), (CHR ''r'', CHR 0x0D), (CHR ''t'', CHR 0x09)]"

definition hex4 :: "string \<Rightarrow> nat option" where
  "hex4 ds = (if list_all (is_digit_in 16) ds then Some (digits_value 16 ds) else None)"

fun json_read_string :: "string \<Rightarrow> (string \<times> string) option" where
  "json_read_string [] = None"
| "json_read_string (c # s) =
     (if c = CHR 0x22 then Some ([], s)
      else if c = CHR 0x5C
      then (case s of
              [] \<Rightarrow> None
            | e # t \<Rightarrow>
                if e = CHR ''u''
                then (if length t < 4 then None
                      else (case hex4 (take 4 t) of
                              None \<Rightarrow> None
                            | Some n \<Rightarrow> map_option (apfst ((#) (char_of n))) (json_read_string (drop 4 t))))
                else (case map_of json_letters e of
                        None \<Rightarrow> None
                      | Some d \<Rightarrow> map_option (apfst ((#) d)) (json_read_string t)))
      else if (of_char c :: nat) < 32 then None
      else map_option (apfst ((#) c)) (json_read_string s))"

declare json_read_string.simps(2) [simp del]

lemma json_read_string_quote [simp]: "json_read_string (CHR 0x22 # s) = Some ([], s)"
  by (simp add: json_read_string.simps(2))

text \<open>The forms of an escape: a letter from the table, four digits, or the character itself.\<close>

definition escaped_as :: "char \<Rightarrow> string \<Rightarrow> bool" where
  "escaped_as c e \<longleftrightarrow>
     (case e of
        [b, l] \<Rightarrow> b = CHR 0x5C \<and> l \<noteq> CHR ''u'' \<and> map_of json_letters l = Some c
      | [b, u, d1, d2, d3, d4] \<Rightarrow> b = CHR 0x5C \<and> u = CHR ''u'' \<and> hex4 [d1, d2, d3, d4] = Some (of_char c)
      | [d] \<Rightarrow> d = c \<and> c \<noteq> CHR 0x5C \<and> c \<noteq> CHR 0x22 \<and> 32 \<le> (of_char c :: nat)
      | _ \<Rightarrow> False)"

lemma json_read_string_letter:
  "l \<noteq> CHR ''u'' \<Longrightarrow> map_of json_letters l = Some c
     \<Longrightarrow> json_read_string (CHR 0x5C # l # s) = map_option (apfst ((#) c)) (json_read_string s)"
  by (simp add: json_read_string.simps(2))

lemma json_read_string_digits:
  "hex4 [d1, d2, d3, d4] = Some (of_char c)
     \<Longrightarrow> json_read_string (CHR 0x5C # CHR ''u'' # d1 # d2 # d3 # d4 # s) = map_option (apfst ((#) c)) (json_read_string s)"
  by (simp add: json_read_string.simps(2))

lemma json_read_string_escaped:
  assumes "escaped_as c e"
  shows "json_read_string (e @ s) = map_option (apfst ((#) c)) (json_read_string s)"
proof -
  consider (plain) "e = [c]" "c \<noteq> CHR 0x5C" "c \<noteq> CHR 0x22" "32 \<le> (of_char c :: nat)"
    | (letter) l where "e = [CHR 0x5C, l]" "l \<noteq> CHR ''u''" "map_of json_letters l = Some c"
    | (digits) d1 d2 d3 d4 where "e = [CHR 0x5C, CHR ''u'', d1, d2, d3, d4]" "hex4 [d1, d2, d3, d4] = Some (of_char c)"
    using assms unfolding escaped_as_def by (auto split: list.splits)
  then show ?thesis
    by cases (simp_all add: json_read_string_letter json_read_string_digits json_read_string.simps(2) [of c])
qed

lemma hex4_two_digits:
  assumes "a < 16" and "b < 16"
  shows "hex4 [CHR ''0'', CHR ''0'', digit_char a, digit_char b] = Some (16 * a + b)"
  using assms is_digit_in_digit_char [of 0 16] digit_value_digit_char [of 0]
  by (simp add: hex4_def digits_value_def)

lemma setw_fill_two_digits:
  assumes "n < (256 :: nat)"
  shows "setw_fill 4 CHR ''0'' (hex_of_nat n) = [CHR ''0'', CHR ''0'', digit_char (n div 16), digit_char (n mod 16)]"
proof (cases "n < 16")
  case True
  then show ?thesis by (simp add: setw_fill_def hex_of_nat_def numeral_3_eq_3)
next
  case False
  with assms show ?thesis
    by (simp add: setw_fill_def hex_of_nat_def digits_base_step numeral_2_eq_2)
qed

lemma escape_char_escaped: "escaped_as c (escape_char c)"
proof (cases "(of_char c :: nat) \<le> 31")
  case True
  then have "hex4 (setw_fill 4 CHR ''0'' (hex_of_nat (of_char c))) = Some (of_char c)"
    by (simp add: setw_fill_two_digits hex4_two_digits)
  with True show ?thesis
    by (simp add: escape_char_def escaped_as_def json_letters_def setw_fill_two_digits)
next
  case False
  then show ?thesis by (auto simp: escape_char_def escaped_as_def json_letters_def)
qed

lemma json_read_string_escape_string:
  "json_read_string (escape_string m @ s) = map_option (apfst ((@) m)) (json_read_string s)"
  by (induction m) (simp_all add: escape_string_def json_read_string_escaped [OF escape_char_escaped] option.map_comp
      o_def apfst_def map_prod_def case_prod_beta option.map_ident)

text \<open>
  A client that parses an error body finds the message as it was, whatever characters it has:
  the string that starts after the key ends at the closing quote of the body and nowhere before it.
\<close>

theorem error_body_roundtrip:
  "\<exists>body. CreateJsonError code m
       = ''{'' @ [CHR 0x22] @ ''error_code'' @ [CHR 0x22] @ '': '' @ to_string code @ '', ''
         @ [CHR 0x22] @ ''error_message'' @ [CHR 0x22] @ '': '' @ CHR 0x22 # body
     \<and> json_read_string body = Some (m, ''}'' @ [CHR 0x0A])"
  by (simp add: CreateJsonError_def json_read_string_escape_string)

section \<open>A session answers its requests one after the other\<close>

text \<open>
  The events of a session: a read completes, or a write does, with or without an error. Beast reports
  an error instead of a request whose body is over the limit.
\<close>

datatype session_event = Read_done string read_result | Write_done bool

fun session_step ::
    "http_lib \<Rightarrow> 'w Routes \<Rightarrow> session_event \<Rightarrow> session_state \<times> 'w \<Rightarrow> ((exn + session_state) \<times> 'w) option" where
  "session_step H routes (Read_done internal_request_id ec) (Reading, w) = Some (OnRead H routes internal_request_id ec w)"
| "session_step H routes (Write_done ec) (Writing msg, w) = Some (Inr (OnWrite H ec msg), w)"
| "session_step H routes _ _ = None"

fun event_possible :: "session_event \<Rightarrow> bool" where
  "event_possible (Read_done _ (ReadRequest req)) \<longleftrightarrow> length (rq_body req) \<le> body_limit"
| "event_possible _ \<longleftrightarrow> True"

text \<open>
  A run of a session from the world \<open>w0\<close>: the requests it has read, with their identifiers, the responses it has
  started to write, and where it is.
\<close>

inductive session_run ::
    "http_lib \<Rightarrow> 'w Routes \<Rightarrow> 'w \<Rightarrow> (string \<times> http_request) list \<Rightarrow> http_response list \<Rightarrow> session_state \<Rightarrow> 'w \<Rightarrow> bool"
  for H :: http_lib and routes :: "'w Routes" and w0 :: 'w where
  session_starts: "session_run H routes w0 [] [] Session_Run w0"
| session_answers: "session_run H routes w0 reqs resps st w \<Longrightarrow> event_possible (Read_done i (ReadRequest req)) \<Longrightarrow>
    session_step H routes (Read_done i (ReadRequest req)) (st, w) = Some (Inr (Writing resp), w') \<Longrightarrow>
    session_run H routes w0 (reqs @ [(i, req)]) (resps @ [resp]) (Writing resp) w'"
| session_read_ends: "session_run H routes w0 reqs resps st w \<Longrightarrow> \<forall>req. ec \<noteq> ReadRequest req \<Longrightarrow>
    session_step H routes (Read_done i ec) (st, w) = Some (Inr st', w') \<Longrightarrow>
    session_run H routes w0 reqs resps st' w'"
| session_written: "session_run H routes w0 reqs resps st w \<Longrightarrow>
    session_step H routes (Write_done ec) (st, w) = Some (Inr st', w') \<Longrightarrow>
    session_run H routes w0 reqs resps st' w'"

text \<open>The abstract service: each request is handled on what the one before left.\<close>

fun serve :: "http_lib \<Rightarrow> 'w Routes \<Rightarrow> (string \<times> http_request) list \<Rightarrow> ('w, exn, http_response list) comp" where
  "serve H routes [] = cret []"
| "serve H routes ((i, req) # reqs) =
     cbind (Session_HandleRequest H routes i req) (\<lambda>resp. cbind (serve H routes reqs) (\<lambda>resps. cret (resp # resps)))"

lemma serve_snoc:
  "serve H routes reqs w = (Inr resps, w') \<Longrightarrow> Session_HandleRequest H routes i req w' = (Inr resp, w'')
     \<Longrightarrow> serve H routes (reqs @ [(i, req)]) w = (Inr (resps @ [resp]), w'')"
  by (induction reqs arbitrary: w resps)
     (auto simp: cbind_def cret_def split: prod.splits sum.splits)

lemma session_read_request:
  "session_step H routes (Read_done i (ReadRequest req)) (st, w) = Some (Inr st', w') \<longleftrightarrow>
     st = Reading \<and> (\<exists>resp. Session_HandleRequest H routes i req w = (Inr resp, w') \<and> st' = Writing resp)"
  by (cases st) (auto simp: OnRead_def Send_def cbind_Inr_iff cret_def)

lemma session_read_end:
  "\<forall>req. ec \<noteq> ReadRequest req \<Longrightarrow> session_step H routes (Read_done i ec) (st, w) = Some (Inr st', w') \<longleftrightarrow>
     st = Reading \<and> w' = w \<and> st' = (if ec = ReadEndOfStream then Closed else Gone)"
  by (cases st; cases ec) (auto simp: OnRead_def DoClose_def cret_def)

lemma session_write_end:
  "session_step H routes (Write_done ec) (st, w) = Some (Inr st', w') \<longleftrightarrow>
     (\<exists>msg. st = Writing msg \<and> st' = OnWrite H ec msg \<and> w' = w)"
  by (cases st) auto

lemmas session_events = session_read_request session_read_end session_write_end

text \<open>
  C15: a session refines the abstract service. It reads the next request only after the last
  response has been written and did not end the connection, so at every moment its responses are, in order, those
  of the service to the requests it has read, and the world is the one the service leaves. No body is over the limit.
\<close>

theorem session_answers_in_order:
  assumes "session_run H routes w0 reqs resps st w"
  shows "serve H routes reqs w0 = (Inr resps, w)
    \<and> (\<forall>(i, req) \<in> set reqs. length (rq_body req) \<le> body_limit)
    \<and> (\<forall>resp \<in> set (butlast resps). \<not> need_eof H resp)
    \<and> (\<forall>msg. st = Writing msg \<longrightarrow> resps \<noteq> [] \<and> last resps = msg)
    \<and> (st = Reading \<longrightarrow> (\<forall>resp \<in> set resps. \<not> need_eof H resp))"
  using assms
proof induction
  case session_starts
  then show ?case by (simp add: cret_def Session_Run_def DoRead_def)
next
  case (session_answers reqs resps st w i req resp w')
  then show ?case by (auto simp: session_read_request intro: serve_snoc)
next
  case (session_read_ends reqs resps st w ec i st' w')
  then show ?case by (simp add: session_read_end)
next
  case (session_written reqs resps st w ec st' w')
  then obtain msg where m: "st = Writing msg" "st' = OnWrite H ec msg" "w' = w" by (auto simp: session_write_end)
  have "\<forall>resp \<in> set resps. \<not> need_eof H resp" if "st' = Reading"
  proof -
    have "\<not> need_eof H msg" using that m(2) by (auto simp: OnWrite_def DoClose_def split: if_splits)
    moreover have "set resps = insert msg (set (butlast resps))"
      using session_written.IH m(1) by (metis append_butlast_last_id list.set(2) rotate1.simps(2) set_rotate1)
    ultimately show ?thesis using session_written.IH by auto
  qed
  moreover have "\<And>x. st' \<noteq> Writing x" using m(2) by (auto simp: OnWrite_def DoClose_def DoRead_def)
  ultimately show ?case using session_written.IH m(3) by simp
qed

section \<open>What a handler needs of the enclave\<close>

lemma field_ops_simps [simp]:
  "rs_status (insert_field n v r) = rs_status r" "rs_body (insert_field n v r) = rs_body r"
  "rs_status (set_field n v r) = rs_status r" "rs_body (set_field n v r) = rs_body r"
  by (simp_all add: insert_field_def set_field_def)

lemma GenerateErrorResponse_simps [simp]:
  "rs_status (cx_response (GenerateErrorResponse s a m cx)) = s"
  "rs_body (cx_response (GenerateErrorResponse s a m cx)) = bytes_of_string (CreateJsonError a m)"
  by (simp_all add: GenerateErrorResponse_def Let_def)

lemma SuccessResponse_simps [simp]:
  "rs_status (cx_response (SuccessResponse b cx)) = http_ok" "rs_body (cx_response (SuccessResponse b cx)) = b"
  by (simp_all add: SuccessResponse_def Let_def)

lemma authorized_iff:
  "authorized env req \<longleftrightarrow> field_of ''Authorization'' (rq_fields req) = Some (''Bearer '' @ he_auth_key env)"
  by (simp add: authorized_def GetAuthKey_def split: option.splits)

text \<open>The context after the identifier of the client has been read.\<close>

definition request_context :: "string \<Rightarrow> http_request \<Rightarrow> HttpContext" where
  "request_context i req =
     (case field_of MS_CLIENT_REQUEST_ID_HEADER (rq_fields req) of
        None \<Rightarrow> HttpContext_new i req
      | Some v \<Rightarrow> (HttpContext_new i req)\<lparr>cx_client_request_id := v\<rparr>)"

lemma cx_request_new [simp]: "cx_request (HttpContext_new i req) = req" by (simp add: HttpContext_new_def)

lemma request_context_simps [simp]:
  "cx_request (request_context i req) = req" "cx_request_id (request_context i req) = i"
  by (simp_all add: request_context_def HttpContext_new_def split: option.splits)

lemma ExecuteUserFunction_eq:
  "ExecuteUserFunction H routes (HttpContext_new i req, w) =
     (case ParseUrl (re2_FullMatch H) routes (rq_method req) (rq_target req) of
        Inl status \<Rightarrow> (Inr status, ((request_context i req)\<lparr>cx_error_code := status,
            cx_error_message := obsolete_reason H status @ ''. For HTTP method: '' @ verb_string (rq_method req)
              @ '' and request path: '' @ rq_target req\<rparr>, w))
      | Inr func \<Rightarrow> ccatch (cthen func (cret http_ok))
          (\<lambda>e. if is_std_exception e
               then cthen (cmodify (\<lambda>(cx, w). (cx\<lparr>cx_error_message := exn_what e\<rparr>, w))) (cret http_internal_server_error)
               else cthrow e) (request_context i req, w))"
  by (cases "field_of MS_CLIENT_REQUEST_ID_HEADER (rq_fields req)"; cases "ParseUrl (re2_FullMatch H) routes (rq_method req) (rq_target req)")
     (simp_all add: ExecuteUserFunction_def cthen_def cbind_def cmodify_def cget_def cret_def request_context_def)

text \<open>The answer of an existing route, from what the enclave answers.\<close>

definition backend_answer ::
    "'w enclave_call \<Rightarrow> HostEnvironment \<Rightarrow> string \<Rightarrow> byte \<Rightarrow> http_request \<Rightarrow> 'w \<Rightarrow> http_status \<times> bytes \<times> 'w" where
  "backend_answer call env i rt req w =
     (if he_auth_key env \<noteq> [] \<and> field_of ''Authorization'' (rq_fields req) \<noteq> Some (''Bearer '' @ he_auth_key env)
      then (401, bytes_of_string (CreateJsonError (- 1) ''Invalid authorization key''), w)
      else (case call i rt (rq_body req) w of
              (Inr out, w') \<Rightarrow> (200, out, w')
            | (Inl (EnclaveCallError s), w') \<Rightarrow> (400, bytes_of_string (CreateJsonError s (''Code: '' @ to_string s)), w')
            | (Inl e, w') \<Rightarrow> (500, bytes_of_string (CreateJsonError (- 1) (exn_what e)), w')))"

text \<open>The handler catches two kinds of exception; the enclave object promises that no other leaves it.\<close>

locale enclave_backend =
  fixes call :: "'w enclave_call"
  assumes only_call_errors:
    "call i rt body w = (Inl e, w') \<Longrightarrow> (\<exists>t. e = EnclaveSDKError t) \<or> (\<exists>s. e = EnclaveCallError s)"
begin

lemma handler_answers:
  "\<exists>cx' w'. Host_HandleRequest env call rt (cx, w) = (Inr (), (cx', w'))
     \<and> backend_answer call env (cx_request_id cx) rt (cx_request cx) w
       = (rs_status (cx_response cx'), rs_body (cx_response cx'), w')"
proof (cases "IsAuthEnabled env \<and> \<not> authorized env (cx_request cx)")
  case True
  then show ?thesis by (simp add: Host_HandleRequest_def backend_answer_def authorized_iff IsAuthEnabled_def)
next
  case False
  obtain r w' where e: "call (cx_request_id cx) rt (rq_body (cx_request cx)) w = (r, w')" by (metis surj_pair)
  with only_call_errors [of "cx_request_id cx" rt "rq_body (cx_request cx)" w _ w'] False show ?thesis
    by (cases r) (auto simp: Host_HandleRequest_def backend_answer_def authorized_iff IsAuthEnabled_def)
qed

lemma handler_returns: "\<exists>s. Host_HandleRequest env call rt (cx, w) = (Inr (), s)"
  using handler_answers [of env rt cx w] by blast

end

text \<open>
  Routes whose handlers always return, with an error callback that does: then every request is answered, and
  no session ends with an exception.
\<close>

locale total_routes =
  fixes H :: http_lib and routes :: "'w Routes"
  assumes handlers_return: "(p, f) \<in> set (post_fn_table routes @ get_fn_table routes) \<Longrightarrow> \<exists>s. f (cx, w) = (Inr (), s)"
    and error_returns: "\<exists>f. on_error routes = Some f \<and> (\<forall>cx w. \<exists>s. f (cx, w) = (Inr (), s))"
begin

lemma first_match_mem: "first_match M url table = Some f \<Longrightarrow> \<exists>p. (p, f) \<in> set table"
  by (induction M url table rule: first_match.induct) (auto split: if_splits)

lemma parsed_returns: "ParseUrl M routes v url = Inr f \<Longrightarrow> \<exists>s. f (cx, w) = (Inr (), s)"
  using first_match_mem [of M url "post_fn_table routes" f] first_match_mem [of M url "get_fn_table routes" f]
    handlers_return
  by (cases v) (fastforce simp: ParseUrl_def Let_def split: list.splits option.splits)+

lemma execute_returns: "\<exists>status s. ExecuteUserFunction H routes (HttpContext_new i req, w) = (Inr status, s)"
proof (cases "ParseUrl (re2_FullMatch H) routes (rq_method req) (rq_target req)")
  case (Inr f)
  with parsed_returns [OF Inr, of "request_context i req" w] show ?thesis
    by (auto simp: ExecuteUserFunction_eq ccatch_def cthen_def cbind_def cret_def)
qed (simp add: ExecuteUserFunction_eq)

lemma request_answered: "\<exists>resp w'. Session_HandleRequest H routes i req w = (Inr resp, w')"
proof -
  obtain status s where e: "ExecuteUserFunction H routes (HttpContext_new i req, w) = (Inr status, s)"
    using execute_returns by blast
  obtain f where f: "on_error routes = Some f" "\<And>cx w. \<exists>s. f (cx, w) = (Inr (), s)" using error_returns by blast
  obtain s' where "f s = (Inr (), s')" using f(2) by (metis surj_pair)
  with e f(1) show ?thesis
    by (auto simp: Session_HandleRequest_def cbind_def cret_def cmodify_def Let_def split: prod.splits)
qed

lemma read_handled: "\<exists>st w'. OnRead H routes i ec w = (Inr st, w')"
proof (cases ec)
  case (ReadRequest req)
  with request_answered [of i req w] show ?thesis by (auto simp: OnRead_def cbind_def cret_def)
qed (simp_all add: OnRead_def cret_def)

lemma session_never_throws:
  assumes "session_step H routes ev (st, w) = Some (r, w')"
  shows "\<exists>st'. r = Inr st'"
proof (cases ev)
  case (Read_done i ec)
  with assms read_handled [of i ec w] show ?thesis by (cases st) auto
next
  case (Write_done ec)
  with assms show ?thesis by (cases st) auto
qed

lemma serve_returns: "\<exists>resps w'. serve H routes reqs w = (Inr resps, w')"
proof (induction reqs arbitrary: w)
  case (Cons p reqs)
  obtain resp w1 where "Session_HandleRequest H routes (fst p) (snd p) w = (Inr resp, w1)" using request_answered by blast
  moreover obtain resps w2 where "serve H routes reqs w1 = (Inr resps, w2)" using Cons.IH by blast
  ultimately show ?case by (cases p) (simp add: cbind_def cret_def)
qed (simp add: cret_def)

end

definition sample_http :: http_lib where
  "sample_http = \<lparr>re2_FullMatch = (=), obsolete_reason = (\<lambda>s. if s = 404 then ''Not Found'' else ''Method Not Allowed''),
     prepare_payload = (\<lambda>r. r), need_eof = (\<lambda>r. \<not> rs_keep_alive r)\<rparr>"

definition sample_probe :: "bool \<Rightarrow> http_request" where
  "sample_probe keep_alive =
     \<lparr>rq_method = verb_get, rq_target = ''/'', rq_fields = [], rq_body = [], rq_keep_alive = keep_alive\<rparr>"

definition healthy :: "bool \<Rightarrow> http_response" where
  "healthy keep_alive = empty_response\<lparr>rs_body := bytes_of_string ''Healthy'', rs_keep_alive := keep_alive\<rparr>"

lemma Session_HandleRequest_probe:
  "Session_HandleRequest sample_http routes i (sample_probe k) w = (Inr (healthy k), w)"
  by (simp add: Session_HandleRequest_def is_liveness_probe_def sample_probe_def cmodify_def HttpContext_new_def
      healthy_def empty_response_def sample_http_def)

lemma sample_session:
  "session_run sample_http routes w0 [(i, sample_probe True), (j, sample_probe False)] [healthy True, healthy False]
     (Writing (healthy False)) w0"
proof -
  have "session_run sample_http routes w0 ([] @ [(i, sample_probe True)]) ([] @ [healthy True]) (Writing (healthy True)) w0"
    by (rule session_answers [OF session_starts])
       (simp_all only: session_read_request Session_HandleRequest_probe event_possible.simps,
        simp_all add: Session_Run_def DoRead_def sample_probe_def)
  then have "session_run sample_http routes w0 ([] @ [(i, sample_probe True)]) ([] @ [healthy True]) Reading w0"
    by (rule session_written [where ec = False])
       (simp add: OnWrite_def sample_http_def healthy_def DoRead_def)
  from session_answers [OF this, where i = j and req = "sample_probe False" and resp = "healthy False" and w' = w0]
  show ?thesis
    by (simp only: session_read_request Session_HandleRequest_probe event_possible.simps) (simp add: sample_probe_def)
qed

theorem session_answers_in_order_witness:
  "session_run sample_http (Routes_new :: unit Routes) () [(''a'', sample_probe True), (''b'', sample_probe False)]
       [healthy True, healthy False] (Writing (healthy False)) ()
   \<and> serve sample_http Routes_new [(''a'', sample_probe True), (''b'', sample_probe False)] ()
     = (Inr [healthy True, healthy False], ())"
  using session_answers_in_order [OF sample_session [of Routes_new "()" "''a''" "''b''"]]
  by (simp add: sample_session)

end
