(* ===== verification/Host_Config.thy ===== *)
theory Host_Config
  imports Host_Http
begin

text \<open>
  The configuration of the server, \<^verbatim>\<open>host/server_configuration.h\<close>. Boost.Program_options is a parameter:
  how the environment and the command line are parsed, what they store, and what \<^verbatim>\<open>notify\<close> writes into
  the variables bound to the options.
\<close>

datatype ParseResult = ExitSuccess | ExitFailure | ContinueSuccess

definition supported_log_levels :: "(string \<times> level_enum) list" where
  "supported_log_levels =
     [(''verbose'', level_debug), (''info'', level_info), (''warning'', level_warn), (''error'', level_err),
      (''fatal'', level_critical)]"

section \<open>Options from environment variables\<close>

text \<open>The option names of the description, as its constructor adds them.\<close>

definition server_options :: "string list" where
  "server_options =
     [''help'', ''log-level'', ''enclave-path'', ''model-path'', ''address'', ''http-port'', ''auth-key'',
      ''key-rollover-interval'', ''key-sync-interval'', ''key-error-retry-interval'', ''num-http-threads'',
      ''use-model-key-provisioning'', ''use-akv'', ''akv-app-id'', ''akv-app-pwd'', ''akv-vault-url'',
      ''akv-service-key-name'', ''akv-model-key-name'', ''akv-attestation-url'', ''debug'', ''simulation'']"

text \<open>The names that \<^verbatim>\<open>find_nothrow\<close> knows: the short name of \<^verbatim>\<open>help\<close> is kept with its hyphen.\<close>

definition option_names :: "string list" where
  "option_names = server_options @ [''-h'']"

text \<open>The empty string is a variable that is not an option. The messages on the console are left out.\<close>

definition env_name_mapper :: "string list \<Rightarrow> string \<Rightarrow> string \<Rightarrow> string" where
  "env_name_mapper desc prefix s =
     (if take (length prefix) s \<noteq> prefix then []
      else let rest = drop (length prefix) s
           in if rest = [] then []
              else let result = map (\<lambda>c. if c = CHR ''_'' then CHR ''-'' else c) (map tolower rest)
                   in if result \<notin> set desc then [] else result)"

section \<open>The configuration\<close>

text \<open>An \<^verbatim>\<open>int\<close> of the source is an \<^typ>\<open>int\<close>; the parser yields only values that fit.\<close>

record ServerConfiguration =
  cf_enclave_path :: string
  cf_model_path :: string
  cf_key_rollover_interval_seconds :: int
  cf_key_sync_interval_seconds :: int
  cf_key_error_retry_interval_seconds :: int
  cf_address :: string
  cf_http_port :: int
  cf_auth_key :: string
  cf_num_http_threads :: int
  cf_logging_level :: level_enum
  cf_debug :: bool
  cf_simulation :: bool
  cf_use_akv :: bool
  cf_use_model_key_provisioning :: bool
  cf_akv_app_id :: string
  cf_akv_app_pwd :: string
  cf_akv_vault_url :: string
  cf_akv_service_key_name :: string
  cf_akv_model_key_name :: string
  cf_akv_attestation_url :: string
  cf_log_level_str :: string

definition ServerConfiguration_new :: "int \<Rightarrow> ServerConfiguration" where
  "ServerConfiguration_new hardware_concurrency =
     \<lparr>cf_enclave_path = ''confonnx_enclave'', cf_model_path = [],
      cf_key_rollover_interval_seconds = 60 * 60 * 24, cf_key_sync_interval_seconds = 60 * 60 * 1,
      cf_key_error_retry_interval_seconds = 60 * 5, cf_address = ''0.0.0.0'', cf_http_port = 8001,
      cf_auth_key = [], cf_num_http_threads = hardware_concurrency, cf_logging_level = level_trace,
      cf_debug = False, cf_simulation = False, cf_use_akv = False, cf_use_model_key_provisioning = False,
      cf_akv_app_id = [], cf_akv_app_pwd = [], cf_akv_vault_url = [], cf_akv_service_key_name = ''confonnx-server'',
      cf_akv_model_key_name = [], cf_akv_attestation_url = [], cf_log_level_str = ''info''\<rparr>"

definition ValidateOptions :: "(string \<Rightarrow> bool) \<Rightarrow> ServerConfiguration \<Rightarrow> ParseResult" where
  "ValidateOptions file_exists c =
     (if cf_log_level_str c \<notin> fst ` set supported_log_levels then ExitFailure
      else if cf_num_http_threads c \<le> 0 then ExitFailure
      else if \<not> file_exists (cf_enclave_path c) then ExitFailure
      else if \<not> file_exists (cf_model_path c) then ExitFailure
      else if cf_use_akv c \<and> (cf_akv_app_id c = [] \<or> cf_akv_app_pwd c = [] \<or> cf_akv_vault_url c = []) then ExitFailure
      else if cf_use_model_key_provisioning c \<and> cf_akv_model_key_name c \<noteq> [] then ExitFailure
      else ContinueSuccess)"

text \<open>
  Parsing and storing fail with the text of a standard exception. \<^verbatim>\<open>notify\<close> may fail after it
  has written some of the variables.
\<close>

record ('p, 'v) options_lib =
  parse_environment :: "(string \<Rightarrow> string) \<Rightarrow> string + 'p"
  parse_command_line :: "string list \<Rightarrow> string list \<Rightarrow> string + 'p"
  empty_variables_map :: 'v
  po_store :: "'p \<Rightarrow> 'v \<Rightarrow> string + 'v"
  po_count :: "'v \<Rightarrow> string \<Rightarrow> nat"
  po_notify :: "'v \<Rightarrow> (ServerConfiguration, string, unit) comp"

definition store_options :: "('p, 'v) options_lib \<Rightarrow> string list \<Rightarrow> string + 'v" where
  "store_options P args =
     rbind (parse_environment P (env_name_mapper option_names ''CONFONNX_'')) (\<lambda>e.
     rbind (po_store P e (empty_variables_map P)) (\<lambda>vm.
     rbind (parse_command_line P server_options args) (\<lambda>c.
     po_store P c vm)))"

definition ParseInput ::
    "('p, 'v) options_lib \<Rightarrow> (string \<Rightarrow> bool) \<Rightarrow> string list \<Rightarrow> ServerConfiguration \<Rightarrow> ParseResult \<times> ServerConfiguration" where
  "ParseInput P file_exists args c =
     (case store_options P args of
        Inl _ \<Rightarrow> (ExitFailure, c)
      | Inr vm \<Rightarrow>
          if po_count P vm ''help'' \<noteq> 0 \<or> po_count P vm ''h'' \<noteq> 0 then (ExitSuccess, c)
          else (case po_notify P vm c of
                  (Inl _, c1) \<Rightarrow> (ExitFailure, c1)
                | (Inr _, c1) \<Rightarrow>
                    let result = ValidateOptions file_exists c1
                    in (result, if result = ContinueSuccess
                                then c1\<lparr>cf_logging_level := the (map_of supported_log_levels (cf_log_level_str c1))\<rparr>
                                else c1)))"

section \<open>Every option can be set from the environment\<close>

text \<open>The variable for an option: upper case, with underscores, after the prefix.\<close>

definition toupper :: "char \<Rightarrow> char" where
  "toupper c = (let n = (of_char c :: nat) in if 97 \<le> n \<and> n \<le> 122 then char_of (n - 32) else c)"

definition env_name :: "string \<Rightarrow> string" where
  "env_name opt = ''CONFONNX_'' @ map (\<lambda>c. if c = CHR ''-'' then CHR ''_'' else toupper c) opt"

definition option_char :: "char \<Rightarrow> bool" where
  "option_char c \<longleftrightarrow> c = CHR ''-'' \<or> (let n = (of_char c :: nat) in 97 \<le> n \<and> n \<le> 122)"

lemma option_char_back:
  assumes "option_char c" and "c \<noteq> CHR ''-''"
  shows "tolower (toupper c) = c \<and> toupper c \<noteq> CHR ''_'' \<and> c \<noteq> CHR ''_''"
proof -
  let ?n = "of_char c :: nat"
  have n: "97 \<le> ?n" "?n \<le> 122" using assms by (auto simp: option_char_def Let_def)
  then have "(of_char (toupper c) :: nat) = ?n - 32" by (simp add: toupper_def)
  moreover have "(of_char CHR ''_'' :: nat) = 95" by simp
  ultimately have "toupper c \<noteq> CHR ''_''" "c \<noteq> CHR ''_''" using n by auto
  with n \<open>(of_char (toupper c) :: nat) = ?n - 32\<close> show ?thesis by (auto simp: tolower_def Let_def)
qed

lemma env_name_mapper_env_name:
  assumes "list_all option_char opt" and "opt \<noteq> []" and "opt \<in> set desc"
  shows "env_name_mapper desc ''CONFONNX_'' (env_name opt) = opt"
proof -
  have "(if t = CHR ''_'' then CHR ''-'' else t) = c"
    if "option_char c" "t = tolower (if c = CHR ''-'' then CHR ''_'' else toupper c)" for c t
    using that option_char_back [of c] by (auto simp: tolower_def)
  with assms(1) have "map (\<lambda>c. if c = CHR ''_'' then CHR ''-'' else c)
      (map tolower (map (\<lambda>c. if c = CHR ''-'' then CHR ''_'' else toupper c) opt)) = opt"
    by (induction opt) auto
  with assms(2,3) show ?thesis by (simp add: env_name_mapper_def env_name_def Let_def del: map_map)
qed

lemma server_options_chars: "\<forall>opt \<in> set server_options. opt \<noteq> [] \<and> list_all option_char opt"
  by (simp add: server_options_def option_char_def)

lemma env_name_mapper_sound:
  assumes "env_name_mapper desc prefix s \<noteq> []"
  shows "\<exists>rest. s = prefix @ rest \<and> env_name_mapper desc prefix s \<in> set desc
    \<and> map (\<lambda>c. if c = CHR ''_'' then CHR ''-'' else c) (map tolower rest) = env_name_mapper desc prefix s"
proof (intro exI conjI)
  show "s = prefix @ drop (length prefix) s"
    using assms by (metis append_take_drop_id env_name_mapper_def)
qed (use assms in \<open>auto simp: env_name_mapper_def Let_def split: if_splits\<close>)

text \<open>
  Every option can be set by a variable: its name in upper case with underscores for
  hyphens, after the prefix. And a variable is taken as an option only if it has the prefix, and the
  rest of its name is, up to case and hyphens, the name of that option.
\<close>

theorem env_option_names:
  "(\<forall>opt \<in> set server_options. env_name_mapper option_names ''CONFONNX_'' (env_name opt) = opt)
   \<and> (\<forall>s. env_name_mapper option_names ''CONFONNX_'' s \<noteq> [] \<longrightarrow>
        (\<exists>rest. s = ''CONFONNX_'' @ rest \<and> env_name_mapper option_names ''CONFONNX_'' s \<in> set option_names
           \<and> map (\<lambda>c. if c = CHR ''_'' then CHR ''-'' else c) (map tolower rest)
             = env_name_mapper option_names ''CONFONNX_'' s))"
proof (intro conjI ballI allI impI)
  fix opt assume "opt \<in> set server_options"
  then show "env_name_mapper option_names ''CONFONNX_'' (env_name opt) = opt"
    using server_options_chars by (intro env_name_mapper_env_name) (auto simp: option_names_def)
qed (rule env_name_mapper_sound)

theorem env_option_names_witness:
  "''log-level'' \<in> set server_options
   \<and> env_name_mapper option_names ''CONFONNX_'' (env_name ''log-level'') = ''log-level''
   \<and> (\<exists>rest. ''CONFONNX_Debug'' = ''CONFONNX_'' @ rest \<and> env_name_mapper option_names ''CONFONNX_'' ''CONFONNX_Debug'' \<in> set option_names)"
proof -
  have l: "''log-level'' \<in> set server_options" by (simp add: server_options_def)
  have "env_name_mapper option_names ''CONFONNX_'' ''CONFONNX_Debug'' \<noteq> []"
    by (simp add: env_name_mapper_def option_names_def server_options_def tolower_def char_of_eq_iff take_bit_eq_mod)
  with l show ?thesis using env_option_names by blast
qed

section \<open>What an accepted configuration guarantees\<close>

lemma ValidateOptions_ContinueSuccess:
  "ValidateOptions file_exists c = ContinueSuccess \<longleftrightarrow>
     (\<exists>lv. map_of supported_log_levels (cf_log_level_str c) = Some lv)
     \<and> 0 < cf_num_http_threads c \<and> file_exists (cf_enclave_path c) \<and> file_exists (cf_model_path c)
     \<and> (cf_use_akv c \<longrightarrow> cf_akv_app_id c \<noteq> [] \<and> cf_akv_app_pwd c \<noteq> [] \<and> cf_akv_vault_url c \<noteq> [])
     \<and> \<not> (cf_use_model_key_provisioning c \<and> cf_akv_model_key_name c \<noteq> [])"
proof -
  have "cf_log_level_str c \<in> fst ` set supported_log_levels
      \<longleftrightarrow> (\<exists>lv. map_of supported_log_levels (cf_log_level_str c) = Some lv)"
    using map_of_eq_None_iff [of supported_log_levels] by (metis not_None_eq)
  then show ?thesis by (auto simp: ValidateOptions_def not_le)
qed

text \<open>
  The configuration the server goes on with, and when it goes on at all: exactly when both sources
  parse and no help is asked for, the log level is a known one, there is at least one thread, both files
  exist, a vault comes with its credentials and a model key is not both provisioned and taken from the vault.
  Everything but the log level is then as the options say.
\<close>

theorem accepted_configuration:
  "ParseInput P file_exists args c = (ContinueSuccess, c') \<longleftrightarrow>
     (\<exists>vm c1 lv. store_options P args = Inr vm \<and> po_count P vm ''help'' = 0 \<and> po_count P vm ''h'' = 0
       \<and> po_notify P vm c = (Inr (), c1) \<and> map_of supported_log_levels (cf_log_level_str c1) = Some lv
       \<and> c' = c1\<lparr>cf_logging_level := lv\<rparr>
       \<and> 0 < cf_num_http_threads c1 \<and> file_exists (cf_enclave_path c1) \<and> file_exists (cf_model_path c1)
       \<and> \<not> (cf_use_akv c1 \<and> [] \<in> {cf_akv_app_id c1, cf_akv_app_pwd c1, cf_akv_vault_url c1})
       \<and> \<not> (cf_use_model_key_provisioning c1 \<and> cf_akv_model_key_name c1 \<noteq> []))"
  by (auto simp: ParseInput_def Let_def ValidateOptions_ContinueSuccess split: sum.splits prod.splits if_splits)

end
