(* ===== verification/Conf_Server.thy ===== *)
theory Conf_Server
  imports Protocol Key_Provider
begin

text \<open>
  The protocol server, \<^verbatim>\<open>confmsg::Server\<close>
  (\<^verbatim>\<open>external/confmsg/confmsg/server/api.h\<close>, \<^verbatim>\<open>api.cc\<close>). Its state is the object's members;
  every member function is a computation on the server and the world. The provider's
  \<^verbatim>\<open>DoRefreshKey\<close> and the request callback are parameters, as they are in the class.
\<close>

datatype EvidenceType = Quote | Collateral

record 'c server =
  srv_key_provider :: "'c key_provider"
  srv_nonce :: bytes
  srv_public_key :: bytes
  srv_public_signing_key :: bytes
  srv_service_identifier :: bytes
  srv_evidence :: "(EvidenceType \<times> bytes) list"

type_synonym ('c, 'w, 'a) srv_comp = "('c server \<times> 'w world_scheme, exn, 'a) comp"
type_synonym 'w callback = "bytes \<Rightarrow> 'w world_scheme \<Rightarrow> (exn + bytes) \<times> 'w world_scheme"

definition on_provider :: "('c, 'w, 'a) kp_comp \<Rightarrow> ('c, 'w, 'a) srv_comp" where
  "on_provider m = czoom (\<lambda>(s, w). (srv_key_provider s, w))
     (\<lambda>(kp, w) (s, _). (s\<lparr>srv_key_provider := kp\<rparr>, w)) m"

section \<open>Keys and evidence\<close>

definition Server_GenerateQuote :: "libs \<Rightarrow> 'c server \<Rightarrow> exn + bytes" where
  "Server_GenerateQuote L s =
     rbind (SHA256_list (l_crypto L) [srv_public_key s, srv_service_identifier s] []) (\<lambda>hash.
       case oe_get_report (l_oe L) hash of
         Inl res \<Rightarrow> Inl (RuntimeError (''oe_get_report failed: '' @ oe_result_str (l_oe L) res))
       | Inr report \<Rightarrow> Inr report)"

definition Server_UpdateEvidence :: "libs \<Rightarrow> ('c, 'w, unit) srv_comp" where
  "Server_UpdateEvidence L =
     (if OE_BUILD_ENCLAVE L
      then cbind (\<lambda>(s, w). (Server_GenerateQuote L s, (s, w))) (\<lambda>quote.
             cmodify (\<lambda>(s, w). (s\<lparr>srv_evidence := [(Quote, quote)]\<rparr>, w)))
      else cret ())"

definition Server_MakePublicKeys :: "libs \<Rightarrow> ('c, 'w, unit) srv_comp" where
  "Server_MakePublicKeys L = (\<lambda>(s, w).
     if key_type (srv_key_provider s) = Curve25519
     then (case MakePublicKeysCurve25519 (l_crypto L) (current_key (srv_key_provider s))
                  (srv_public_key s) (srv_public_signing_key s) of
             Inl e \<Rightarrow> (Inl e, (s, w))
           | Inr (pk, psk) \<Rightarrow> (Inr (), (s\<lparr>srv_public_key := pk, srv_public_signing_key := psk\<rparr>, w)))
     else (Inl (CryptoError ''unsupported key type''), (s, w)))"

definition Server_RefreshKey ::
    "libs \<Rightarrow> (bool \<Rightarrow> ('c, 'w, bool) kp_comp) \<Rightarrow> bool \<Rightarrow> ('c, 'w, bool) srv_comp" where
  "Server_RefreshKey L DoRefreshKey sync_only =
     cbind (on_provider (KeyProvider_RefreshKey DoRefreshKey sync_only)) (\<lambda>refreshed.
       if refreshed
       then cthen (Server_MakePublicKeys L) (cthen (Server_UpdateEvidence L) (cret refreshed))
       else cret refreshed)"

definition Server_GetLastKeyRefresh :: "'c server \<Rightarrow> int" where
  "Server_GetLastKeyRefresh s = last_refreshed (srv_key_provider s)"

definition Server_new ::
    "libs \<Rightarrow> bytes \<Rightarrow> 'c key_provider \<Rightarrow> 'w world_scheme \<Rightarrow> (exn + 'c server) \<times> 'w world_scheme" where
  "Server_new L service_identifier kp w =
     (case Randomize [] NONCE_SIZE w of (nonce, w1) \<Rightarrow>
      (case cthen (Server_MakePublicKeys L) (Server_UpdateEvidence L)
              (\<lparr>srv_key_provider = kp, srv_nonce = nonce, srv_public_key = [],
                srv_public_signing_key = [], srv_service_identifier = service_identifier,
                srv_evidence = []\<rparr>, w1) of
         (Inl e, (s, w2)) \<Rightarrow> (Inl e, w2)
       | (Inr _, (s, w2)) \<Rightarrow> (Inr s, w2)))"

text \<open>The destructor.\<close>

definition Server_destroy :: "'c server \<Rightarrow> 'c server" where
  "Server_destroy s = s\<lparr>srv_nonce := Wipe (srv_nonce s), srv_public_key := Wipe (srv_public_key s),
     srv_public_signing_key := Wipe (srv_public_signing_key s)\<rparr>"

section \<open>Message handlers\<close>

fun evidence_fb :: "EvidenceType \<times> bytes \<Rightarrow> Evidence" where
  "evidence_fb (Quote, c) = \<lparr>ev_type = EvidenceType_Quote, ev_contents = Some c\<rparr>"
| "evidence_fb (Collateral, c) = \<lparr>ev_type = EvidenceType_Collateral, ev_contents = Some c\<rparr>"

definition Server_HandleKeyRequest :: "libs \<Rightarrow> 'c server \<Rightarrow> KeyRequest \<Rightarrow> nat \<Rightarrow> exn + bytes" where
  "Server_HandleKeyRequest L s r max_out_msg_size =
     (case kreq_nonce r of
        None \<Rightarrow> Inl (CryptoError ''invalid client nonce'')
      | Some client_nonce \<Rightarrow>
          if length client_nonce \<noteq> NONCE_SIZE then Inl (CryptoError ''invalid client nonce'')
          else
            rbind (SignCurve25519 (l_crypto L) (srv_service_identifier s @ client_nonce)
                     (current_key (srv_key_provider s)) []) (\<lambda>signature.
            let service_identity =
                  \<lparr>sid_nonce = Some (srv_nonce s),
                   sid_service_identifier = Some (srv_service_identifier s),
                   sid_server_share = Some \<lparr>ec_point_format = PointFormat_Compressed,
                                            ec_xy = Some (srv_public_key s)\<rparr>,
                   sid_server_signature_share = Some \<lparr>ec_point_format = PointFormat_Compressed,
                                                      ec_xy = Some (srv_public_signing_key s)\<rparr>,
                   sid_signature = Some signature\<rparr>;
                key_response =
                  \<lparr>kres_id = Some service_identity, kres_lifetime_hint = 0,
                   kres_key_version = current_key_version (srv_key_provider s),
                   kres_authenticator = Some (map evidence_fb (srv_evidence s))\<rparr>
            in WriteMessage
                 (fb_encode (l_fb L) \<lparr>msg_version = Version_v1,
                                      msg_body = Body_KeyResponse (Some key_response)\<rparr>)
                 max_out_msg_size))"

text \<open>
  The first part of \<^verbatim>\<open>HandleRequest\<close>: a client that knows a newer key than this backend
  makes it synchronise once.
\<close>

definition Server_SyncForClient ::
    "libs \<Rightarrow> (bool \<Rightarrow> ('c, 'w, bool) kp_comp) \<Rightarrow> u32 \<Rightarrow> ('c, 'w, unit) srv_comp" where
  "Server_SyncForClient L DoRefreshKey key_version =
     cbind (cget (\<lambda>(s, w). current_key_version (srv_key_provider s))) (\<lambda>v.
       if key_version > v
       then cthen (Server_RefreshKey L DoRefreshKey True)
              (cbind (cget (\<lambda>(s, w). current_key_version (srv_key_provider s))) (\<lambda>v'.
                 if key_version > v'
                 then cthrow (CryptoError ''key still older than client key version after refresh'')
                 else cret ()))
       else cret ())"

text \<open>
  The middle part: the field checks, the key agreement and the decryption of the request.
  It yields the shared secret and the plaintext.
\<close>

definition Server_OpenRequest :: "libs \<Rightarrow> 'c server \<Rightarrow> Request \<Rightarrow> exn + bytes \<times> bytes" where
  "Server_OpenRequest L s r =
     rbind (deref (req_iv r)) (\<lambda>in_iv.
     rbind (deref (req_tag r)) (\<lambda>in_tag.
     rbind (deref (req_ciphertext r)) (\<lambda>in_ciphertext.
     let in_additional_data = (case req_additional_data r of None \<Rightarrow> [] | Some d \<Rightarrow> d)
     in if length in_iv \<noteq> IV_SIZE then Inl (CryptoError ''invalid iv size'')
        else if length in_tag \<noteq> TAG_SIZE then Inl (CryptoError ''invalid tag size'')
        else
          rbind (deref (req_client_share r)) (\<lambda>client_share.
          rbind (deref (ec_xy client_share)) (\<lambda>public_key.
            if length public_key \<noteq> KEY_SIZE then Inl (CryptoError ''invalid client share'')
            else
              rbind (GetKey (srv_key_provider s) (req_key_version r)) (\<lambda>key.
              rbind (ComputeSharedSecretCurve25519 (l_crypto L) key public_key []) (\<lambda>shared_secret.
              rbind (DeriveSymmetricKey (l_crypto L) shared_secret False [] []) (\<lambda>(symmetric_key, static_iv).
              rbind (xor_ivs static_iv in_iv) (\<lambda>xor_iv.
              rbind (Decrypt (l_crypto L) symmetric_key xor_iv in_tag in_ciphertext in_additional_data
                       (vec_resize (length in_ciphertext) [])) (\<lambda>application_data.
                Inr (shared_secret, application_data))))))))))) "

text \<open>The last part: encrypt the callback's answer and write the response.\<close>

definition Server_SealResponse ::
    "libs \<Rightarrow> 'c server \<Rightarrow> u32 \<Rightarrow> bytes \<Rightarrow> bytes \<Rightarrow> nat \<Rightarrow> exn + bytes" where
  "Server_SealResponse L s key_version shared_secret application_data max_out_msg_size =
     rbind (DeriveSymmetricKey (l_crypto L) shared_secret True [] []) (\<lambda>(symmetric_key, static_iv).
     rbind (Encrypt (l_crypto L) symmetric_key static_iv application_data (srv_nonce s)
              (replicate (length application_data) 0) (replicate TAG_SIZE 0)) (\<lambda>(out_ciphertext, out_tag).
     rbind (IsKeyOutdated (srv_key_provider s) key_version) (\<lambda>key_outdated.
       WriteMessage
         (fb_encode (l_fb L)
            \<lparr>msg_version = Version_v1,
             msg_body = Body_Response (Some
               \<lparr>res_key_outdated = key_outdated, res_iv = Some static_iv, res_tag = Some out_tag,
                res_additional_data = Some (srv_nonce s), res_ciphertext = Some out_ciphertext\<rparr>)\<rparr>)
         max_out_msg_size)))"

definition Server_HandleRequest ::
    "libs \<Rightarrow> (bool \<Rightarrow> ('c, 'w, bool) kp_comp) \<Rightarrow> 'w callback \<Rightarrow> Request \<Rightarrow> nat \<Rightarrow> ('c, 'w, bytes) srv_comp" where
  "Server_HandleRequest L DoRefreshKey request_callback r max_out_msg_size =
     cthen (Server_SyncForClient L DoRefreshKey (req_key_version r))
     (cbind (\<lambda>(s, w). (Server_OpenRequest L s r, (s, w))) (\<lambda>(shared_secret, application_data).
      cbind (\<lambda>(s, w). case request_callback application_data w of (x, w') \<Rightarrow> (x, (s, w'))) (\<lambda>answer.
        \<lambda>(s, w). (Server_SealResponse L s (req_key_version r) shared_secret answer max_out_msg_size,
                   (s, w)))))"

definition Server_RespondToMessage ::
    "libs \<Rightarrow> (bool \<Rightarrow> ('c, 'w, bool) kp_comp) \<Rightarrow> 'w callback \<Rightarrow> bytes \<Rightarrow> nat \<Rightarrow> ('c, 'w, bytes) srv_comp" where
  "Server_RespondToMessage L DoRefreshKey request_callback in_msg max_out_msg_size =
     (case fb_decode (l_fb L) in_msg of
        None \<Rightarrow> cthrow (PayloadParseError ''flatbuffer not valid'')
      | Some m \<Rightarrow>
          if msg_version m \<noteq> Version_v1
          then cthrow (PayloadParseError ''unsupported protocol version'')
          else (case msg_body m of
              Body_KeyRequest r \<Rightarrow>
                (\<lambda>(s, w). (rbind (deref r) (\<lambda>q. Server_HandleKeyRequest L s q max_out_msg_size), (s, w)))
            | Body_Request r \<Rightarrow>
                cbind (clift (deref r)) (\<lambda>q.
                  Server_HandleRequest L DoRefreshKey request_callback q max_out_msg_size)
            | Body_KeyResponse _ \<Rightarrow>
                cthrow (PayloadParseError ''message not supposed to be handled by confmsg server'')
            | Body_Response _ \<Rightarrow>
                cthrow (PayloadParseError ''message not supposed to be handled by confmsg server'')
            | Body_other _ \<Rightarrow> cthrow (PayloadParseError ''unhandled message type'')))"

section \<open>The server's invariant\<close>

text \<open>
  What holds of a constructed server: its nonce and keys have their sizes and the public keys
  it hands out belong to the current private key. \<open>server_attested\<close> adds that the evidence,
  when the code runs in an enclave, is the quote over exactly these keys.
\<close>

definition server_keyed :: "libs \<Rightarrow> 'c server \<Rightarrow> bool" where
  "server_keyed L s \<longleftrightarrow>
     length (srv_nonce s) = NONCE_SIZE
   \<and> srv_public_key s = EverCrypt_Curve25519_secret_to_public (l_crypto L) (current_key (srv_key_provider s))
   \<and> srv_public_signing_key s = Hacl_Ed25519_secret_to_public (l_crypto L) (current_key (srv_key_provider s))"

definition server_attested :: "libs \<Rightarrow> 'c server \<Rightarrow> bool" where
  "server_attested L s \<longleftrightarrow> (OE_BUILD_ENCLAVE L \<longrightarrow>
     (\<exists>q. srv_evidence s = [(Quote, q)]
        \<and> oe_get_report (l_oe L)
            (EverCrypt_Hash_Incremental (l_crypto L) [srv_public_key s, srv_service_identifier s]) = Inr q))"

lemma Server_MakePublicKeys_ok:
  assumes "crypto_lengths (l_crypto L)" and "key_type (srv_key_provider s) = Curve25519"
    and "length (current_key (srv_key_provider s)) = KEY_SIZE"
  shows "Server_MakePublicKeys L (s, w) = (Inr (), (s\<lparr>srv_public_key :=
       EverCrypt_Curve25519_secret_to_public (l_crypto L) (current_key (srv_key_provider s)),
     srv_public_signing_key := Hacl_Ed25519_secret_to_public (l_crypto L) (current_key (srv_key_provider s))\<rparr>, w))"
  using assms by (simp add: Server_MakePublicKeys_def MakePublicKeysCurve25519_ok)

lemma Server_UpdateEvidence_cases:
  assumes "crypto_lengths (l_crypto L)" and "Server_UpdateEvidence L (s, w) = (r, (s', w'))"
  shows "(\<exists>ev. s' = s\<lparr>srv_evidence := ev\<rparr>) \<and> w' = w \<and> (r = Inr () \<longrightarrow> server_attested L s')"
  using assms
  by (cases "oe_get_report (l_oe L)
        (EverCrypt_Hash_Incremental (l_crypto L) [srv_public_key s, srv_service_identifier s])")
     (auto simp: Server_UpdateEvidence_def Server_GenerateQuote_def SHA256_list_ok cbind_def
       server_attested_def split: if_splits intro: exI [of _ "srv_evidence s"])

lemma server_keyed_evidence [simp]: "server_keyed L (s\<lparr>srv_evidence := ev\<rparr>) = server_keyed L s"
  by (simp add: server_keyed_def)

lemma on_provider_eq:
  "on_provider m (s, w) = (case m (srv_key_provider s, w) of (r, (kp, w')) \<Rightarrow>
     (r, (s\<lparr>srv_key_provider := kp\<rparr>, w')))"
  by (auto simp: on_provider_def czoom_def split: prod.splits)

lemma Server_new_inv:
  assumes "crypto_lengths (l_crypto L)" and "length (current_key kp) = KEY_SIZE"
    and "Server_new L sid kp w = (Inr s, w')"
  shows "server_keyed L s \<and> server_attested L s \<and> srv_key_provider s = kp \<and> srv_service_identifier s = sid"
proof -
  have kt: "key_type kp = Curve25519"
    using assms(3) by (auto simp: Server_new_def Server_MakePublicKeys_def cbind_def cthen_def
        split: prod.splits if_splits)
  show ?thesis
    using assms(3) kt assms(1,2)
    by (auto simp: Server_new_def Server_MakePublicKeys_ok cthen_def cbind_def server_keyed_def
        Randomize_eq server_attested_def split: prod.splits sum.splits dest!: Server_UpdateEvidence_cases [OF assms(1)])
qed

lemma Server_new_random:
  assumes "Server_new L sid kp w = (Inr s, w')"
  shows "srv_nonce s = fst (Randomize [] NONCE_SIZE w)" "w' = snd (Randomize [] NONCE_SIZE w)"
  using assms
  by (auto simp: Server_new_def Server_MakePublicKeys_def Server_UpdateEvidence_def cthen_def cbind_def
      split: prod.splits sum.splits if_splits)

definition srv_inv :: "('c key_provider \<Rightarrow> bool) \<Rightarrow> libs \<Rightarrow> 'c server \<times> 'w world_scheme \<Rightarrow> bool" where
  "srv_inv kp_inv L = (\<lambda>(s, w). kp_inv (srv_key_provider s) \<and> server_keyed L s)"

context curve_key_provider
begin

lemma Server_RefreshKey_step:
  assumes C: "crypto_lengths (l_crypto L)" and inv: "kp_inv (srv_key_provider s)" and k: "server_keyed L s"
    and e: "Server_RefreshKey L DoRefreshKey so (s, w) = (r, (s', w'))"
  shows "kp_inv (srv_key_provider s') \<and> server_keyed L s' \<and> srv_nonce s' = srv_nonce s
     \<and> srv_service_identifier s' = srv_service_identifier s
     \<and> (\<forall>b. r = Inr b \<longrightarrow> server_attested L s \<longrightarrow> server_attested L s')"
proof -
  obtain r0 kp0 w0 where e0: "KeyProvider_RefreshKey DoRefreshKey so (srv_key_provider s, w) = (r0, (kp0, w0))"
    by (metis surj_pair)
  have kp0: "kp_inv kp0" "key_type kp0 = Curve25519" "length (current_key kp0) = KEY_SIZE"
    using RefreshKey_inv [OF inv e0] inv_curve inv_sized by auto
  show ?thesis
  proof (cases "r0 = Inr True")
    case True
    have nl: "length (srv_nonce s) = NONCE_SIZE" using k by (simp add: server_keyed_def)
    let ?s1 = "s\<lparr>srv_key_provider := kp0,
      srv_public_key := EverCrypt_Curve25519_secret_to_public (l_crypto L) (current_key kp0),
      srv_public_signing_key := Hacl_Ed25519_secret_to_public (l_crypto L) (current_key kp0)\<rparr>"
    obtain r2 s2 w2 where e2: "Server_UpdateEvidence L (?s1, w0) = (r2, (s2, w2))"
      by (metis surj_pair)
    from Server_UpdateEvidence_cases [OF C e2] obtain ev where s2: "s2 = ?s1\<lparr>srv_evidence := ev\<rparr>"
      and at: "r2 = Inr () \<longrightarrow> server_attested L s2" by blast
    have "r = (case r2 of Inl x \<Rightarrow> Inl x | Inr _ \<Rightarrow> Inr True)" "s' = s2"
      using e e0 e2 True kp0 C
      by (auto simp: Server_RefreshKey_def cbind_def cthen_def on_provider_eq Server_MakePublicKeys_ok
          split: sum.splits)
    with at show ?thesis
      using kp0 nl by (auto simp: s2 server_keyed_def split: sum.splits)
  next
    case False
    then have same: "same_keys (srv_key_provider s) kp0"
      using RefreshKey_not_refreshed [OF inv e0] by simp
    have "s' = s\<lparr>srv_key_provider := kp0\<rparr>"
      using e e0 False by (cases r0) (auto simp: Server_RefreshKey_def cbind_def on_provider_eq)
    with same kp0 k show ?thesis
      by (auto simp: server_keyed_def same_keys_def server_attested_def)
  qed
qed

lemma Server_RefreshKey_preserves:
  assumes "crypto_lengths (l_crypto L)"
  shows "preserves (srv_inv kp_inv L) (Server_RefreshKey L DoRefreshKey so)"
proof (rule preservesI)
  fix sw :: "'a server \<times> 'b world_scheme"
  assume "srv_inv kp_inv L sw"
  then show "srv_inv kp_inv L (snd (Server_RefreshKey L DoRefreshKey so sw))"
    using Server_RefreshKey_step [OF assms, of "fst sw" so "snd sw"]
    by (cases sw; cases "Server_RefreshKey L DoRefreshKey so sw") (auto simp: srv_inv_def split: prod.splits)
qed

lemma Server_RespondToMessage_preserves:
  assumes C: "crypto_lengths (l_crypto L)"
  shows "preserves (srv_inv kp_inv L) (Server_RespondToMessage L DoRefreshKey cb msg n)"
proof -
  have pure: "preserves (srv_inv kp_inv L) (\<lambda>(s, w). (f s w, (s, w)))" for f :: "'a server \<Rightarrow> 'b world_scheme \<Rightarrow> exn + 'z"
    by (auto simp: preserves_def)
  have call: "preserves (srv_inv kp_inv L)
      (\<lambda>(s, w). case cb d w of (x, w') \<Rightarrow> (x, (s, w')))" for d
    by (auto simp: preserves_def srv_inv_def split: prod.splits)
  have sync: "preserves (srv_inv kp_inv L) (Server_SyncForClient L DoRefreshKey v)" for v
    unfolding Server_SyncForClient_def
    by (intro preserves_cbind preserves_cthen preserves_if preserves_basic Server_RefreshKey_preserves [OF C])
  have req: "preserves (srv_inv kp_inv L) (Server_HandleRequest L DoRefreshKey cb q n)" for q
    unfolding Server_HandleRequest_def
    by (intro preserves_cthen sync preserves_cbind pure)
       (auto intro!: preserves_cbind pure call split: prod.splits)
  show ?thesis
    unfolding Server_RespondToMessage_def
    by (auto intro!: pure req split: option.splits Body.splits)
qed

end

section \<open>The runs of a server\<close>

text \<open>
  A server that starts, answers any messages, well formed or not, and refreshes its key at
  any time, whether or not a call throws. Time and randomness may advance in between.
\<close>

inductive server_run ::
    "libs \<Rightarrow> (bool \<Rightarrow> ('c, 'w, bool) kp_comp) \<Rightarrow> 'w callback \<Rightarrow> 'c key_provider \<Rightarrow> 'c server \<Rightarrow> bool"
  for L D f kp where
  run_start: "Server_new L sid kp (w :: 'w world_scheme) = (Inr s, w') \<Longrightarrow> server_run L D f kp s"
| run_message: "server_run L D f kp s \<Longrightarrow> Server_RespondToMessage L D f msg n (s, w) = (r, (s', w'))
     \<Longrightarrow> server_run L D f kp s'"
| run_refresh: "server_run L D f kp s \<Longrightarrow> Server_RefreshKey L D so (s, w) = (r, (s', w'))
     \<Longrightarrow> server_run L D f kp s'"

context curve_key_provider
begin

lemma server_run_keyed:
  assumes "server_run L DoRefreshKey f kp s" and C: "crypto_lengths (l_crypto L)" and "kp_inv kp"
  shows "kp_inv (srv_key_provider s) \<and> server_keyed L s"
  using assms(1)
proof induction
  case (run_start sid w s w')
  with assms Server_new_inv [OF C _ run_start] inv_sized show ?case by auto
next
  case (run_message s msg n w r s' w')
  with preservesD [OF Server_RespondToMessage_preserves [OF C], of "(s, w)" f msg n] show ?case
    by (simp add: srv_inv_def)
next
  case (run_refresh s so w r s' w')
  with Server_RefreshKey_step [OF C _ _ run_refresh(2)] show ?case by blast
qed

end

section \<open>What it takes to reach the callback\<close>

lemma Server_OpenRequest_Inr:
  assumes "Server_OpenRequest L s r = Inr (secret, p)"
  shows "\<exists>key share pk iv tag ct k siv xiv. GetKey (srv_key_provider s) (req_key_version r) = Inr key
     \<and> req_client_share r = Some share \<and> ec_xy share = Some pk \<and> length pk = KEY_SIZE
     \<and> req_iv r = Some iv \<and> length iv = IV_SIZE \<and> req_tag r = Some tag \<and> length tag = TAG_SIZE
     \<and> req_ciphertext r = Some ct
     \<and> ComputeSharedSecretCurve25519 (l_crypto L) key pk [] = Inr secret
     \<and> DeriveSymmetricKey (l_crypto L) secret False [] [] = Inr (k, siv) \<and> xor_ivs siv iv = Inr xiv
     \<and> Decrypt (l_crypto L) k xiv tag ct (case req_additional_data r of None \<Rightarrow> [] | Some d \<Rightarrow> d)
         (vec_resize (length ct) []) = Inr p"
  using assms
  by (auto simp: Server_OpenRequest_def rbind_Inr_iff deref_Inr_iff Let_def split: if_splits prod.splits)

end
