(* ===== verification/Conf_Client.thy ===== *)
theory Conf_Client
  imports Protocol Key_Provider
begin

text \<open>
  The protocol client, \<^verbatim>\<open>confmsg::Client\<close>
  (\<^verbatim>\<open>external/confmsg/confmsg/client/api.h\<close>, \<^verbatim>\<open>api.cc\<close>): requests, responses, and the
  verification of the server's identity and attestation quote. Console output and the
  optional dump of the quote to a file are left out; they do not change the state.
\<close>

record 'c client =
  cl_key_provider :: "'c key_provider"
  cl_key_version :: u32
  cl_nonce :: bytes
  cl_public_key :: bytes
  cl_in_symmetric_key :: bytes
  cl_out_symmetric_key :: bytes
  cl_static_iv :: bytes
  cl_dynamic_iv :: bytes
  cl_server_nonce :: bytes
  cl_expected_enclave_signing_key_pem :: string
  cl_expected_enclave_hash :: bytes
  cl_expected_service_identifier :: bytes
  cl_allow_debug :: bool

type_synonym ('c, 'a) cl_comp = "('c client, exn, 'a) comp"

section \<open>Results\<close>

text \<open>\<^verbatim>\<open>Client::Result\<close>; the payload and the flag of a key response are default values nobody reads.\<close>

datatype Result = Result_KeyResponse | Result_Response (res_payload: bytes) (res_outdated: bool)

definition Result_CreateKeyResponse :: Result where
  "Result_CreateKeyResponse = Result_KeyResponse"

definition Result_CreateResponse :: "bytes \<Rightarrow> bool \<Rightarrow> Result" where
  "Result_CreateResponse payload key_outdated = Result_Response payload key_outdated"

fun IsKeyResponse :: "Result \<Rightarrow> bool" where
  "IsKeyResponse Result_KeyResponse = True"
| "IsKeyResponse (Result_Response _ _) = False"

fun IsResponse :: "Result \<Rightarrow> bool" where
  "IsResponse Result_KeyResponse = False"
| "IsResponse (Result_Response _ _) = True"

definition Result_IsKeyOutdated :: "Result \<Rightarrow> exn + bool" where
  "Result_IsKeyOutdated r =
     (if \<not> IsResponse r
      then Inl (LogicError ''IsKeyOutdated() can only be called on non-key responses'')
      else Inr (res_outdated r))"

definition Result_GetPayload :: "Result \<Rightarrow> exn + bytes" where
  "Result_GetPayload r =
     (if \<not> IsResponse r
      then Inl (LogicError ''GetPayload() can only be called on non-key responses'')
      else Inr (res_payload r))"

section \<open>Construction\<close>

definition Client_new ::
    "libs \<Rightarrow> 'c key_provider option \<Rightarrow> string \<Rightarrow> bytes \<Rightarrow> bytes \<Rightarrow> bool \<Rightarrow> 'w world_scheme
       \<Rightarrow> (exn + 'c client) \<times> 'w world_scheme" where
  "Client_new L kp pem enclave_hash service_identifier allow_debug w =
     (case kp of
        None \<Rightarrow> (Inl (InvalidArgument ''key_provider == null''), w)
      | Some kp \<Rightarrow>
          (case Randomize [] NONCE_SIZE w of (nonce, w1) \<Rightarrow>
           (case Randomize [] IV_SIZE w1 of (dynamic_iv, w2) \<Rightarrow>
             (rbind (MakePublicKeyCurve25519 (l_crypto L) (current_key kp) []) (\<lambda>public_key.
                Inr \<lparr>cl_key_provider = kp, cl_key_version = - 1, cl_nonce = nonce,
                     cl_public_key = public_key, cl_in_symmetric_key = [], cl_out_symmetric_key = [],
                     cl_static_iv = [], cl_dynamic_iv = dynamic_iv, cl_server_nonce = [],
                     cl_expected_enclave_signing_key_pem = pem, cl_expected_enclave_hash = enclave_hash,
                     cl_expected_service_identifier = service_identifier, cl_allow_debug = allow_debug\<rparr>),
              w2))))"

text \<open>The destructor.\<close>

definition Client_destroy :: "'c client \<Rightarrow> 'c client" where
  "Client_destroy c = c\<lparr>cl_nonce := Wipe (cl_nonce c), cl_public_key := Wipe (cl_public_key c),
     cl_in_symmetric_key := Wipe (cl_in_symmetric_key c),
     cl_out_symmetric_key := Wipe (cl_out_symmetric_key c), cl_static_iv := Wipe (cl_static_iv c),
     cl_dynamic_iv := Wipe (cl_dynamic_iv c), cl_server_nonce := Wipe (cl_server_nonce c)\<rparr>"

section \<open>Attestation\<close>

text \<open>\<^verbatim>\<open>memcmp(a, b, n) == 0\<close>; reading past either buffer is a fault.\<close>

definition memcmp_eq :: "bytes \<Rightarrow> bytes \<Rightarrow> nat \<Rightarrow> exn + bool" where
  "memcmp_eq a b n =
     (if length a < n \<or> length b < n then Inl (Fault ''memcmp past the end of a buffer'')
      else Inr (take n a = take n b))"

definition Client_CheckEnclaveHash :: "libs \<Rightarrow> 'c client \<Rightarrow> oe_report \<Rightarrow> exn + unit" where
  "Client_CheckEnclaveHash L c report =
     (let expected = cl_expected_enclave_hash c;
          mismatch = Inl (AttestationError (''Enclave hash mismatch: expected='' @ Buffer2Hex expected
            @ '' actual='' @ Buffer2Hex (take (OE_UNIQUE_ID_SIZE (l_oe L)) (oe_unique_id report))))
      in if expected = [] then Inr ()
         else if length expected \<noteq> OE_UNIQUE_ID_SIZE (l_oe L) then mismatch
         else rbind (memcmp_eq (oe_unique_id report) expected (length expected)) (\<lambda>eq.
                if eq then Inr () else mismatch))"

definition Client_CheckSigner :: "libs \<Rightarrow> 'c client \<Rightarrow> oe_report \<Rightarrow> exn + unit" where
  "Client_CheckSigner L c report =
     (if cl_expected_enclave_signing_key_pem c = [] then Inr ()
      else
        rbind (PEM2MRSigner (l_crypto L) (cl_expected_enclave_signing_key_pem c) []) (\<lambda>expected.
          let mismatch = Inl (AttestationError (''Enclave signer mismatch: expected='' @ Buffer2Hex expected
                @ '' actual='' @ Buffer2Hex (take (OE_UNIQUE_ID_SIZE (l_oe L)) (oe_signer_id report))))
          in if length expected \<noteq> OE_SIGNER_ID_SIZE (l_oe L) then mismatch
             else rbind (memcmp_eq (oe_signer_id report) expected (OE_SIGNER_ID_SIZE (l_oe L))) (\<lambda>eq.
                    if eq then Inr () else mismatch)))"

definition Client_CheckIdentityFields :: "libs \<Rightarrow> 'c client \<Rightarrow> oe_report \<Rightarrow> exn + unit" where
  "Client_CheckIdentityFields L c report =
     (case oe_product_id report of
        [] \<Rightarrow> Inl (Fault ''product id read out of range'')
      | p # _ \<Rightarrow>
          if p \<noteq> 1 then Inl (AttestationError ''product id check failed'')
          else if oe_security_version report < 1 then Inl (AttestationError ''security version check failed'')
          else if \<not> cl_allow_debug c \<and> oe_attributes report AND OE_REPORT_ATTRIBUTES_DEBUG (l_oe L) \<noteq> 0
          then Inl (AttestationError ''debug flag check failed'')
          else Inr ())"

definition Client_CheckReportData :: "libs \<Rightarrow> oe_report \<Rightarrow> bytes \<Rightarrow> bytes \<Rightarrow> exn + unit" where
  "Client_CheckReportData L report service_public_key service_identifier =
     rbind (SHA256_list (l_crypto L) [service_public_key, service_identifier] []) (\<lambda>data_hash.
     rbind (memcmp_eq (oe_report_data report) data_hash (length data_hash)) (\<lambda>ok.
       if \<not> ok
       then Inl (AttestationError (''Enclave quote data mismatch: expected='' @ Buffer2Hex data_hash
              @ '' actual='' @ Buffer2Hex (take (length data_hash) (oe_report_data report))))
       else Inr ()))"

definition Client_VerifyQuote ::
    "libs \<Rightarrow> 'c client \<Rightarrow> bytes \<Rightarrow> bytes \<Rightarrow> bytes \<Rightarrow> bytes \<Rightarrow> exn + unit" where
  "Client_VerifyQuote L c quote collateral service_public_key service_identifier =
     (if length quote = 0 then Inl (AttestationError ''no quote to verify'')
      else if \<not> HAVE_OE_HOST_VERIFY L
      then Inl (AttestationError ''quote verification requires OE host verify library'')
      else
        (case oe_verify_remote_report (l_oe L) quote collateral of
           None \<Rightarrow> Inl (AttestationError ''Enclave quote invalid'')
         | Some report \<Rightarrow>
             if oe_id_version report \<noteq> 0 then Inl (AttestationError ''unsupported report format version'')
             else
               rbind (Client_CheckEnclaveHash L c report) (\<lambda>_.
               rbind (Client_CheckSigner L c report) (\<lambda>_.
               rbind (Client_CheckIdentityFields L c report) (\<lambda>_.
                 Client_CheckReportData L report service_public_key service_identifier)))))"

section \<open>Handling messages\<close>

text \<open>The loop over the evidence; \<open>None\<close> is the null buffer both start from.\<close>

fun Client_CollectEvidence :: "Evidence list \<Rightarrow> bytes option \<Rightarrow> bytes option \<Rightarrow> exn + bytes option \<times> bytes option" where
  "Client_CollectEvidence [] quote collateral = Inr (quote, collateral)"
| "Client_CollectEvidence (e # es) quote collateral =
     rbind (deref (ev_contents e)) (\<lambda>contents.
       if ev_type e = EvidenceType_Quote then Client_CollectEvidence es (Some contents) collateral
       else if ev_type e = EvidenceType_Collateral then Client_CollectEvidence es quote (Some contents)
       else Inl (RuntimeError ''Unknown evidence type''))"

definition Client_CheckEvidence ::
    "libs \<Rightarrow> 'c client \<Rightarrow> bytes option \<Rightarrow> bytes option \<Rightarrow> bytes \<Rightarrow> bytes \<Rightarrow> exn + unit" where
  "Client_CheckEvidence L c quote collateral spublic service_identifier =
     (let identity_expected =
            cl_expected_enclave_signing_key_pem c \<noteq> [] \<or> cl_expected_enclave_hash c \<noteq> []
      in case quote of
           Some q \<Rightarrow>
             if HAVE_OE_HOST_VERIFY L
             then Client_VerifyQuote L c q (case collateral of None \<Rightarrow> [] | Some d \<Rightarrow> d) spublic service_identifier
             else if identity_expected
             then Inl (RuntimeError ''cannot verify enclave identity without quote verification support'')
             else Inr ()
         | None \<Rightarrow>
             if identity_expected
             then Inl (RuntimeError ''no quote received from server, cannot verify identity'')
             else Inr ())"

text \<open>The loop compares byte by byte until a mismatch; a different size is one at once.\<close>

definition ids_mismatch :: "bytes \<Rightarrow> bytes \<Rightarrow> bool" where
  "ids_mismatch expected actual \<longleftrightarrow>
     length expected \<noteq> length actual \<or> list_ex (\<lambda>i. expected ! i \<noteq> actual ! i) [0..<length expected]"

lemma ids_mismatch_iff: "ids_mismatch xs ys \<longleftrightarrow> xs \<noteq> ys"
  unfolding ids_mismatch_def list_ex_iff by (metis atLeastLessThan_iff le0 nth_equalityI set_upt)

definition Client_CheckServiceIdentifier :: "'c client \<Rightarrow> bytes \<Rightarrow> exn + unit" where
  "Client_CheckServiceIdentifier c service_identifier =
     (let expected = cl_expected_service_identifier c
      in if expected \<noteq> [] \<and> ids_mismatch expected service_identifier
         then Inl (RuntimeError (''Enclave service identifier mismatch: expected='' @ Buffer2Hex expected
                @ '' actual='' @ Buffer2Hex service_identifier))
         else Inr ())"

text \<open>
  The part of \<^verbatim>\<open>HandleKeyResponse\<close> up to its first assignment to a member: read the fields,
  check the signature over the client's own nonce, the evidence and the identifier. It yields
  the server's public key and nonce.
\<close>

definition Client_VerifyKeyResponse :: "libs \<Rightarrow> 'c client \<Rightarrow> KeyResponse \<Rightarrow> exn + bytes \<times> bytes option" where
  "Client_VerifyKeyResponse L c r =
     rbind (deref (kres_id r)) (\<lambda>sid.
     rbind (deref (sid_service_identifier sid)) (\<lambda>service_identifier.
     rbind (deref (sid_server_share sid)) (\<lambda>share.
     rbind (deref (ec_xy share)) (\<lambda>spublic.
     rbind (deref (sid_server_signature_share sid)) (\<lambda>sshare.
     rbind (deref (ec_xy sshare)) (\<lambda>sspublic.
     rbind (deref (sid_signature sid)) (\<lambda>ssignature.
     rbind (VerifyCurve25519 (l_crypto L) (service_identifier @ cl_nonce c) sspublic ssignature) (\<lambda>ok.
       if \<not> ok then Inl (RuntimeError ''Invalid service signature'')
       else
         rbind (deref (kres_authenticator r)) (\<lambda>auth.
         rbind (Client_CollectEvidence auth None None) (\<lambda>(quote, collateral).
         rbind (Client_CheckEvidence L c quote collateral spublic service_identifier) (\<lambda>_.
         rbind (Client_CheckServiceIdentifier c service_identifier) (\<lambda>_.
           Inr (spublic, sid_nonce sid)))))))))))))"

definition Client_HandleKeyResponse :: "libs \<Rightarrow> KeyResponse \<Rightarrow> ('c, Result) cl_comp" where
  "Client_HandleKeyResponse L r =
     cbind (\<lambda>c. (Client_VerifyKeyResponse L c r, c)) (\<lambda>(spublic, nonce).
     cthen (cmodify (\<lambda>c. c\<lparr>cl_server_nonce := []\<rparr>))
     (cbind (clift (deref nonce)) (\<lambda>n.
     cthen (cmodify (\<lambda>c. c\<lparr>cl_server_nonce := n\<rparr>))
     (cbind (\<lambda>c. (ComputeSharedSecretCurve25519 (l_crypto L) (current_key (cl_key_provider c)) spublic [], c))
       (\<lambda>shared_secret.
     cbind (\<lambda>c. (DeriveSymmetricKey (l_crypto L) shared_secret True (cl_in_symmetric_key c) (cl_static_iv c), c))
       (\<lambda>(in_key, iv).
     cthen (cmodify (\<lambda>c. c\<lparr>cl_in_symmetric_key := in_key, cl_static_iv := iv\<rparr>))
     (cbind (\<lambda>c. (DeriveSymmetricKey (l_crypto L) shared_secret False (cl_out_symmetric_key c) (cl_static_iv c), c))
       (\<lambda>(out_key, iv').
     cthen (cmodify (\<lambda>c. c\<lparr>cl_out_symmetric_key := out_key, cl_static_iv := iv'\<rparr>))
     (cthen (cmodify (\<lambda>c. c\<lparr>cl_key_version := kres_key_version r\<rparr>))
        (cret Result_CreateKeyResponse)))))))))) "

definition Client_HandleResponse :: "libs \<Rightarrow> 'c client \<Rightarrow> Response \<Rightarrow> exn + Result" where
  "Client_HandleResponse L c r =
     rbind (deref (res_iv r)) (\<lambda>siv.
     rbind (deref (res_tag r)) (\<lambda>tag.
     rbind (deref (res_ciphertext r)) (\<lambda>ciphertext.
     let additional_data = (case res_additional_data r of None \<Rightarrow> [] | Some d \<Rightarrow> d)
     in if length siv \<noteq> IV_SIZE then Inl (RuntimeError ''invalid iv size'')
        else if length tag \<noteq> TAG_SIZE then Inl (RuntimeError ''invalid tag size'')
        else
          rbind (Decrypt (l_crypto L) (cl_in_symmetric_key c) siv tag ciphertext additional_data
                   (replicate (length ciphertext) 0)) (\<lambda>payload.
            Inr (Result_CreateResponse payload (res_key_outdated r))))))"

definition Client_HandleMessage :: "libs \<Rightarrow> bytes \<Rightarrow> ('c, Result) cl_comp" where
  "Client_HandleMessage L msg =
     (case fb_decode (l_fb L) msg of
        None \<Rightarrow> cthrow (RuntimeError ''flatbuffer not valid'')
      | Some m \<Rightarrow>
          if msg_version m \<noteq> Version_v1 then cthrow (RuntimeError ''unsupported protocol version'')
          else (case msg_body m of
              Body_KeyResponse r \<Rightarrow> cbind (clift (deref r)) (\<lambda>q. Client_HandleKeyResponse L q)
            | Body_Response r \<Rightarrow>
                (\<lambda>c. (rbind (deref r) (\<lambda>q. Client_HandleResponse L c q), c))
            | Body_KeyRequest _ \<Rightarrow>
                cthrow (RuntimeError ''message not supposed to be handled by confmsg client'')
            | Body_Request _ \<Rightarrow>
                cthrow (RuntimeError ''message not supposed to be handled by confmsg client'')
            | Body_other _ \<Rightarrow> cthrow (RuntimeError ''unhandled message type'')))"

section \<open>Making messages\<close>

definition Client_MakeKeyRequest :: "libs \<Rightarrow> 'c client \<Rightarrow> nat \<Rightarrow> exn + bytes" where
  "Client_MakeKeyRequest L c max_msg_size =
     WriteMessage (fb_encode (l_fb L)
       \<lparr>msg_version = Version_v1, msg_body = Body_KeyRequest (Some \<lparr>kreq_nonce = Some (cl_nonce c)\<rparr>)\<rparr>)
       max_msg_size"

definition Client_SealRequest :: "libs \<Rightarrow> 'c client \<Rightarrow> bytes \<Rightarrow> nat \<Rightarrow> exn + bytes" where
  "Client_SealRequest L c plaintext max_msg_size =
     (if length (cl_public_key c) \<noteq> KEY_SIZE \<or> length (cl_out_symmetric_key c) \<noteq> SYMMETRIC_KEY_SIZE
      then Inl (RuntimeError ''No or invalid keys; issue a key request first'')
      else
        rbind (xor_ivs (cl_static_iv c) (cl_dynamic_iv c)) (\<lambda>xor_iv.
        rbind (Encrypt (l_crypto L) (cl_out_symmetric_key c) xor_iv plaintext (cl_server_nonce c)
                 (replicate (length plaintext) 0) (replicate TAG_SIZE 0)) (\<lambda>(ciphertext, tag).
          WriteMessage (fb_encode (l_fb L)
            \<lparr>msg_version = Version_v1,
             msg_body = Body_Request (Some
               \<lparr>req_key_version = cl_key_version c, req_iv = Some (cl_dynamic_iv c), req_tag = Some tag,
                req_client_share = Some \<lparr>ec_point_format = PointFormat_Compressed,
                                         ec_xy = Some (cl_public_key c)\<rparr>,
                req_additional_data = Some (cl_server_nonce c), req_ciphertext = Some ciphertext\<rparr>)\<rparr>)
            max_msg_size)))"

definition Client_MakeRequest :: "libs \<Rightarrow> bytes \<Rightarrow> nat \<Rightarrow> ('c, bytes) cl_comp" where
  "Client_MakeRequest L plaintext max_msg_size =
     cbind (\<lambda>c. (Client_SealRequest L c plaintext max_msg_size, c)) (\<lambda>msg.
     cbind (\<lambda>c. (IncrementIV (cl_dynamic_iv c), c)) (\<lambda>iv.
     cthen (cmodify (\<lambda>c. c\<lparr>cl_dynamic_iv := iv\<rparr>)) (cret msg)))"

section \<open>What the accepted evidence says\<close>

lemma memcmp_eq_Inr: "memcmp_eq a b n = Inr e \<longleftrightarrow> n \<le> length a \<and> n \<le> length b \<and> e = (take n a = take n b)"
  by (auto simp: memcmp_eq_def)

text \<open>What a verified report must say for the client to accept it.\<close>

definition report_acceptable :: "libs \<Rightarrow> 'd client \<Rightarrow> oe_report \<Rightarrow> bytes \<Rightarrow> bytes \<Rightarrow> bool" where
  "report_acceptable L c report spublic sid \<longleftrightarrow>
     oe_id_version report = 0
   \<and> (cl_expected_enclave_hash c \<noteq> [] \<longrightarrow>
        length (cl_expected_enclave_hash c) = OE_UNIQUE_ID_SIZE (l_oe L)
      \<and> take (OE_UNIQUE_ID_SIZE (l_oe L)) (oe_unique_id report) = cl_expected_enclave_hash c)
   \<and> (cl_expected_enclave_signing_key_pem c \<noteq> [] \<longrightarrow>
        PEM2MRSigner (l_crypto L) (cl_expected_enclave_signing_key_pem c) []
          = Inr (take (OE_SIGNER_ID_SIZE (l_oe L)) (oe_signer_id report)))
   \<and> oe_product_id report ! 0 = 1 \<and> oe_security_version report \<ge> 1
   \<and> (\<not> cl_allow_debug c \<longrightarrow> oe_attributes report AND OE_REPORT_ATTRIBUTES_DEBUG (l_oe L) = 0)
   \<and> take SHA256_SIZE (oe_report_data report) = EverCrypt_Hash_Incremental (l_crypto L) [spublic, sid]"

lemma Client_VerifyQuote_sound:
  assumes C: "crypto_lengths (l_crypto L)" and v: "Client_VerifyQuote L c quote collateral spublic sid = Inr ()"
  shows "HAVE_OE_HOST_VERIFY L \<and> (\<exists>report. oe_verify_remote_report (l_oe L) quote collateral = Some report
    \<and> report_acceptable L c report spublic sid)"
proof -
  obtain report where r: "oe_verify_remote_report (l_oe L) quote collateral = Some report"
    and h: "HAVE_OE_HOST_VERIFY L" "oe_id_version report = 0"
    and c1: "Client_CheckEnclaveHash L c report = Inr ()" and c2: "Client_CheckSigner L c report = Inr ()"
    and c3: "Client_CheckIdentityFields L c report = Inr ()" and c4: "Client_CheckReportData L report spublic sid = Inr ()"
    using v by (auto simp: Client_VerifyQuote_def rbind_Inr_iff split: if_splits option.splits)
  have "length (EverCrypt_Hash_Incremental (l_crypto L) ds) = SHA256_SIZE" for ds
    using C by (simp add: crypto_lengths_def)
  with c4 have 4: "take SHA256_SIZE (oe_report_data report) = EverCrypt_Hash_Incremental (l_crypto L) [spublic, sid]"
    by (auto simp: Client_CheckReportData_def SHA256_list_ok [OF C] rbind_Inr_iff memcmp_eq_Inr split: if_splits)
  have "report_acceptable L c report spublic sid"
    unfolding report_acceptable_def
  proof (intro conjI impI)
    assume "cl_expected_enclave_hash c \<noteq> []"
    with c1 show "length (cl_expected_enclave_hash c) = OE_UNIQUE_ID_SIZE (l_oe L)"
      "take (OE_UNIQUE_ID_SIZE (l_oe L)) (oe_unique_id report) = cl_expected_enclave_hash c"
      by (auto simp: Client_CheckEnclaveHash_def Let_def rbind_Inr_iff memcmp_eq_Inr split: if_splits)
  next
    assume "cl_expected_enclave_signing_key_pem c \<noteq> []"
    with c2 show "PEM2MRSigner (l_crypto L) (cl_expected_enclave_signing_key_pem c) []
          = Inr (take (OE_SIGNER_ID_SIZE (l_oe L)) (oe_signer_id report))"
      by (auto simp: Client_CheckSigner_def Let_def rbind_Inr_iff memcmp_eq_Inr split: if_splits)
  qed (use h 4 c3 in \<open>auto simp: Client_CheckIdentityFields_def split: list.splits if_splits\<close>)
  with r h show ?thesis by blast
qed

lemma Client_CollectEvidence_sound:
  assumes "Client_CollectEvidence es q0 c0 = Inr (q, c)" and "q = Some quote"
  shows "q0 = Some quote \<or> (\<exists>e \<in> set es. ev_type e = EvidenceType_Quote \<and> ev_contents e = Some quote)"
  using assms
  by (induction es q0 c0 rule: Client_CollectEvidence.induct)
     (auto simp: rbind_Inr_iff deref_Inr_iff split: if_splits)

section \<open>The IVs of the requests\<close>

text \<open>The requests that leave the client, each with its plaintext, in their order.\<close>

fun client_requests :: "libs \<Rightarrow> nat \<Rightarrow> bytes list \<Rightarrow> 'd client \<Rightarrow> (bytes \<times> bytes) list" where
  "client_requests L n [] c = []"
| "client_requests L n (p # ps) c =
     (case Client_MakeRequest L p n c of
        (Inl e, c') \<Rightarrow> client_requests L n ps c'
      | (Inr msg, c') \<Rightarrow> (p, msg) # client_requests L n ps c')"

text \<open>
  The message carries the encryption of the plaintext under the IV, and names the IV: whoever shares the static part gets it from the
  message, as \<^verbatim>\<open>Server::HandleRequest\<close> does.
\<close>

definition sealed_under :: "libs \<Rightarrow> 'd client \<Rightarrow> bytes \<times> bytes \<Rightarrow> bytes \<Rightarrow> bool" where
  "sealed_under L c = (\<lambda>(plaintext, msg) iv. \<exists>r dynamic_iv ciphertext tag.
     fb_decode (l_fb L) msg = Some \<lparr>msg_version = Version_v1, msg_body = Body_Request (Some r)\<rparr>
   \<and> req_iv r = Some dynamic_iv \<and> xor_ivs (cl_static_iv c) dynamic_iv = Inr iv
   \<and> req_ciphertext r = Some ciphertext \<and> req_tag r = Some tag
   \<and> Encrypt (l_crypto L) (cl_out_symmetric_key c) iv plaintext (cl_server_nonce c)
       (replicate (length plaintext) 0) (replicate TAG_SIZE 0) = Inr (ciphertext, tag))"

lemma Client_SealRequest_sealed:
  assumes "fb_roundtrip (l_fb L)" and "length (cl_static_iv c) = IV_SIZE" and "length (cl_dynamic_iv c) = IV_SIZE"
    and "Client_SealRequest L c p n = Inr msg"
  shows "sealed_under L c (p, msg) (map2 (XOR) (cl_static_iv c) (cl_dynamic_iv c))"
  using assms
  by (auto simp: sealed_under_def Client_SealRequest_def rbind_Inr_iff xor_ivs_ok WriteMessage_Inr_iff fb_roundtrip_def
      split: if_splits)

lemma Client_MakeRequest_iv:
  assumes "length (cl_dynamic_iv c) = IV_SIZE" and "Client_MakeRequest L p n c = (r, c')"
  shows "(case r of Inl e \<Rightarrow> c' = c
    | Inr m \<Rightarrow> (\<exists>iv. c' = c\<lparr>cl_dynamic_iv := iv\<rparr> \<and> length iv = IV_SIZE
        \<and> be_value iv = (be_value (cl_dynamic_iv c) + 1) mod 2 ^ 96))"
proof (cases "Client_SealRequest L c p n")
  case (Inl e)
  with assms(2) show ?thesis by (auto simp: Client_MakeRequest_def cbind_def split: sum.splits)
next
  case (Inr m)
  obtain iv where iv: "IncrementIV (cl_dynamic_iv c) = Inr iv" using assms(1) by (auto simp: IncrementIV_def)
  have "r = Inr m" "c' = c\<lparr>cl_dynamic_iv := iv\<rparr>"
    using Inr iv assms(2) by (simp_all add: Client_MakeRequest_def cbind_def cthen_def)
  with IncrementIV_value [OF assms(1) iv] show ?thesis by auto
qed

lemma byte_xor_cancel: "(x :: byte) XOR a = x XOR b \<longleftrightarrow> a = b"
proof
  assume "x XOR a = x XOR b"
  then have "x XOR (x XOR a) = x XOR (x XOR b)" by simp
  then show "a = b" by (simp add: xor.assoc [symmetric])
qed simp

lemma map2_xor_inj:
  assumes "length s = length a" "length s = length b" "map2 (XOR) s a = map2 (XOR) s (b :: bytes)"
  shows "a = b"
proof (rule nth_equalityI)
  fix i assume "i < length a"
  then show "a ! i = b ! i"
    using assms(1,2) arg_cong [OF assms(3), where f = "\<lambda>l. l ! i"] by (simp add: byte_xor_cancel)
qed (use assms in simp)

lemma sealed_under_iv [simp]: "sealed_under L (c\<lparr>cl_dynamic_iv := iv\<rparr>) = sealed_under L c"
  by (simp add: sealed_under_def)

lemma client_requests_sealed:
  assumes "fb_roundtrip (l_fb L)" and "length (cl_static_iv c) = IV_SIZE" and "length (cl_dynamic_iv c) = IV_SIZE"
  shows "\<exists>dyn. list_all2 (\<lambda>q d. sealed_under L c q (map2 (XOR) (cl_static_iv c) d)) (client_requests L n ps c) dyn
     \<and> length dyn \<le> length ps
     \<and> (\<forall>i < length dyn. length (dyn ! i) = IV_SIZE
          \<and> be_value (dyn ! i) = (be_value (cl_dynamic_iv c) + i) mod 2 ^ 96)"
  using assms(2,3)
proof (induction ps arbitrary: c)
  case (Cons p ps)
  obtain r c' where m: "Client_MakeRequest L p n c = (r, c')" by (metis surj_pair)
  note step = Client_MakeRequest_iv [OF Cons.prems(2) m]
  show ?case
  proof (cases r)
    case (Inl e)
    with step m Cons.IH [OF Cons.prems] show ?thesis by fastforce
  next
    case (Inr msg)
    with step obtain iv where c': "c' = c\<lparr>cl_dynamic_iv := iv\<rparr>" "length iv = IV_SIZE"
      and v: "be_value iv = (be_value (cl_dynamic_iv c) + 1) mod 2 ^ 96" by auto
    have "Client_SealRequest L c p n = Inr msg"
      using m Inr by (auto simp: Client_MakeRequest_def cbind_Inr_iff cthen_Inr_iff)
    note sealed = Client_SealRequest_sealed [OF assms(1) Cons.prems this]
    obtain dyn where d: "list_all2 (\<lambda>q d. sealed_under L c q (map2 (XOR) (cl_static_iv c) d)) (client_requests L n ps c') dyn"
      "length dyn \<le> length ps"
      "\<forall>i < length dyn. length (dyn ! i) = IV_SIZE \<and> be_value (dyn ! i) = (be_value iv + i) mod 2 ^ 96"
      using Cons.IH [of c'] Cons.prems c' by auto
    have b0: "be_value (cl_dynamic_iv c) < 2 ^ 96"
      using be_value_bound [of "cl_dynamic_iv c"] Cons.prems(2) by (simp add: IV_SIZE_def)
    have "length ((cl_dynamic_iv c # dyn) ! i) = IV_SIZE \<and>
        be_value ((cl_dynamic_iv c # dyn) ! i) = (be_value (cl_dynamic_iv c) + i) mod 2 ^ 96"
      if "i < length (cl_dynamic_iv c # dyn)" for i
      using that d(3) b0 Cons.prems(2) v by (cases i) (auto simp: mod_simps)
    then show ?thesis
      using d(1,2) Inr m sealed by (intro exI [of _ "cl_dynamic_iv c # dyn"]) auto
  qed
qed simp

end
