(* ===== verification/Conf_Session.thy ===== *)
theory Conf_Session
  imports Conf_Server Conf_Client
begin

text \<open>
  The two ends of the protocol together: what a client holds once it has agreed on a key,
  the exact messages that an honest server and client exchange, and that each end opens
  what the other sealed. The client and the server are linked with the same primitives
  (\<open>l_crypto\<close>) and the same codec; the other members of \<^typ>\<open>libs\<close> may differ, as the server
  is built for the enclave and the client for the host.
\<close>

section \<open>A client that is ready, and one that has agreed on a key\<close>

definition client_ready :: "libs \<Rightarrow> 'd client \<Rightarrow> bool" where
  "client_ready L c \<longleftrightarrow>
     length (current_key (cl_key_provider c)) = KEY_SIZE
   \<and> cl_public_key c = EverCrypt_Curve25519_secret_to_public (l_crypto L) (current_key (cl_key_provider c))
   \<and> length (cl_nonce c) = NONCE_SIZE \<and> length (cl_dynamic_iv c) = IV_SIZE"

definition client_keyed :: "libs \<Rightarrow> 'd client \<Rightarrow> bytes \<Rightarrow> u32 \<Rightarrow> bool" where
  "client_keyed L c server_key v \<longleftrightarrow>
     (let secret = EverCrypt_Curve25519_ecdh (l_crypto L) server_key (cl_public_key c)
      in cl_in_symmetric_key c = derived_key (l_crypto L) True secret
       \<and> cl_out_symmetric_key c = derived_key (l_crypto L) False secret
       \<and> cl_static_iv c = derived_iv (l_crypto L) False secret
       \<and> cl_key_version c = v)"

lemma Client_new_ready:
  assumes "crypto_lengths (l_crypto L)" and "length (current_key kp) = KEY_SIZE"
    and "Client_new L (Some kp) pem eh sid dbg w = (Inr c, w')"
  shows "client_ready L c"
  using assms
  by (auto simp: Client_new_def Randomize_eq client_ready_def MakePublicKeyCurve25519_ok NONCE_SIZE_def IV_SIZE_def)

section \<open>The key exchange\<close>

definition server_key_response :: "libs \<Rightarrow> 'c server \<Rightarrow> bytes \<Rightarrow> KeyResponse" where
  "server_key_response L s client_nonce =
     \<lparr>kres_id = Some
        \<lparr>sid_nonce = Some (srv_nonce s),
         sid_service_identifier = Some (srv_service_identifier s),
         sid_server_share = Some \<lparr>ec_point_format = PointFormat_Compressed, ec_xy = Some (srv_public_key s)\<rparr>,
         sid_server_signature_share = Some \<lparr>ec_point_format = PointFormat_Compressed,
                                            ec_xy = Some (srv_public_signing_key s)\<rparr>,
         sid_signature = Some (Hacl_Ed25519_sign (l_crypto L) (current_key (srv_key_provider s))
                                 (srv_service_identifier s @ client_nonce))\<rparr>,
      kres_lifetime_hint = 0, kres_key_version = current_key_version (srv_key_provider s),
      kres_authenticator = Some (map evidence_fb (srv_evidence s))\<rparr>"

lemma Server_HandleKeyRequest_ok:
  assumes "crypto_lengths (l_crypto L)" and "length (current_key (srv_key_provider s)) = KEY_SIZE"
    and "length nonce = NONCE_SIZE"
  shows "Server_HandleKeyRequest L s \<lparr>kreq_nonce = Some nonce\<rparr> n =
    WriteMessage (fb_encode (l_fb L) \<lparr>msg_version = Version_v1,
      msg_body = Body_KeyResponse (Some (server_key_response L s nonce))\<rparr>) n"
  using assms by (simp add: Server_HandleKeyRequest_def SignCurve25519_ok server_key_response_def)

fun last_quote :: "(EvidenceType \<times> bytes) list \<Rightarrow> bytes option \<Rightarrow> bytes option" where
  "last_quote [] q = q"
| "last_quote ((Quote, x) # es) q = last_quote es (Some x)"
| "last_quote ((Collateral, x) # es) q = last_quote es q"

fun last_collateral :: "(EvidenceType \<times> bytes) list \<Rightarrow> bytes option \<Rightarrow> bytes option" where
  "last_collateral [] q = q"
| "last_collateral ((Quote, x) # es) q = last_collateral es q"
| "last_collateral ((Collateral, x) # es) q = last_collateral es (Some x)"

lemma Client_CollectEvidence_server:
  "Client_CollectEvidence (map evidence_fb es) q c = Inr (last_quote es q, last_collateral es c)"
  by (induction es q arbitrary: c rule: last_quote.induct)
     (simp_all add: EvidenceType_Quote_def EvidenceType_Collateral_def)

text \<open>The client's checks on the evidence and the identifier of a server that answers honestly.\<close>

definition client_accepts :: "libs \<Rightarrow> 'd client \<Rightarrow> 'c server \<Rightarrow> bool" where
  "client_accepts L c s \<longleftrightarrow>
     Client_CheckEvidence L c (last_quote (srv_evidence s) None) (last_collateral (srv_evidence s) None)
       (srv_public_key s) (srv_service_identifier s) = Inr ()
   \<and> Client_CheckServiceIdentifier c (srv_service_identifier s) = Inr ()"

lemma Client_VerifyKeyResponse_honest:
  assumes "crypto_lengths (l_crypto L)" and "signature_correct (l_crypto L)"
    and "l_crypto L' = l_crypto L"
    and "length (current_key (srv_key_provider s)) = KEY_SIZE" and "server_keyed L s" and "client_accepts L' c s"
  shows "Client_VerifyKeyResponse L' c (server_key_response L s (cl_nonce c))
    = Inr (srv_public_key s, Some (srv_nonce s))"
  using assms
  by (simp add: Client_VerifyKeyResponse_def server_key_response_def server_keyed_def VerifyCurve25519_ok
      Client_CollectEvidence_server client_accepts_def)

lemma Client_HandleKeyResponse_ok:
  assumes C: "crypto_lengths (l_crypto L)" "ecdh_commutes (l_crypto L)"
    and c: "client_ready L c" and k: "length key = KEY_SIZE"
    and v: "Client_VerifyKeyResponse L c r
      = Inr (EverCrypt_Curve25519_secret_to_public (l_crypto L) key, Some n)"
  shows "\<exists>c'. Client_HandleKeyResponse L r c = (Inr Result_KeyResponse, c') \<and> client_ready L c'
    \<and> client_keyed L c' key (kres_key_version r) \<and> cl_server_nonce c' = n
    \<and> cl_dynamic_iv c' = cl_dynamic_iv c"
proof -
  have pub: "length (EverCrypt_Curve25519_secret_to_public (l_crypto L) key) = KEY_SIZE"
    using C(1) by (simp add: crypto_lengths_def)
  have sec: "length (EverCrypt_Curve25519_ecdh (l_crypto L) a b) = KEY_SIZE" for a b
    using C(1) by (simp add: crypto_lengths_def)
  have comm: "EverCrypt_Curve25519_ecdh (l_crypto L) key (cl_public_key c)
      = EverCrypt_Curve25519_ecdh (l_crypto L) (current_key (cl_key_provider c))
          (EverCrypt_Curve25519_secret_to_public (l_crypto L) key)"
    using C(2) c k by (simp add: ecdh_commutes_def client_ready_def)
  show ?thesis
    using c v comm C(1)
    by (simp add: Client_HandleKeyResponse_def cbind_def cthen_def
        ComputeSharedSecretCurve25519_ok pub DeriveSymmetricKey_ok sec client_ready_def client_keyed_def
        Result_CreateKeyResponse_def Let_def)
qed

section \<open>A request and its response\<close>

definition client_request :: "libs \<Rightarrow> 'd client \<Rightarrow> bytes \<Rightarrow> Request" where
  "client_request L c p =
     (let iv = map2 (XOR) (cl_static_iv c) (cl_dynamic_iv c); k = cl_out_symmetric_key c; ad = cl_server_nonce c
      in \<lparr>req_key_version = cl_key_version c, req_iv = Some (cl_dynamic_iv c),
          req_tag = Some (aead_tag (l_crypto L) k iv ad p),
          req_client_share = Some \<lparr>ec_point_format = PointFormat_Compressed, ec_xy = Some (cl_public_key c)\<rparr>,
          req_additional_data = Some ad, req_ciphertext = Some (aead_cipher (l_crypto L) k iv ad p)\<rparr>)"

lemma client_keyed_lengths:
  assumes "crypto_lengths (l_crypto L)" and "client_ready L c" and "client_keyed L c key v"
  shows "length (cl_public_key c) = KEY_SIZE" "length (cl_out_symmetric_key c) = SYMMETRIC_KEY_SIZE"
    "length (cl_in_symmetric_key c) = SYMMETRIC_KEY_SIZE"
    "length (cl_static_iv c) = IV_SIZE" "length (cl_dynamic_iv c) = IV_SIZE"
  using assms by (auto simp: client_ready_def client_keyed_def Let_def) (simp add: crypto_lengths_def)

lemma Client_SealRequest_ok:
  assumes C: "crypto_lengths (l_crypto L)" "aead_correct (l_crypto L)"
    and c: "client_ready L c" "client_keyed L c key v"
  shows "Client_SealRequest L c p n = WriteMessage (fb_encode (l_fb L)
    \<lparr>msg_version = Version_v1, msg_body = Body_Request (Some (client_request L c p))\<rparr>) n"
  using client_keyed_lengths [OF C(1) c] C(2)
  by (simp add: Client_SealRequest_def client_request_def xor_ivs_ok Encrypt_ok Let_def)

lemma Client_MakeRequest_ok:
  assumes C: "crypto_lengths (l_crypto L)" "aead_correct (l_crypto L)"
    and c: "client_ready L c" "client_keyed L c key v"
    and fits: "length (fb_encode (l_fb L) \<lparr>msg_version = Version_v1,
       msg_body = Body_Request (Some (client_request L c p))\<rparr>) \<le> n"
  shows "\<exists>iv. IncrementIV (cl_dynamic_iv c) = Inr iv \<and> Client_MakeRequest L p n c =
    (Inr (fb_encode (l_fb L) \<lparr>msg_version = Version_v1, msg_body = Body_Request (Some (client_request L c p))\<rparr>),
     c\<lparr>cl_dynamic_iv := iv\<rparr>)"
proof -
  have "length (cl_dynamic_iv c) = IV_SIZE" by (rule client_keyed_lengths [OF C(1) c])
  then obtain iv where "IncrementIV (cl_dynamic_iv c) = Inr iv"
    by (auto simp: IncrementIV_def)
  with fits show ?thesis
    by (simp add: Client_MakeRequest_def cbind_def cthen_def Client_SealRequest_ok [OF C c] WriteMessage_def)
qed

text \<open>With a buffer that is large enough, every request is sent.\<close>

lemma client_requests_all:
  assumes C: "crypto_lengths (l_crypto L)" "aead_correct (l_crypto L)"
    and c: "client_ready L c" "client_keyed L c key v"
  shows "\<exists>N. \<forall>n\<ge>N. map fst (client_requests L n ps c) = ps"
  using c
proof (induction ps arbitrary: c)
  case (Cons p ps)
  have dyn: "length (cl_dynamic_iv c) = IV_SIZE" by (rule client_keyed_lengths [OF C(1) Cons.prems])
  then obtain iv where iv: "IncrementIV (cl_dynamic_iv c) = Inr iv" by (auto simp: IncrementIV_def)
  let ?c = "c\<lparr>cl_dynamic_iv := iv\<rparr>"
  let ?m = "fb_encode (l_fb L) \<lparr>msg_version = Version_v1, msg_body = Body_Request (Some (client_request L c p))\<rparr>"
  have "client_ready L ?c" "client_keyed L ?c key v"
    using Cons.prems IncrementIV_value [OF dyn iv] by (simp_all add: client_ready_def client_keyed_def Let_def)
  then obtain N where N: "\<forall>n\<ge>N. map fst (client_requests L n ps ?c) = ps" using Cons.IH by blast
  have "map fst (client_requests L n (p # ps) c) = p # ps" if "n \<ge> max N (length ?m)" for n
    using that N Client_MakeRequest_ok [OF C Cons.prems, of p n] iv by auto
  then show ?case by blast
qed simp

lemma Server_OpenRequest_ok:
  assumes C: "crypto_lengths (l_crypto L)" "aead_correct (l_crypto L)" and eq: "l_crypto L' = l_crypto L"
    and c: "client_ready L' c" "client_keyed L' c key v"
    and g: "GetKey (srv_key_provider s) v = Inr key" and k: "length key = KEY_SIZE"
  shows "Server_OpenRequest L s (client_request L' c p)
    = Inr (EverCrypt_Curve25519_ecdh (l_crypto L) key (cl_public_key c), p)"
proof -
  let ?sec = "EverCrypt_Curve25519_ecdh (l_crypto L) key (cl_public_key c)"
  have sec: "length ?sec = KEY_SIZE" using C(1) by (simp add: crypto_lengths_def)
  note len = client_keyed_lengths [OF C(1) [folded eq] c]
  have ks: "cl_out_symmetric_key c = derived_key (l_crypto L) False ?sec"
      "cl_static_iv c = derived_iv (l_crypto L) False ?sec" "cl_key_version c = v"
    using c(2) eq by (simp_all add: client_keyed_def Let_def)
  have "length (map2 (XOR) (cl_static_iv c) (cl_dynamic_iv c)) = IV_SIZE" using len by simp
  then show ?thesis
    using len g k C
    by (simp add: Server_OpenRequest_def client_request_def Let_def eq ks sec aead_correctD
        ComputeSharedSecretCurve25519_ok DeriveSymmetricKey_ok xor_ivs_ok Decrypt_ok)
qed

definition server_response :: "libs \<Rightarrow> 'c server \<Rightarrow> bytes \<Rightarrow> bytes \<Rightarrow> bool \<Rightarrow> Response" where
  "server_response L s secret answer outdated =
     (let k = derived_key (l_crypto L) True secret; iv = derived_iv (l_crypto L) True secret
      in \<lparr>res_key_outdated = outdated, res_iv = Some iv,
          res_tag = Some (aead_tag (l_crypto L) k iv (srv_nonce s) answer),
          res_additional_data = Some (srv_nonce s),
          res_ciphertext = Some (aead_cipher (l_crypto L) k iv (srv_nonce s) answer)\<rparr>)"

lemma Server_SealResponse_ok:
  assumes "crypto_lengths (l_crypto L)" "aead_correct (l_crypto L)" "length secret = KEY_SIZE"
    and "IsKeyOutdated (srv_key_provider s) v = Inr b"
  shows "Server_SealResponse L s v secret answer n = WriteMessage (fb_encode (l_fb L)
    \<lparr>msg_version = Version_v1, msg_body = Body_Response (Some (server_response L s secret answer b))\<rparr>) n"
  using assms by (simp add: Server_SealResponse_def server_response_def DeriveSymmetricKey_ok Encrypt_ok Let_def)

lemma Client_HandleResponse_ok:
  assumes C: "crypto_lengths (l_crypto L)" "aead_correct (l_crypto L)" and eq: "l_crypto L' = l_crypto L"
    and k: "client_keyed L' c key v"
  shows "Client_HandleResponse L' c
      (server_response L s (EverCrypt_Curve25519_ecdh (l_crypto L) key (cl_public_key c)) answer b)
    = Inr (Result_Response answer b)"
  using C k
  by (simp add: Client_HandleResponse_def server_response_def client_keyed_def Let_def eq aead_correctD
      Decrypt_ok Result_CreateResponse_def)

text \<open>The server's answer to a well-formed request under a key it still holds.\<close>

lemma Server_RespondToMessage_request:
  assumes C: "crypto_lengths (l_crypto L)" "aead_correct (l_crypto L)" and fb: "fb_roundtrip (l_fb L)"
    and eq: "l_crypto L' = l_crypto L"
    and c: "client_ready L' c" "client_keyed L' c key v"
    and g: "GetKey (srv_key_provider s) v = Inr key" and k: "length key = KEY_SIZE"
    and o: "IsKeyOutdated (srv_key_provider s) v = Inr b"
    and v: "\<not> v > current_key_version (srv_key_provider s)"
  shows "Server_RespondToMessage L D f (fb_encode (l_fb L) \<lparr>msg_version = Version_v1,
       msg_body = Body_Request (Some (client_request L' c p))\<rparr>) n (s, w) =
    (case f p w of
       (Inl e, w') \<Rightarrow> (Inl e, (s, w'))
     | (Inr answer, w') \<Rightarrow>
         (WriteMessage (fb_encode (l_fb L) \<lparr>msg_version = Version_v1, msg_body = Body_Response (Some
            (server_response L s (EverCrypt_Curve25519_ecdh (l_crypto L) key (cl_public_key c)) answer b))\<rparr>) n,
          (s, w')))"
proof -
  have kv: "req_key_version (client_request L' c p) = v"
    using c(2) by (simp add: client_request_def client_keyed_def Let_def)
  have sec: "length (EverCrypt_Curve25519_ecdh (l_crypto L) key (cl_public_key c)) = KEY_SIZE"
    using C(1) by (simp add: crypto_lengths_def)
  have dec: "fb_decode (l_fb L) (fb_encode (l_fb L) m) = Some m" for m
    using fb by (simp add: fb_roundtrip_def)
  show ?thesis
    using v by (simp add: Server_RespondToMessage_def dec Server_HandleRequest_def Server_SyncForClient_def kv
      cbind_def cthen_def Server_OpenRequest_ok [OF C eq c g k] Server_SealResponse_ok [OF C sec o]
      split: prod.splits sum.splits)
qed

section \<open>A session of one client with one server\<close>

type_synonym ('d, 'c, 'w, 'a) session = "('d client \<times> 'c server \<times> 'w world_scheme, exn, 'a) comp"

definition on_client :: "('d, 'a) cl_comp \<Rightarrow> ('d, 'c, 'w, 'a) session" where
  "on_client m = czoom fst (\<lambda>c (_, sw). (c, sw)) m"

definition on_server :: "('c, 'w, 'a) srv_comp \<Rightarrow> ('d, 'c, 'w, 'a) session" where
  "on_server m = czoom snd (\<lambda>sw (c, _). (c, sw)) m"

lemma on_client_eq: "on_client m (c, sw) = (case m c of (r, c') \<Rightarrow> (r, (c', sw)))"
  by (simp add: on_client_def czoom_def)

lemma on_server_eq: "on_server m (c, sw) = (case m sw of (r, sw') \<Rightarrow> (r, (c, sw')))"
  by (simp add: on_server_def czoom_def)

text \<open>
  Every message reaches the other end unchanged; \<open>n\<close> is the size of every message buffer.
\<close>

definition key_exchange ::
    "libs \<Rightarrow> libs \<Rightarrow> (bool \<Rightarrow> ('c, 'w, bool) kp_comp) \<Rightarrow> 'w callback \<Rightarrow> nat \<Rightarrow> ('d, 'c, 'w, Result) session" where
  "key_exchange Lc Ls D f n =
     cbind (on_client (\<lambda>c. (Client_MakeKeyRequest Lc c n, c))) (\<lambda>m.
     cbind (on_server (Server_RespondToMessage Ls D f m n)) (\<lambda>m'.
       on_client (Client_HandleMessage Lc m')))"

definition request_exchange ::
    "libs \<Rightarrow> libs \<Rightarrow> (bool \<Rightarrow> ('c, 'w, bool) kp_comp) \<Rightarrow> 'w callback \<Rightarrow> bytes \<Rightarrow> nat \<Rightarrow> ('d, 'c, 'w, Result) session" where
  "request_exchange Lc Ls D f p n =
     cbind (on_client (Client_MakeRequest Lc p n)) (\<lambda>m.
     cbind (on_server (Server_RespondToMessage Ls D f m n)) (\<lambda>m'.
       on_client (Client_HandleMessage Lc m')))"

text \<open>The two ends speak the same protocol version with the same libraries.\<close>

definition linked :: "libs \<Rightarrow> libs \<Rightarrow> bool" where
  "linked Lc Ls \<longleftrightarrow> l_crypto Lc = l_crypto Ls \<and> l_fb Lc = l_fb Ls
     \<and> crypto_correct (l_crypto Ls) \<and> fb_roundtrip (l_fb Ls)"

lemma linkedD:
  assumes "linked Lc Ls"
  shows "l_crypto Lc = l_crypto Ls" "l_fb Lc = l_fb Ls"
    "crypto_lengths (l_crypto Ls)" "ecdh_commutes (l_crypto Ls)" "aead_correct (l_crypto Ls)"
    "signature_correct (l_crypto Ls)" "fb_roundtrip (l_fb Ls)"
    "fb_decode (l_fb Ls) (fb_encode (l_fb Ls) m) = Some m"
  using assms by (simp_all add: linked_def crypto_correct_def fb_roundtrip_def)

lemma key_exchange_ok:
  assumes L: "linked Lc Ls" and c: "client_ready Lc c" and s: "server_keyed Ls s"
    and k: "length (current_key (srv_key_provider s)) = KEY_SIZE" and acc: "client_accepts Lc c s"
  shows "\<exists>c' N. (\<forall>n\<ge>N. key_exchange Lc Ls D f n (c, s, w) = (Inr Result_KeyResponse, (c', s, w)))
    \<and> client_ready Lc c'
    \<and> client_keyed Lc c' (current_key (srv_key_provider s)) (current_key_version (srv_key_provider s))"
proof -
  note l = linkedD [OF L]
  let ?m1 = "fb_encode (l_fb Ls) \<lparr>msg_version = Version_v1,
     msg_body = Body_KeyRequest (Some \<lparr>kreq_nonce = Some (cl_nonce c)\<rparr>)\<rparr>"
  let ?r = "server_key_response Ls s (cl_nonce c)"
  let ?m2 = "fb_encode (l_fb Ls) \<lparr>msg_version = Version_v1, msg_body = Body_KeyResponse (Some ?r)\<rparr>"
  have nl: "length (cl_nonce c) = NONCE_SIZE" using c by (simp add: client_ready_def)
  have v: "Client_VerifyKeyResponse Lc c ?r
    = Inr (EverCrypt_Curve25519_secret_to_public (l_crypto Lc) (current_key (srv_key_provider s)), Some (srv_nonce s))"
    using Client_VerifyKeyResponse_honest [OF l(3) l(6) l(1) k s acc] s l(1) by (simp add: server_keyed_def)
  from Client_HandleKeyResponse_ok [OF _ _ c k v] l obtain c' where
    h: "Client_HandleKeyResponse Lc ?r c = (Inr Result_KeyResponse, c')" and c': "client_ready Lc c'"
      "client_keyed Lc c' (current_key (srv_key_provider s)) (kres_key_version ?r)" by auto
  have "key_exchange Lc Ls D f n (c, s, w) = (Inr Result_KeyResponse, (c', s, w))"
    if "n \<ge> max (length ?m1) (length ?m2)" for n
    using that h
    by (simp add: key_exchange_def cbind_def on_client_eq on_server_eq Client_MakeKeyRequest_def l
        WriteMessage_def Server_RespondToMessage_def Server_HandleKeyRequest_ok [OF l(3) k nl] Client_HandleMessage_def)
  moreover have "kres_key_version ?r = current_key_version (srv_key_provider s)"
    by (simp add: server_key_response_def)
  ultimately show ?thesis using c' by metis
qed

lemma request_exchange_full:
  assumes L: "linked Lc Ls" and c: "client_ready Lc c" "client_keyed Lc c key v"
    and g: "GetKey (srv_key_provider s) v = Inr key" and k: "length key = KEY_SIZE"
    and o: "IsKeyOutdated (srv_key_provider s) v = Inr b"
    and v: "\<not> v > current_key_version (srv_key_provider s)"
    and f: "f p w = (Inr answer, w')"
  shows "\<exists>c' N. (\<forall>n\<ge>N. request_exchange Lc Ls D f p n (c, s, w) = (Inr (Result_Response answer b), (c', s, w')))
    \<and> client_ready Lc c' \<and> client_keyed Lc c' key v"
proof -
  note l = linkedD [OF L]
  let ?m1 = "fb_encode (l_fb Ls) \<lparr>msg_version = Version_v1, msg_body = Body_Request (Some (client_request Lc c p))\<rparr>"
  let ?r = "server_response Ls s (EverCrypt_Curve25519_ecdh (l_crypto Ls) key (cl_public_key c)) answer b"
  let ?m2 = "fb_encode (l_fb Ls) \<lparr>msg_version = Version_v1, msg_body = Body_Response (Some ?r)\<rparr>"
  have C: "crypto_lengths (l_crypto Lc)" "aead_correct (l_crypto Lc)" using l by simp_all
  have "length (cl_dynamic_iv c) = IV_SIZE" using c(1) by (simp add: client_ready_def)
  then obtain iv where iv: "IncrementIV (cl_dynamic_iv c) = Inr iv" by (auto simp: IncrementIV_def)
  let ?c' = "c\<lparr>cl_dynamic_iv := iv\<rparr>"
  have kc': "client_keyed Lc ?c' key v" using c(2) by (simp add: client_keyed_def)
  have cpk: "cl_public_key ?c' = cl_public_key c" by simp
  have h: "Client_HandleResponse Lc ?c' ?r = Inr (Result_Response answer b)"
    using Client_HandleResponse_ok [OF l(3) l(5) l(1) kc'] unfolding cpk .
  have "request_exchange Lc Ls D f p n (c, s, w) = (Inr (Result_Response answer b), (?c', s, w'))"
    if n: "n \<ge> max (length ?m1) (length ?m2)" for n
  proof -
    have mr: "Client_MakeRequest Lc p n c = (Inr ?m1, ?c')"
      using Client_MakeRequest_ok [OF C c, of p n] n iv l(2) by simp
    show ?thesis
      using n h mr
      by (simp add: request_exchange_def cbind_def on_client_eq on_server_eq l(2)
          Server_RespondToMessage_request [OF l(3) l(5) l(7) l(1) c g k o v] f WriteMessage_def
          Client_HandleMessage_def l(8))
  qed
  moreover have "client_ready Lc ?c'"
    using c(1) iv by (auto simp: client_ready_def IncrementIV_def split: if_splits)
  ultimately show ?thesis using kc' by blast
qed

lemma request_exchange_ok:
  assumes "linked Lc Ls" and "client_ready Lc c" "client_keyed Lc c key v"
    and "GetKey (srv_key_provider s) v = Inr key" and "length key = KEY_SIZE"
    and "IsKeyOutdated (srv_key_provider s) v = Inr b"
    and "\<not> v > current_key_version (srv_key_provider s)" and "f p w = (Inr answer, w')"
  shows "\<exists>c' N. \<forall>n\<ge>N. request_exchange Lc Ls D f p n (c, s, w) = (Inr (Result_Response answer b), (c', s, w'))"
  using request_exchange_full [where f = f, OF assms] by blast

section \<open>Key rollover\<close>

lemma Server_RefreshKey_ed25519:
  assumes inv: "ed25519_inv (srv_key_provider s)"
    and e: "Server_RefreshKey L RandomEd25519KeyProvider_DoRefreshKey False (s, w) = (Inr b, (s', w'))"
  shows "previous_key (srv_key_provider s') = current_key (srv_key_provider s)"
    and "previous_key_version (srv_key_provider s') = current_key_version (srv_key_provider s)"
    and "current_key_version (srv_key_provider s') = current_key_version (srv_key_provider s) + 1"
    and "ed25519_inv (srv_key_provider s')"
proof -
  let ?kp = "srv_key_provider s"
  have sz: "kp_sized 32 ?kp" using inv by (simp add: ed25519_inv_def)
  obtain r0 kp0 w0 where e0: "KeyProvider_RefreshKey RandomEd25519KeyProvider_DoRefreshKey False (?kp, w) = (r0, (kp0, w0))"
    by (metis surj_pair)
  have kp0: "r0 = Inr True" "previous_key kp0 = current_key ?kp" "previous_key_version kp0 = current_key_version ?kp"
      "current_key_version kp0 = current_key_version ?kp + 1"
    using e0 RandomEd25519_refresh_eq [OF sz, of w]
    by (auto simp: KeyProvider_RefreshKey_def cbind_def split: prod.splits)
  have i0: "ed25519_inv kp0" using ed25519_kp.RefreshKey_inv [OF inv e0] by simp
  have "srv_key_provider s' = kp0"
    using e e0 kp0(1)
    by (auto simp: Server_RefreshKey_def cbind_def cthen_def on_provider_eq Server_MakePublicKeys_def
        Server_UpdateEvidence_def split: prod.splits sum.splits if_splits)
  with kp0 i0 show "previous_key (srv_key_provider s') = current_key ?kp"
    "previous_key_version (srv_key_provider s') = current_key_version ?kp"
    "current_key_version (srv_key_provider s') = current_key_version ?kp + 1"
    "ed25519_inv (srv_key_provider s')" by simp_all
qed

lemma word32_incr: "(v :: u32) + 1 \<noteq> v" "v + 1 + 1 \<noteq> v"
  by (simp_all add: add.assoc)

lemma word32_incr_greater: "(v :: u32) \<noteq> - 1 \<Longrightarrow> v < v + 1"
  using unatSuc [of v] max_word_wrap [of v] by (metis add.commute lessI word_less_nat_alt)

lemma Server_RefreshKey_ed25519_succeeds:
  assumes C: "crypto_lengths (l_crypto L)" and inv: "ed25519_inv (srv_key_provider s)"
    and q: "\<And>h. \<exists>q. oe_get_report (l_oe L) h = Inr q"
  shows "\<exists>s' w'. Server_RefreshKey L RandomEd25519KeyProvider_DoRefreshKey False (s, w) = (Inr True, (s', w'))"
proof -
  let ?kp = "srv_key_provider s"
  have sz: "kp_sized 32 ?kp" using inv by (simp add: ed25519_inv_def)
  obtain r0 kp0 w0 where e0: "KeyProvider_RefreshKey RandomEd25519KeyProvider_DoRefreshKey False (?kp, w) = (r0, (kp0, w0))"
    by (metis surj_pair)
  have "r0 = Inr True"
    using e0 RandomEd25519_refresh_eq [OF sz, of w]
    by (auto simp: KeyProvider_RefreshKey_def cbind_def split: prod.splits)
  moreover have "ed25519_inv kp0" using ed25519_kp.RefreshKey_inv [OF inv e0] by simp
  moreover obtain q where "oe_get_report (l_oe L) (EverCrypt_Hash_Incremental (l_crypto L)
      [EverCrypt_Curve25519_secret_to_public (l_crypto L) (current_key kp0), srv_service_identifier s]) = Inr q"
    using q by blast
  ultimately show ?thesis
    using e0 C
    by (auto simp: Server_RefreshKey_def cbind_def cthen_def on_provider_eq Server_MakePublicKeys_ok
        ed25519_kp.inv_sized ed25519_kp.inv_curve Server_UpdateEvidence_def Server_GenerateQuote_def SHA256_list_ok)
qed

lemma Server_OpenRequest_no_key:
  assumes C: "crypto_lengths (l_crypto L)" "aead_correct (l_crypto L)"
    and c: "client_ready L c" "client_keyed L c key v"
    and g: "GetKey (srv_key_provider s) v = Inl e"
  shows "Server_OpenRequest L' s (client_request L c p) = Inl e"
proof -
  note len = client_keyed_lengths [OF C(1) c]
  have "cl_key_version c = v" using c(2) by (simp add: client_keyed_def Let_def)
  moreover have "length (map2 (XOR) (cl_static_iv c) (cl_dynamic_iv c)) = IV_SIZE" using len by simp
  ultimately show ?thesis
    using len g C by (simp add: Server_OpenRequest_def client_request_def Let_def aead_correctD)
qed

end
