(* ===== verification/Http_Client.thy ===== *)
theory Http_Client
  imports Text_Util Key_Provider
begin

text \<open>
  HTTP from inside the enclave: the authentication challenge parser
  (\<^verbatim>\<open>server/shared/http_challenge.cc\<close>) and the curl wrapper with its OAuth client
  (\<^verbatim>\<open>server/shared/curl_helper.cc\<close>). libcurl and nlohmann::json are not part of the
  repository: a call of \<^verbatim>\<open>curl_easy_perform\<close> is a function of the request it was
  configured with and the state of the network, and a JSON value is used only through the
  operations of \<open>json_lib\<close>. The verbose output and curl's global set-up are left out.
\<close>

section \<open>Authentication challenges (http_challenge.cc)\<close>

record http_challenge =
  ch_scheme :: string
  ch_parameters :: str_map

definition BearerPrefix :: string where "BearerPrefix = ''Bearer ''"
definition Authorization :: string where "Authorization = ''authorization''"
definition AuthorizationUri :: string where "AuthorizationUri = ''authorization_uri''"
definition ResourceParam :: string where "ResourceParam = ''resource''"

text \<open>\<^verbatim>\<open>s.find(pat) != npos\<close>.\<close>

definition str_contains :: "string \<Rightarrow> string \<Rightarrow> bool" where
  "str_contains s pat \<longleftrightarrow> list_ex (\<lambda>i. take (length pat) (drop i s) = pat) [0..<Suc (length s)]"

definition isBearerChallenge :: "string \<Rightarrow> bool" where
  "isBearerChallenge challenge \<longleftrightarrow> str_contains challenge BearerPrefix"

text \<open>The loop over the comma-separated pairs.\<close>

fun parse_pairs :: "string list \<Rightarrow> str_map \<Rightarrow> str_map" where
  "parse_pairs [] params = params"
| "parse_pairs (key_val_pair # ps) params =
     (case Split key_val_pair CHR ''='' of
        [k, v] \<Rightarrow>
          (let key = Trim_char (Trim k) (CHR 0x22); val = Trim_char (Trim v) (CHR 0x22)
           in parse_pairs ps (if key \<noteq> [] then map_assign key val params else params))
      | _ \<Rightarrow> parse_pairs ps params)"

definition parseChallenge :: "string \<Rightarrow> exn + http_challenge" where
  "parseChallenge challenge =
     (if challenge = [] then Inl (InvalidArgument ''challenge'')
      else
        let trimmed = Trim challenge
        in case find_char trimmed CHR '' '' 0 of
             None \<Rightarrow> Inl (InvalidArgument ''challenge'')
           | Some position \<Rightarrow>
               let scheme = take position trimmed;
                   rest = drop (position + 1) trimmed;
                   params = parse_pairs (Split rest CHR '','') []
               in if params = [] then Inl (InvalidArgument ''Invalid challenge parameters'')
                  else Inr \<lparr>ch_scheme = scheme, ch_parameters = params\<rparr>)"

definition HttpChallenge_new :: "string \<Rightarrow> exn + http_challenge" where
  "HttpChallenge_new challenge =
     (if challenge = [] then Inl (InvalidArgument ''challenge'') else parseChallenge challenge)"

definition ch_authority :: "http_challenge \<Rightarrow> exn + string" where
  "ch_authority ch =
     (case map_of (ch_parameters ch) Authorization of
        Some v \<Rightarrow> Inr v
      | None \<Rightarrow>
          (case map_of (ch_parameters ch) AuthorizationUri of
             Some v \<Rightarrow> Inr v
           | None \<Rightarrow> Inl (RuntimeError ''authority not found'')))"

definition ch_resource :: "http_challenge \<Rightarrow> exn + string" where
  "ch_resource ch =
     (case map_of (ch_parameters ch) ResourceParam of
        Some v \<Rightarrow> Inr v
      | None \<Rightarrow> Inl (RuntimeError ''resource not found''))"

section \<open>The libraries\<close>

text \<open>
  A transfer may follow redirects to other URLs when it is configured so: that happens inside of \<^verbatim>\<open>curl_easy_perform\<close>. The header
  lines of the reply are then those of every response on the way, in order, and the code is the last one.
\<close>

datatype HttpMethod = GET | POST | PUT | DELETE

record curl_request =
  cu_url :: string
  cu_followlocation :: bool
  cu_method :: HttpMethod
  cu_body :: "string option"
  cu_headers :: "string list"
  cu_verifyhost :: nat
  cu_verifypeer :: bool

record curl_reply =
  cr_result :: int
  cr_code :: int
  cr_chunks :: "string list"
  cr_header_lines :: "string list"

record 'v curl_lib =
  curl_easy_init :: bool
  curl_easy_escape :: "string \<Rightarrow> string option"
  curl_easy_perform :: "curl_request \<Rightarrow> 'v \<Rightarrow> curl_reply \<times> 'v"
  curl_easy_strerror :: "int \<Rightarrow> string"

definition CURLE_OK :: int where "CURLE_OK = 0"

text \<open>
  \<^verbatim>\<open>parse\<close>, \<^verbatim>\<open>operator[]\<close>, \<^verbatim>\<open>find(k) != end()\<close>, the conversion to a string and the
  comparison with a string; the ones that throw return a sum.
\<close>

record 'j json_lib =
  json_parse :: "string \<Rightarrow> exn + 'j"
  json_index :: "'j \<Rightarrow> string \<Rightarrow> exn + 'j"
  json_has :: "'j \<Rightarrow> string \<Rightarrow> bool"
  json_string :: "'j \<Rightarrow> exn + string"
  json_eq_string :: "'j \<Rightarrow> string \<Rightarrow> bool"

record ('v, 'j) net_lib =
  n_curl :: "'v curl_lib"
  n_json :: "'j json_lib"

text \<open>The network beside the random engine and the clock.\<close>

record 'v net_world = world + w_net :: 'v

type_synonym ('v, 'a) net_comp = "('v net_world, exn, 'a) comp"

section \<open>Curl (curl_helper.cc)\<close>

definition make_map :: "(string \<times> string) list \<Rightarrow> str_map" where
  "make_map kvs = fold (\<lambda>(k, v) m. map_emplace k v m) kvs []"

definition CurlWriteCallback :: "string \<Rightarrow> string \<Rightarrow> string" where
  "CurlWriteCallback chunk s = s @ chunk"

definition CurlHeaderCallback :: "string \<Rightarrow> str_map \<Rightarrow> str_map" where
  "CurlHeaderCallback header s =
     (case find_char header CHR '':'' 0 of
        None \<Rightarrow> s
      | Some loc \<Rightarrow> map_emplace (Trim (take loc header)) (Trim (drop (loc + 1) header)) s)"

fun Curl_fields :: "(string \<Rightarrow> string option) \<Rightarrow> bool \<Rightarrow> str_map \<Rightarrow> exn + string" where
  "Curl_fields escape first [] = Inr []"
| "Curl_fields escape first ((k, v) # fs) =
     (case escape v of
        None \<Rightarrow> Inl (RuntimeError (''curl escape error for: '' @ v))
      | Some e \<Rightarrow>
          rbind (Curl_fields escape False fs) (\<lambda>rest.
            Inr ((if first then [] else ''&'') @ k @ ''='' @ e @ rest)))"

definition Curl_body :: "(string \<Rightarrow> string option) \<Rightarrow> str_map \<Rightarrow> exn + string" where
  "Curl_body escape req_fields =
     (case map_of req_fields [] of
        Some body \<Rightarrow> Inr body
      | None \<Rightarrow> Curl_fields escape True req_fields)"

text \<open>The request as the sequence of \<^verbatim>\<open>curl_easy_setopt\<close> calls leaves it configured.\<close>

definition Curl_configure :: "string \<Rightarrow> string \<Rightarrow> str_map \<Rightarrow> HttpMethod \<Rightarrow> curl_request" where
  "Curl_configure url req headers method =
     \<lparr>cu_url = url, cu_followlocation = True,
      cu_method = (if method = GET \<and> req \<noteq> [] then POST else method),
      cu_body = (if req \<noteq> [] then Some req else None),
      cu_headers = map (\<lambda>(k, v). k @ '': '' @ v) headers,
      cu_verifyhost = 2, cu_verifypeer = True\<rparr>"

text \<open>
  The \<^verbatim>\<open>throw CurlOtherError(url, err_s, result)\<close> passes the URL where the constructor
  takes the message, and the message where it takes the URL.
\<close>

definition Curl :: "'v curl_lib \<Rightarrow> string \<Rightarrow> str_map \<Rightarrow> str_map \<Rightarrow> HttpMethod \<Rightarrow> ('v, string) net_comp" where
  "Curl C url req_fields headers method w =
     (if \<not> curl_easy_init C then (Inl (RuntimeError ''Error initializing curl''), w)
      else
        case Curl_body (curl_easy_escape C) req_fields of
          Inl e \<Rightarrow> (Inl e, w)
        | Inr req \<Rightarrow>
            (case curl_easy_perform C (Curl_configure url req headers method) (w_net w) of
               (reply, v) \<Rightarrow>
                 let w' = w\<lparr>w_net := v\<rparr>;
                     response = fold CurlWriteCallback (cr_chunks reply) [];
                     response_headers = fold CurlHeaderCallback (cr_header_lines reply) []
                 in if cr_result reply \<noteq> CURLE_OK
                    then (Inl (CurlOtherError url (curl_easy_strerror C (cr_result reply)) (cr_result reply)), w')
                    else if cr_code reply \<ge> 400
                    then (Inl (CurlHTTPError url (cr_code reply) response_headers), w')
                    else (Inr response, w')))"

definition token_fields :: "string \<Rightarrow> string \<Rightarrow> string \<Rightarrow> str_map" where
  "token_fields resource app_id app_password =
     make_map [(''grant_type'', ''client_credentials''), (''client_id'', app_id),
               (''client_secret'', app_password), (''resource'', resource)]"

definition token_headers :: str_map where
  "token_headers = make_map [(''Content-Type'', ''application/x-www-form-urlencoded''), (''Accept'', ''application/json'')]"

definition token_of :: "'j json_lib \<Rightarrow> string \<Rightarrow> string \<Rightarrow> exn + string" where
  "token_of J resource response_str =
     rbind (json_parse J response_str) (\<lambda>response.
     rbind (json_index J response ''resource'') (\<lambda>res.
       if \<not> json_eq_string J res resource then Inl (RuntimeError ''Unexpected token type'')
       else
         rbind (json_index J response ''token_type'') (\<lambda>tt.
           if \<not> json_eq_string J tt ''Bearer'' then Inl (RuntimeError ''Unexpected token type'')
           else rbind (json_index J response ''access_token'') (json_string J))))"

definition FetchOAuthToken ::
    "('v, 'j) net_lib \<Rightarrow> string \<Rightarrow> string \<Rightarrow> string \<Rightarrow> string \<Rightarrow> ('v, string) net_comp" where
  "FetchOAuthToken N authority_url resource app_id app_password =
     cbind (Curl (n_curl N) (authority_url @ ''/oauth2/token'') (token_fields resource app_id app_password) token_headers GET)
       (\<lambda>response_str. clift (token_of (n_json N) resource response_str))"

section \<open>HTTPClient\<close>

record http_client =
  hc_app_id :: string
  hc_app_password :: string
  hc_token :: string

definition HTTPClient_new :: "string \<Rightarrow> string \<Rightarrow> http_client" where
  "HTTPClient_new app_id app_password = \<lparr>hc_app_id = app_id, hc_app_password = app_password, hc_token = []\<rparr>"

definition to_lower :: "string \<Rightarrow> string" where
  "to_lower s = map tolower s"

fun find_header :: "string \<Rightarrow> str_map \<Rightarrow> string option" where
  "find_header name [] = None"
| "find_header name ((k, v) # hs) = (if to_lower k = to_lower name then Some v else find_header name hs)"

type_synonym ('v, 'a) http_comp = "(http_client \<times> 'v net_world, exn, 'a) comp"

definition with_token :: "str_map \<Rightarrow> string \<Rightarrow> str_map" where
  "with_token headers token = map_assign ''Authorization'' (''Bearer '' @ token) headers"

definition HTTPClient_Request_fields ::
    "('v, 'j) net_lib \<Rightarrow> string \<Rightarrow> str_map \<Rightarrow> str_map \<Rightarrow> HttpMethod \<Rightarrow> ('v, string) http_comp" where
  "HTTPClient_Request_fields N url req_fields headers method = (\<lambda>(c, w).
     case (if hc_token c \<noteq> [] then Curl (n_curl N) url req_fields (with_token headers (hc_token c)) method w
           else Curl (n_curl N) url req_fields headers method w) of
       (Inr response, w1) \<Rightarrow> (Inr response, (c, w1))
     | (Inl (CurlHTTPError u code hs), w1) \<Rightarrow>
         (case find_header ''WWW-Authenticate'' hs of
            None \<Rightarrow> (Inl (CurlHTTPError u code hs), (c, w1))
          | Some challenge \<Rightarrow>
              if \<not> isBearerChallenge challenge then (Inl (CurlHTTPError u code hs), (c, w1))
              else
                (case rbind (HttpChallenge_new challenge) (\<lambda>ch.
                        rbind (ch_authority ch) (\<lambda>a. rbind (ch_resource ch) (\<lambda>r. Inr (a, r)))) of
                   Inl e \<Rightarrow> (Inl e, (c, w1))
                 | Inr (authority, resource) \<Rightarrow>
                     (case FetchOAuthToken N authority resource (hc_app_id c) (hc_app_password c) w1 of
                        (Inl e, w2) \<Rightarrow> (Inl e, (c, w2))
                      | (Inr token, w2) \<Rightarrow>
                          (case Curl (n_curl N) url req_fields (with_token headers token) method w2 of
                             (r, w3) \<Rightarrow> (r, (c\<lparr>hc_token := token\<rparr>, w3))))))
     | (Inl e, w1) \<Rightarrow> (Inl e, (c, w1)))"

definition HTTPClient_Request ::
    "('v, 'j) net_lib \<Rightarrow> string \<Rightarrow> string \<Rightarrow> str_map \<Rightarrow> HttpMethod \<Rightarrow> ('v, string) http_comp" where
  "HTTPClient_Request N url body headers method =
     HTTPClient_Request_fields N url [([], body)] headers method"

section \<open>Parsing what a service sends\<close>

lemma dropWhile_hd_id: "s \<noteq> [] \<Longrightarrow> \<not> fn (hd s) \<Longrightarrow> dropWhile fn s = s"
  by (cases s) simp_all

lemma strip_id: "s \<noteq> [] \<Longrightarrow> \<not> fn (hd s) \<Longrightarrow> \<not> fn (last s) \<Longrightarrow> strip fn s = s"
  by (simp add: strip_def dropWhile_hd_id hd_rev)

lemma Trim_fn_id: "length s \<noteq> 1 \<Longrightarrow> s \<noteq> [] \<Longrightarrow> \<not> fn (hd s) \<Longrightarrow> \<not> fn (last s) \<Longrightarrow> Trim_fn s fn = s"
  by (simp add: Trim_fn_strip strip_id)

lemma find_char_append: "c \<notin> set xs \<Longrightarrow> find_char (pre @ xs @ c # ys) c (length pre) = Some (length pre + length xs)"
proof (induction xs arbitrary: pre)
  case Nil
  then show ?case by (subst find_char.simps) simp
next
  case (Cons x xs)
  then show ?case
    using Cons.IH [of "pre @ [x]"] by (subst find_char.simps) (auto simp: nth_append)
qed

text \<open>Values a challenge can carry: no separators and, because of \<^const>\<open>Trim\<close>, two characters or more.\<close>

definition plain_value :: "string \<Rightarrow> bool" where
  "plain_value v \<longleftrightarrow> 2 \<le> length v \<and>
     list_all (\<lambda>c. \<not> isspace c \<and> c \<noteq> CHR '','' \<and> c \<noteq> CHR ''='' \<and> c \<noteq> CHR 0x22) v"

definition quoted :: "string \<Rightarrow> string" where
  "quoted v = CHR 0x22 # v @ [CHR 0x22]"

lemma plain_value_Trim:
  assumes "plain_value v"
  shows "Trim_char (Trim (quoted v)) (CHR 0x22) = v" "Trim_char (Trim v) (CHR 0x22) = v"
    "Trim_char (Trim (CHR '' '' # v)) (CHR 0x22) = v"
proof -
  have "2 \<le> length v" using assms by (simp add: plain_value_def)
  then have ne: "v \<noteq> []" "length v \<noteq> 1" by auto
  have a: "\<not> isspace c \<and> c \<noteq> CHR 0x22" if "c \<in> set v" for c
    using assms that by (simp add: plain_value_def list_all_iff)
  have q: "\<not> isspace (CHR 0x22)" "isspace CHR '' ''" by (simp_all add: isspace_def)
  have 1: "Trim_fn (quoted v) isspace = quoted v"
    by (rule Trim_fn_id) (simp_all add: quoted_def q ne)
  have "hd v \<noteq> CHR 0x22" "last v \<noteq> CHR 0x22" using a ne by auto
  then have "strip (\<lambda>x. x = CHR 0x22) (quoted v) = v"
    using ne by (simp add: strip_def quoted_def dropWhile_hd_id hd_rev)
  then have 2: "Trim_fn (quoted v) (\<lambda>x. x = CHR 0x22) = v" using ne by (simp add: Trim_fn_strip)
  have 3: "Trim_fn v isspace = v" "Trim_fn v (\<lambda>x. x = CHR 0x22) = v"
    by (rule Trim_fn_id; use a ne hd_in_set last_in_set in auto)+
  have "strip isspace (CHR '' '' # v) = strip isspace v" by (simp add: strip_def q)
  then have 4: "Trim_fn (CHR '' '' # v) isspace = v" using 3(1) by (simp only: Trim_fn_strip)
  from 1 2 show "Trim_char (Trim (quoted v)) (CHR 0x22) = v" by (simp add: Trim_def Trim_char_def)
  from 3 show "Trim_char (Trim v) (CHR 0x22) = v" by (simp add: Trim_def Trim_char_def)
  from 3 4 show "Trim_char (Trim (CHR '' '' # v)) (CHR 0x22) = v" by (simp add: Trim_def Trim_char_def)
qed

lemma Split_two: "d \<notin> set a \<Longrightarrow> d \<notin> set b \<Longrightarrow> b \<noteq> [] \<Longrightarrow> Split (a @ d # b) d = [a, b]"
  by (simp add: Split_split_on split_on_append split_on_no_delim drop_last_empty_def)

lemma plain_value_set: "plain_value v \<Longrightarrow> CHR '','' \<notin> set v \<and> CHR ''='' \<notin> set v \<and> CHR 0x22 \<notin> set v"
  by (auto simp: plain_value_def list_all_iff)

definition bearer_challenge :: "string \<Rightarrow> string \<Rightarrow> string" where
  "bearer_challenge authority resource =
     ''Bearer authorization='' @ quoted authority @ '', resource='' @ quoted resource"

lemma parse_pairs_bearer:
  assumes "plain_value a" "plain_value r"
  shows "parse_pairs (Split (''authorization='' @ quoted a @ '', resource='' @ quoted r) CHR '','') []
    = [(''authorization'', a), (''resource'', r)]"
proof -
  have s: "Split (''authorization='' @ quoted a @ '', resource='' @ quoted r) CHR '',''
      = [''authorization='' @ quoted a, '' resource='' @ quoted r]"
    using Split_two [of "CHR '',''" "''authorization='' @ quoted a" "'' resource='' @ quoted r"]
      plain_value_set [OF assms(1)] plain_value_set [OF assms(2)]
    by (simp add: quoted_def)
  have e1: "Split (''authorization='' @ quoted a) CHR ''='' = [''authorization'', quoted a]"
    using Split_two [of "CHR ''=''" "''authorization''" "quoted a"] plain_value_set [OF assms(1)]
    by (simp add: quoted_def)
  have e2: "Split ('' resource='' @ quoted r) CHR ''='' = ['' resource'', quoted r]"
    using Split_two [of "CHR ''=''" "'' resource''" "quoted r"] plain_value_set [OF assms(2)]
    by (simp add: quoted_def)
  have n: "Trim_char (Trim ''authorization'') (CHR 0x22) = ''authorization''"
      "Trim_char (Trim '' resource'') (CHR 0x22) = ''resource''"
    by (rule plain_value_Trim; simp add: plain_value_def isspace_def)+
  show ?thesis
    unfolding s by (simp add: e1 [simplified] e2 [simplified] n [simplified] plain_value_Trim(1) assms Let_def)
qed

lemma list_ex_upt_0: "P 0 \<Longrightarrow> list_ex P [0..<Suc n]"
  by (auto simp: list_ex_iff simp del: upt_Suc)

text \<open>
  A challenge that names an authority and a resource is recognised, and parsing it
  gives back exactly these two, whatever they are, as long as they are at least two characters
  long and contain no separator, quotation mark or space.
\<close>

theorem bearer_challenge_roundtrip:
  assumes "plain_value a" "plain_value r"
  shows "isBearerChallenge (bearer_challenge a r) \<and>
    (\<exists>ch. HttpChallenge_new (bearer_challenge a r) = Inr ch \<and> ch_scheme ch = ''Bearer''
       \<and> ch_authority ch = Inr a \<and> ch_resource ch = Inr r)"
proof
  show "isBearerChallenge (bearer_challenge a r)"
    unfolding isBearerChallenge_def str_contains_def
    by (rule list_ex_upt_0) (simp add: bearer_challenge_def BearerPrefix_def)
  let ?rest = "''authorization='' @ quoted a @ '', resource='' @ quoted r"
  have b: "bearer_challenge a r = ''Bearer'' @ CHR '' '' # ?rest" by (simp add: bearer_challenge_def)
  have t: "Trim (bearer_challenge a r) = bearer_challenge a r"
    unfolding Trim_def by (rule Trim_fn_id) (simp_all add: bearer_challenge_def quoted_def isspace_def)
  have f: "find_char (bearer_challenge a r) CHR '' '' 0 = Some 6"
    using find_char_append [of "CHR '' ''" "''Bearer''" "[]" ?rest] by (simp add: b)
  have "HttpChallenge_new (bearer_challenge a r)
    = Inr \<lparr>ch_scheme = ''Bearer'', ch_parameters = [(''authorization'', a), (''resource'', r)]\<rparr>"
    using parse_pairs_bearer [OF assms]
    by (simp add: HttpChallenge_new_def parseChallenge_def t f Let_def) (simp add: b)
  then show "\<exists>ch. HttpChallenge_new (bearer_challenge a r) = Inr ch \<and> ch_scheme ch = ''Bearer''
       \<and> ch_authority ch = Inr a \<and> ch_resource ch = Inr r"
    by (simp add: ch_authority_def ch_resource_def Authorization_def ResourceParam_def)
qed

theorem bearer_challenge_roundtrip_witness:
  "isBearerChallenge (bearer_challenge ''https://login/t'' ''https://vault'')
   \<and> (\<exists>ch. HttpChallenge_new (bearer_challenge ''https://login/t'' ''https://vault'') = Inr ch
      \<and> ch_authority ch = Inr ''https://login/t'' \<and> ch_resource ch = Inr ''https://vault'')"
proof -
  have p: "plain_value ''https://login/t''" "plain_value ''https://vault''" by code_simp+
  show ?thesis using bearer_challenge_roundtrip [OF p] by blast
qed

section \<open>The transfers HTTPClient starts\<close>

text \<open>
  A library that works as the given one does and keeps a record of every transfer it has been asked for, with the reply. The record is not
  visible to the code.
\<close>

type_synonym transfer = "curl_request \<times> curl_reply"

definition recorded :: "'v curl_lib \<Rightarrow> ('v \<times> transfer list) curl_lib" where
  "recorded C = \<lparr>curl_easy_init = curl_easy_init C, curl_easy_escape = curl_easy_escape C,
     curl_easy_perform = (\<lambda>q (v, log). case curl_easy_perform C q v of (reply, v') \<Rightarrow> (reply, (v', log @ [(q, reply)]))),
     curl_easy_strerror = curl_easy_strerror C\<rparr>"

definition recorded_net :: "('v, 'j) net_lib \<Rightarrow> ('v \<times> transfer list, 'j) net_lib" where
  "recorded_net N = \<lparr>n_curl = recorded (n_curl N), n_json = n_json N\<rparr>"

definition with_log :: "'v net_world \<Rightarrow> transfer list \<Rightarrow> ('v \<times> transfer list) net_world" where
  "with_log w log = \<lparr>w_rng = w_rng w, w_rng_pos = w_rng_pos w, w_clock = w_clock w, w_clock_pos = w_clock_pos w,
     w_net = (w_net w, log)\<rparr>"

lemma recorded_simps [simp]:
  "curl_easy_init (recorded C) = curl_easy_init C" "curl_easy_escape (recorded C) = curl_easy_escape C"
  "curl_easy_strerror (recorded C) = curl_easy_strerror C"
  "curl_easy_perform (recorded C) q (v, log) =
     (case curl_easy_perform C q v of (reply, v') \<Rightarrow> (reply, (v', log @ [(q, reply)])))"
  by (simp_all add: recorded_def)

text \<open>The request that \<^const>\<open>Curl\<close> makes of its arguments.\<close>

definition configured :: "'v curl_lib \<Rightarrow> string \<Rightarrow> str_map \<Rightarrow> str_map \<Rightarrow> HttpMethod \<Rightarrow> curl_request \<Rightarrow> bool" where
  "configured C url fs headers m q \<longleftrightarrow>
     (\<exists>req. Curl_body (curl_easy_escape C) fs = Inr req \<and> q = Curl_configure url req headers m)"

lemma Curl_body_error: "Curl_body esc fs = Inl e \<Longrightarrow> \<exists>m. e = RuntimeError m"
proof -
  have "Curl_fields esc f gs = Inl e \<Longrightarrow> \<exists>m. e = RuntimeError m" for f gs
    by (induction esc f gs rule: Curl_fields.induct) (auto simp: rbind_Inl_iff split: option.splits)
  then show "Curl_body esc fs = Inl e \<Longrightarrow> \<exists>m. e = RuntimeError m"
    by (auto simp: Curl_body_def split: option.splits)
qed

lemma Curl_recorded:
  assumes "Curl C url fs headers m w = (r, w')"
  obtains (unsent) msg where "r = Inl (RuntimeError msg)" "\<And>log. Curl (recorded C) url fs headers m (with_log w log) = (r, with_log w' log)"
  | (sent) q reply where "configured C url fs headers m q"
      "\<And>log. Curl (recorded C) url fs headers m (with_log w log) = (r, with_log w' (log @ [(q, reply)]))"
      "\<And>x. r = Inr x \<Longrightarrow> cr_code reply < 400"
      "\<And>u code hs. r = Inl (CurlHTTPError u code hs) \<Longrightarrow>
         400 \<le> cr_code reply \<and> hs = fold CurlHeaderCallback (cr_header_lines reply) []"
proof (cases "\<not> curl_easy_init C \<or> (\<exists>e. Curl_body (curl_easy_escape C) fs = Inl e)")
  case True
  have "\<exists>msg. r = Inl (RuntimeError msg) \<and> (\<forall>log. Curl (recorded C) url fs headers m (with_log w log) = (r, with_log w' log))"
  proof (cases "curl_easy_init C")
    case init: True
    with True obtain e where "Curl_body (curl_easy_escape C) fs = Inl e" by blast
    with Curl_body_error obtain msg where b: "Curl_body (curl_easy_escape C) fs = Inl (RuntimeError msg)" by blast
    have "r = Inl (RuntimeError msg)" "w' = w" using assms by (simp_all add: Curl_def init b)
    then show ?thesis by (simp add: Curl_def init b)
  qed (use assms in \<open>auto simp: Curl_def\<close>)
  then show thesis using unsent by blast
next
  case False
  then obtain req where req: "curl_easy_init C" "Curl_body (curl_easy_escape C) fs = Inr req"
    by (cases "Curl_body (curl_easy_escape C) fs") auto
  let ?q = "Curl_configure url req headers m"
  obtain reply v where p: "curl_easy_perform C ?q (w_net w) = (reply, v)" by (metis surj_pair)
  show thesis
  proof (rule sent [of ?q reply])
    show "configured C url fs headers m ?q" using req(2) by (auto simp: configured_def)
    show "Curl (recorded C) url fs headers m (with_log w log) = (r, with_log w' (log @ [(?q, reply)]))" for log
      using assms req p by (auto simp: Curl_def with_log_def Let_def split: if_splits)
  qed (use assms req p in \<open>auto simp: Curl_def Let_def split: if_splits\<close>)
qed

lemma FetchOAuthToken_eq:
  "Curl (n_curl N) (a @ ''/oauth2/token'') (token_fields res i p) token_headers GET w = (r0, w0) \<Longrightarrow>
     FetchOAuthToken N a res i p w = (rbind r0 (token_of (n_json N) res), w0)"
  unfolding FetchOAuthToken_def cbind_def clift_def by (cases r0) (simp_all only: prod.case sum.case rbind_simps)

lemma FetchOAuthToken_recorded:
  assumes "FetchOAuthToken N a res i p w = (r, w')"
  obtains (unsent) msg where "r = Inl msg"
      "\<And>log. FetchOAuthToken (recorded_net N) a res i p (with_log w log) = (r, with_log w' log)"
  | (sent) q reply where "configured (n_curl N) (a @ ''/oauth2/token'') (token_fields res i p) token_headers GET q"
      "\<And>log. FetchOAuthToken (recorded_net N) a res i p (with_log w log) = (r, with_log w' (log @ [(q, reply)]))"
      "\<And>x. r = Inr x \<Longrightarrow> cr_code reply < 400"
proof -
  obtain r0 w0 where c: "Curl (n_curl N) (a @ ''/oauth2/token'') (token_fields res i p) token_headers GET w = (r0, w0)"
    by (metis surj_pair)
  have r: "r = rbind r0 (token_of (n_json N) res)" "w' = w0"
    using FetchOAuthToken_eq [OF c] assms by (simp_all only: prod.inject)
  have f: "FetchOAuthToken (recorded_net N) a res i p x = (r, y)"
    if "Curl (recorded (n_curl N)) (a @ ''/oauth2/token'') (token_fields res i p) token_headers GET x = (r0, y)" for x y
    using FetchOAuthToken_eq [of "recorded_net N" a res i p x r0 y] that r(1) by (simp add: recorded_net_def)
  show thesis
    using c
  proof (cases rule: Curl_recorded)
    case (unsent msg)
    with f r show thesis by (intro that(1) [of "RuntimeError msg"]) simp_all
  next
    case (sent q reply)
    show thesis
    proof (rule that(2) [OF sent(1), of reply])
      show "FetchOAuthToken (recorded_net N) a res i p (with_log w log) = (r, with_log w' (log @ [(q, reply)]))" for log
        using f [OF sent(2)] r(2) by simp
      show "cr_code reply < 400" if "r = Inr x" for x using that r(1) sent(3) by (cases r0) simp_all
    qed
  qed
qed

text \<open>What the challenge of a reply asks for.\<close>

definition challenges :: "curl_reply \<Rightarrow> string \<Rightarrow> string \<Rightarrow> bool" where
  "challenges reply authority resource \<longleftrightarrow> 400 \<le> cr_code reply
     \<and> (\<exists>challenge ch. find_header ''WWW-Authenticate'' (fold CurlHeaderCallback (cr_header_lines reply) []) = Some challenge
          \<and> isBearerChallenge challenge \<and> HttpChallenge_new challenge = Inr ch
          \<and> ch_authority ch = Inr authority \<and> ch_resource ch = Inr resource)"

text \<open>What the outcome of the first transfer leads to: a result, or the authority and the resource of a challenge.\<close>

definition challenge_of :: "exn + string \<Rightarrow> (exn + string) + (string \<times> string)" where
  "challenge_of r = (case r of
     Inl (CurlHTTPError u code hs) \<Rightarrow>
       (case find_header ''WWW-Authenticate'' hs of
          None \<Rightarrow> Inl r
        | Some challenge \<Rightarrow>
            if \<not> isBearerChallenge challenge then Inl r
            else (case rbind (HttpChallenge_new challenge) (\<lambda>ch.
                         rbind (ch_authority ch) (\<lambda>a. rbind (ch_resource ch) (\<lambda>r. Inr (a, r)))) of
                    Inl e \<Rightarrow> Inl (Inl e)
                  | Inr p \<Rightarrow> Inr p))
   | _ \<Rightarrow> Inl r)"

lemma HTTPClient_Request_fields_eq:
  assumes "Curl (n_curl N) url fs (if hc_token c \<noteq> [] then with_token headers (hc_token c) else headers) m w = (r1, w1)"
  shows "HTTPClient_Request_fields N url fs headers m (c, w) =
    (case challenge_of r1 of
       Inl r \<Rightarrow> (r, (c, w1))
     | Inr (authority, resource) \<Rightarrow>
         (case FetchOAuthToken N authority resource (hc_app_id c) (hc_app_password c) w1 of
            (Inl e, w2) \<Rightarrow> (Inl e, (c, w2))
          | (Inr token, w2) \<Rightarrow>
              (case Curl (n_curl N) url fs (with_token headers token) m w2 of
                 (r3, w3) \<Rightarrow> (r3, (c\<lparr>hc_token := token\<rparr>, w3)))))"
proof -
  have "(if hc_token c \<noteq> [] then Curl (n_curl N) url fs (with_token headers (hc_token c)) m w
      else Curl (n_curl N) url fs headers m w) = (r1, w1)" using assms by (simp split: if_splits)
  then show ?thesis
    unfolding HTTPClient_Request_fields_def prod.case challenge_of_def
    by (simp split: sum.split exn.split option.split prod.split)
qed

lemma challenge_of_reply:
  assumes "challenge_of r = Inr (authority, resource)"
    and "\<And>u code hs. r = Inl (CurlHTTPError u code hs) \<Longrightarrow>
      400 \<le> cr_code reply \<and> hs = fold CurlHeaderCallback (cr_header_lines reply) []"
  shows "challenges reply authority resource"
  using assms
  by (auto simp: challenge_of_def challenges_def rbind_Inr_iff split: sum.splits exn.splits option.splits if_splits)

lemma configured_verified: "configured C url fs headers m q \<Longrightarrow> cu_verifyhost q = 2 \<and> cu_verifypeer q"
  by (auto simp: configured_def Curl_configure_def)

text \<open>
  C29: what one call of the HTTP client asks of libcurl. It starts at most three transfers, and libcurl's part being the same with and
  without the record, these are: the request itself, with the token the client holds; only if the reply to it is an error with a bearer challenge, a
  request for a token with the credentials of the client, which goes to the token endpoint of the authority that this challenge names; and the request
  again, with the new token. The credentials go nowhere else, every transfer verifies certificate and host name, and the
  token changes only after a successful reply of the authority. Where redirects lead to, which all transfers follow, is between libcurl and the
  servers.
\<close>

theorem http_client_requests:
  assumes "HTTPClient_Request_fields N url fs headers m (c, w) = (r, (c', w'))"
  shows "\<exists>qs. HTTPClient_Request_fields (recorded_net N) url fs headers m (c, with_log w log) = (r, (c', with_log w' (log @ qs)))
    \<and> length qs \<le> 3 \<and> list_all (\<lambda>(q, reply). cu_verifyhost q = 2 \<and> cu_verifypeer q) qs
    \<and> (qs \<noteq> [] \<longrightarrow> configured (n_curl N) url fs (if hc_token c \<noteq> [] then with_token headers (hc_token c) else headers) m (fst (qs ! 0)))
    \<and> (1 < length qs \<longrightarrow> (\<exists>authority resource. challenges (snd (qs ! 0)) authority resource
         \<and> configured (n_curl N) (authority @ ''/oauth2/token'') (token_fields resource (hc_app_id c) (hc_app_password c)) token_headers GET
             (fst (qs ! 1))))
    \<and> (2 < length qs \<longrightarrow> configured (n_curl N) url fs (with_token headers (hc_token c')) m (fst (qs ! 2)))
    \<and> hc_app_id c' = hc_app_id c \<and> hc_app_password c' = hc_app_password c
    \<and> (hc_token c' \<noteq> hc_token c \<longrightarrow> 1 < length qs \<and> cr_code (snd (qs ! 1)) < 400)"
proof -
  let ?h = "if hc_token c \<noteq> [] then with_token headers (hc_token c) else headers"
  have N: "n_curl (recorded_net N) = recorded (n_curl N)" by (simp add: recorded_net_def)
  obtain r1 w1 where c1: "Curl (n_curl N) url fs ?h m w = (r1, w1)" by (metis surj_pair)
  note req = assms [unfolded HTTPClient_Request_fields_eq [OF c1]]
  from c1 show ?thesis
  proof (cases rule: Curl_recorded)
    case (unsent msg)
    have "challenge_of r1 = Inl r1" by (simp add: challenge_of_def unsent(1))
    with req HTTPClient_Request_fields_eq [of "recorded_net N", unfolded N, OF unsent(2)] show ?thesis
      by (intro exI [of _ "[]"]) simp
  next
    case (sent q1 reply1)
    note rec = HTTPClient_Request_fields_eq [of "recorded_net N", unfolded N, OF sent(2)]
    show ?thesis
    proof (cases "challenge_of r1")
      case (Inl r')
      with req rec configured_verified [OF sent(1)] sent(1) show ?thesis by (intro exI [of _ "[(q1, reply1)]"]) auto
    next
      case (Inr ar)
      obtain a res where ch: "challenge_of r1 = Inr (a, res)" using Inr by (cases ar) simp
      have cr: "challenges reply1 a res" by (rule challenge_of_reply [OF ch]) (use sent(4) in blast)
      obtain r2 w2 where f: "FetchOAuthToken N a res (hc_app_id c) (hc_app_password c) w1 = (r2, w2)" by (metis surj_pair)
      from f show ?thesis
      proof (cases rule: FetchOAuthToken_recorded)
        case (unsent e)
        with req rec ch f configured_verified [OF sent(1)] sent(1) show ?thesis by (intro exI [of _ "[(q1, reply1)]"]) auto
      next
        case token: (sent q2 reply2)
        show ?thesis
        proof (cases r2)
          case (Inl e)
          with req rec ch f token configured_verified [OF sent(1)] configured_verified [OF token(1)] sent(1) cr show ?thesis
            by (intro exI [of _ "[(q1, reply1), (q2, reply2)]"]) auto
        next
          case (Inr t)
          obtain r3 w3 where c3: "Curl (n_curl N) url fs (with_token headers t) m w2 = (r3, w3)" by (metis surj_pair)
          have c': "c' = c\<lparr>hc_token := t\<rparr>" "r = r3" "w' = w3" using req ch f Inr c3 by simp_all
          have code: "cr_code reply2 < 400" using token(3) Inr by blast
          from c3 show ?thesis
          proof (cases rule: Curl_recorded)
            case (unsent msg)
            with rec ch token(2) Inr N c' code configured_verified [OF sent(1)] configured_verified [OF token(1)] sent(1) token(1) cr
            show ?thesis by (intro exI [of _ "[(q1, reply1), (q2, reply2)]"]) auto
          next
            case last: (sent q3 reply3)
            with rec ch token(2) Inr N c' code configured_verified [OF sent(1)] configured_verified [OF token(1)]
              configured_verified [OF last(1)] sent(1) token(1) cr
            show ?thesis by (intro exI [of _ "[(q1, reply1), (q2, reply2), (q3, reply3)]"]) auto
          qed
        qed
      qed
    qed
  qed
qed

text \<open>A vault that answers the first request with a challenge, and its token service.\<close>

definition sample_curl :: "unit curl_lib" where
  "sample_curl =
     \<lparr>curl_easy_init = True, curl_easy_escape = Some,
      curl_easy_perform = (\<lambda>q v.
        (if cu_url q = ''https://login/oauth2/token'' \<or> ''Authorization: Bearer tok'' \<in> set (cu_headers q)
         then \<lparr>cr_result = 0, cr_code = 200, cr_chunks = [''o'', ''k''], cr_header_lines = []\<rparr>
         else \<lparr>cr_result = 0, cr_code = 401, cr_chunks = [],
                cr_header_lines = [''www-authenticate: '' @ bearer_challenge ''https://login'' ''https://vault'']\<rparr>,
         v)),
      curl_easy_strerror = (\<lambda>e. ''error'')\<rparr>"

definition sample_json :: "string json_lib" where
  "sample_json = \<lparr>json_parse = Inr, json_index = (\<lambda>j k. Inr k), json_has = (\<lambda>j k. True),
     json_string = (\<lambda>j. Inr ''tok''), json_eq_string = (\<lambda>j s. True)\<rparr>"

definition sample_net :: "(unit, string) net_lib" where
  "sample_net = \<lparr>n_curl = sample_curl, n_json = sample_json\<rparr>"

definition sample_net_world :: "unit net_world" where
  "sample_net_world = \<lparr>w_rng = (\<lambda>i. int i), w_rng_pos = 0, w_clock = (\<lambda>i. int i), w_clock_pos = 0, w_net = ()\<rparr>"

theorem http_client_requests_witness:
  "\<exists>c' w' qs. HTTPClient_Request sample_net ''https://vault/k'' [] [] GET
      (HTTPClient_new ''id'' ''pw'', sample_net_world) = (Inr ''ok'', (c', w'))
    \<and> HTTPClient_Request (recorded_net sample_net) ''https://vault/k'' [] [] GET
        (HTTPClient_new ''id'' ''pw'', with_log sample_net_world []) = (Inr ''ok'', (c', with_log w' qs))
    \<and> hc_token c' = ''tok'' \<and> 1 < length qs \<and> list_all (\<lambda>(q, reply). cu_verifyhost q = 2 \<and> cu_verifypeer q) qs
    \<and> (\<exists>authority resource. challenges (snd (qs ! 0)) authority resource
         \<and> configured sample_curl (authority @ ''/oauth2/token'') (token_fields resource ''id'' ''pw'') token_headers GET (fst (qs ! 1)))"
proof -
  let ?run = "HTTPClient_Request sample_net ''https://vault/k'' [] [] GET (HTTPClient_new ''id'' ''pw'', sample_net_world)"
  have e: "case ?run of (r, (c', w')) \<Rightarrow> r = Inr ''ok'' \<and> hc_token c' = ''tok''" by code_simp
  obtain r c' w' where p: "?run = (r, (c', w'))" by (metis surj_pair)
  with e have r: "r = Inr ''ok''" "hc_token c' = ''tok''" by simp_all
  have n: "n_curl sample_net = sample_curl" "hc_token (HTTPClient_new ''id'' ''pw'') = []"
    "hc_app_id (HTTPClient_new ''id'' ''pw'') = ''id''" "hc_app_password (HTTPClient_new ''id'' ''pw'') = ''pw''"
    by (simp_all add: sample_net_def HTTPClient_new_def)
  from http_client_requests [OF p [unfolded HTTPClient_Request_def], of "[]", unfolded n r] p r show ?thesis
    by (auto simp: HTTPClient_Request_def)
qed

end
