(* ===== verification/Key_Vault.thy ===== *)
theory Key_Vault
  imports Http_Client Protocol
begin

text \<open>
  The key providers that keep the server's key in an Azure key vault:
  \<^verbatim>\<open>KeyVaultProvider\<close> (\<^verbatim>\<open>server/enclave/key_vault_provider.cc\<close>), which stores the key as a
  secret, and \<^verbatim>\<open>KeyVaultHsmProvider\<close> (\<^verbatim>\<open>key_vault_hsm_provider.cc\<close>), which has it released
  by the HSM against an attestation. Both meet the contract of \<^verbatim>\<open>DoRefreshKey\<close>. The secure
  key release library (libskr) and the base64 encoder are parameters.
\<close>

section \<open>Configuration (key_vault_config.h)\<close>

record KeyVaultConfig =
  kvc_app_id :: string
  kvc_app_pwd :: string
  kvc_url :: string
  kvc_key_name :: string
  kvc_attestation_url :: string

definition KeyVaultConfig_new :: "string \<Rightarrow> string \<Rightarrow> string \<Rightarrow> string \<Rightarrow> string \<Rightarrow> KeyVaultConfig" where
  "KeyVaultConfig_new app_id app_pwd url key_name attestation_url =
     \<lparr>kvc_app_id = app_id, kvc_app_pwd = app_pwd, kvc_url = url, kvc_key_name = key_name,
      kvc_attestation_url = attestation_url\<rparr>"

text \<open>A quotation mark, for the JSON bodies.\<close>

abbreviation dq :: string where "dq \<equiv> [CHR 0x22]"

section \<open>KeyVaultProvider\<close>

definition AKV_API_VERSION :: string where "AKV_API_VERSION = ''7.0''"

record KeyVaultKey =
  kvk_key :: bytes
  kvk_version :: u32
  kvk_not_found :: bool

definition KeyVaultKey_missing :: KeyVaultKey where
  "KeyVaultKey_missing = \<lparr>kvk_key = [], kvk_version = 0, kvk_not_found = True\<rparr>"

record kv_state =
  kv_config :: KeyVaultConfig
  kv_http :: http_client
  kv_random :: "unit key_provider"

type_synonym ('c, 'v, 'a) vault_comp = "('c key_provider \<times> 'v net_world, exn, 'a) comp"

definition KeyVaultProvider_new :: "u32 \<Rightarrow> u32 \<Rightarrow> KeyVaultConfig \<Rightarrow> unit key_provider \<Rightarrow> kv_state key_provider" where
  "KeyVaultProvider_new pv cv config random_key_provider =
     KeyProvider_new pv cv SYMMETRIC_KEY_SIZE (key_type random_key_provider)
       \<lparr>kv_config = config, kv_http = HTTPClient_new (kvc_app_id config) (kvc_app_pwd config),
        kv_random = random_key_provider\<rparr>"

definition kv_request ::
    "('v, 'j) net_lib \<Rightarrow> string \<Rightarrow> string \<Rightarrow> str_map \<Rightarrow> HttpMethod \<Rightarrow> (kv_state, 'v, string) vault_comp" where
  "kv_request N url body headers method =
     czoom (\<lambda>(kp, w). (kv_http (kp_derived kp), w))
       (\<lambda>(c, w) (kp, _). (kp\<lparr>kp_derived := (kp_derived kp)\<lparr>kv_http := c\<rparr>\<rparr>, w))
       (HTTPClient_Request N url body headers method)"

definition secret_url :: "KeyVaultConfig \<Rightarrow> string" where
  "secret_url cfg = kvc_url cfg @ ''secrets/'' @ kvc_key_name cfg"

definition kv_parse_secret :: "'j json_lib \<Rightarrow> string \<Rightarrow> exn + KeyVaultKey" where
  "kv_parse_secret J response_str =
     rbind (json_parse J response_str) (\<lambda>response.
     rbind (json_index J response ''value'') (\<lambda>v.
     rbind (json_string J v) (\<lambda>key_str.
     rbind (if json_has J response ''tags''
            then rbind (json_index J response ''tags'') (\<lambda>tags.
                   if json_has J tags ''version''
                   then rbind (json_index J tags ''version'') (\<lambda>tv.
                        rbind (json_string J tv) (\<lambda>version_str.
                        rbind (stoi 10 version_str) (\<lambda>i. Inr (word_of_int i))))
                   else Inr 0)
            else Inr 0) (\<lambda>version.
     rbind (FromHex key_str) (\<lambda>key.
       Inr \<lparr>kvk_key = key, kvk_version = version, kvk_not_found = False\<rparr>)))))"

definition KeyVaultProvider_FetchKey :: "('v, 'j) net_lib \<Rightarrow> string \<Rightarrow> (kv_state, 'v, KeyVaultKey) vault_comp" where
  "KeyVaultProvider_FetchKey N key_version =
     cbind (cget (\<lambda>(kp, w). kv_config (kp_derived kp))) (\<lambda>config.
     cbind (ccatch
              (cbind (kv_request N (secret_url config @ ''/'' @ key_version @ ''?api-version='' @ AKV_API_VERSION)
                        [] [] GET) (\<lambda>s. cret (Some s)))
              (\<lambda>e. case e of
                     CurlHTTPError u code hs \<Rightarrow> if code = 404 then cret None else cthrow e
                   | _ \<Rightarrow> cthrow e)) (\<lambda>response.
       case response of
         None \<Rightarrow> cret KeyVaultKey_missing
       | Some response_str \<Rightarrow> clift (kv_parse_secret (n_json N) response_str)))"

definition kv_update_body :: "bytes \<Rightarrow> u32 \<Rightarrow> string" where
  "kv_update_body new_key new_version =
     ''{'' @ dq @ ''value'' @ dq @ '': '' @ dq @ ToHex new_key @ dq @ '',''
     @ dq @ ''tags'' @ dq @ '': { '' @ dq @ ''version'' @ dq @ '': '' @ dq @ dec_of_nat (unat new_version) @ dq @ '' }''
     @ ''}''"

definition kv_parse_update :: "'j json_lib \<Rightarrow> u32 \<Rightarrow> string \<Rightarrow> exn + KeyVaultKey" where
  "kv_parse_update J new_version response_str =
     rbind (json_parse J response_str) (\<lambda>response.
     rbind (json_index J response ''value'') (\<lambda>v.
     rbind (json_string J v) (\<lambda>key_str.
     rbind (json_index J response ''tags'') (\<lambda>tags.
     rbind (json_index J tags ''version'') (\<lambda>tv.
     rbind (json_string J tv) (\<lambda>version_str.
     rbind (stoi 10 version_str) (\<lambda>i.
       if word_of_int i \<noteq> new_version
       then Inl (RuntimeError ''unexpected version found in tags of key'')
       else rbind (FromHex key_str) (\<lambda>key.
              Inr \<lparr>kvk_key = key, kvk_version = new_version, kvk_not_found = False\<rparr>))))))))"

definition kv_refresh_random :: "(kv_state, 'v, unit) vault_comp" where
  "kv_refresh_random =
     cthen (czoom (\<lambda>(kp, w). (kv_random (kp_derived kp), w))
              (\<lambda>(r, w) (kp, _). (kp\<lparr>kp_derived := (kp_derived kp)\<lparr>kv_random := r\<rparr>\<rparr>, w))
              (KeyProvider_RefreshKey RandomEd25519KeyProvider_DoRefreshKey False))
       (cret ())"

definition KeyVaultProvider_UpdateKey :: "('v, 'j) net_lib \<Rightarrow> u32 \<Rightarrow> (kv_state, 'v, KeyVaultKey) vault_comp" where
  "KeyVaultProvider_UpdateKey N new_version =
     cthen kv_refresh_random
     (cbind (cget (\<lambda>(kp, w). (kv_config (kp_derived kp), current_key (kv_random (kp_derived kp))))) (\<lambda>(config, new_key).
      cbind (kv_request N (secret_url config @ ''?api-version='' @ AKV_API_VERSION)
               (kv_update_body new_key new_version)
               (make_map [(''Content-Type'', ''application/json'')]) PUT) (\<lambda>response_str.
        clift (kv_parse_update (n_json N) new_version response_str))))"

text \<open>The two ways a key found in the vault is taken over.\<close>

definition take_key :: "bytes \<Rightarrow> u32 \<Rightarrow> 'c key_provider \<Rightarrow> 'c key_provider" where
  "take_key key version kp = kp\<lparr>current_key_version := version, current_key := key\<rparr>"

definition shift_keys :: "'c key_provider \<Rightarrow> 'c key_provider" where
  "shift_keys kp = kp\<lparr>previous_key_version := current_key_version kp, previous_key := current_key kp\<rparr>"

definition on_kp :: "('c key_provider \<Rightarrow> 'c key_provider) \<Rightarrow> ('c, 'v, unit) vault_comp" where
  "on_kp f = cmodify (\<lambda>(kp, w). (f kp, w))"

text \<open>\<^verbatim>\<open>catch (CurlError& err) { throw KeyRefreshError(err.what()); }\<close>\<close>

definition rethrow_curl :: "exn \<Rightarrow> ('c, 'v, 'a) vault_comp" where
  "rethrow_curl e = (if is_CurlError e then cthrow (KeyRefreshError (exn_what e)) else cthrow e)"

definition KeyVaultProvider_DoRefreshKey :: "('v, 'j) net_lib \<Rightarrow> bool \<Rightarrow> (kv_state, 'v, bool) vault_comp" where
  "KeyVaultProvider_DoRefreshKey N sync_only =
     ccatch
       (cbind (KeyVaultProvider_FetchKey N []) (\<lambda>current_key_akv.
          if kvk_not_found current_key_akv
          then cbind (KeyVaultProvider_UpdateKey N 1) (\<lambda>new_key_akv.
                 cthen (on_kp (take_key (kvk_key new_key_akv) (kvk_version new_key_akv))) (cret True))
          else
            cbind (cget (\<lambda>(kp, w). (initialized kp, current_key_version kp))) (\<lambda>(ini, cv).
              if \<not> ini \<or> kvk_version current_key_akv > cv
              then cthen (on_kp (take_key (kvk_key current_key_akv) (kvk_version current_key_akv) \<circ> shift_keys))
                     (cret True)
              else if sync_only then cret False
              else cbind (KeyVaultProvider_UpdateKey N (cv + 1)) (\<lambda>new_key_akv.
                     cthen (on_kp (take_key (kvk_key new_key_akv) (kvk_version new_key_akv) \<circ> shift_keys))
                       (cret True)))))
       rethrow_curl"

definition KeyVaultProvider_DeleteKey :: "('v, 'j) net_lib \<Rightarrow> (kv_state, 'v, unit) vault_comp" where
  "KeyVaultProvider_DeleteKey N =
     cthen (on_kp KeyProvider_DeleteKey)
     (cbind (cget (\<lambda>(kp, w). kv_config (kp_derived kp))) (\<lambda>config.
      cthen (kv_request N (secret_url config @ ''?api-version='' @ AKV_API_VERSION) []
               (make_map [(''Content-Type'', ''application/json'')]) DELETE)
        (cret ())))"

definition KeyVaultProvider_Create ::
    "('v, 'j) net_lib \<Rightarrow> u32 \<Rightarrow> u32 \<Rightarrow> KeyVaultConfig \<Rightarrow> 'v net_world \<Rightarrow> (exn + kv_state key_provider) \<times> 'v net_world" where
  "KeyVaultProvider_Create N pv cv config w =
     (case RandomEd25519KeyProvider_Create pv cv () w of
        (Inl e, w1) \<Rightarrow> (Inl e, w1)
      | (Inr random_key_provider, w1) \<Rightarrow>
          (case KeyProvider_Initialize (KeyVaultProvider_DoRefreshKey N)
                  (KeyVaultProvider_new pv cv config random_key_provider, w1) of
             (r, (kp, w2)) \<Rightarrow> (rbind r (\<lambda>_. Inr kp), w2)))"

section \<open>KeyVaultHsmProvider\<close>

definition AKV_HSM_API_VERSION :: string where "AKV_HSM_API_VERSION = ''7.0-preview''"
definition AAS_API_VERSION :: string where "AAS_API_VERSION = ''2018-09-01-preview''"

datatype HsmStatus = HSM_OK | HSM_NOT_FOUND | HSM_DENIED

record KeyVaultHsmKey =
  hk_key :: bytes
  hk_version :: u32
  hk_status :: HsmStatus

definition KeyVaultHsmKey_status :: "HsmStatus \<Rightarrow> KeyVaultHsmKey" where
  "KeyVaultHsmKey_status st = \<lparr>hk_key = [], hk_version = 0, hk_status = st\<rparr>"

record hsm_state =
  hsm_config :: KeyVaultConfig
  hsm_akv :: http_client
  hsm_aas :: http_client

text \<open>libskr: the report with the data it holds, and the import of a released key bundle.\<close>

record skr_lib =
  skr_get_report :: "(bytes \<times> bytes) option"
  skr_import_key :: "string \<Rightarrow> (bytes \<times> str_map) option"
  skr_base64_encode :: "bytes \<Rightarrow> string"
  skr_oe_get_report :: "nat + bytes"
  skr_oe_parse_report :: "bytes \<Rightarrow> nat + oe_report"

record ('v, 'j) hsm_lib =
  h_net :: "('v, 'j) net_lib"
  h_skr :: skr_lib
  h_oe :: oe_lib

text \<open>\<^verbatim>\<open>std::string::back\<close> of an empty string is undefined.\<close>

definition string_back :: "string \<Rightarrow> exn + char" where
  "string_back s = (if s = [] then Inl (Fault ''back of an empty string'') else Inr (last s))"

definition check_vault_url :: "string \<Rightarrow> string \<Rightarrow> exn + unit" where
  "check_vault_url msg url =
     (if \<not> str_contains url ''https://'' then Inl (InvalidArgument msg)
      else rbind (string_back url) (\<lambda>c. if c \<noteq> CHR ''/'' then Inl (InvalidArgument msg) else Inr ()))"

definition KeyVaultHsmProvider_new :: "u32 \<Rightarrow> u32 \<Rightarrow> KeyVaultConfig \<Rightarrow> exn + hsm_state key_provider" where
  "KeyVaultHsmProvider_new pv cv config =
     rbind (check_vault_url ''vault url invalid'' (kvc_url config)) (\<lambda>_.
     rbind (check_vault_url ''attestation url invalid'' (kvc_attestation_url config)) (\<lambda>_.
       Inr (KeyProvider_new pv cv SYMMETRIC_KEY_SIZE Curve25519
              \<lparr>hsm_config = config, hsm_akv = HTTPClient_new (kvc_app_id config) (kvc_app_pwd config),
               hsm_aas = HTTPClient_new (kvc_app_id config) (kvc_app_pwd config)\<rparr>)))"

definition MakeKeyIdentifier :: "KeyVaultConfig \<Rightarrow> string \<Rightarrow> string" where
  "MakeKeyIdentifier config key_version =
     (let id = kvc_url config @ ''keys/'' @ kvc_key_name config
      in if key_version \<noteq> [] then id @ ''/'' @ key_version else id)"

definition akv_request ::
    "('v, 'j) net_lib \<Rightarrow> string \<Rightarrow> string \<Rightarrow> str_map \<Rightarrow> HttpMethod \<Rightarrow> (hsm_state, 'v, string) vault_comp" where
  "akv_request N url body headers method =
     czoom (\<lambda>(kp, w). (hsm_akv (kp_derived kp), w))
       (\<lambda>(c, w) (kp, _). (kp\<lparr>kp_derived := (kp_derived kp)\<lparr>hsm_akv := c\<rparr>\<rparr>, w))
       (HTTPClient_Request N url body headers method)"

definition aas_request ::
    "('v, 'j) net_lib \<Rightarrow> string \<Rightarrow> string \<Rightarrow> str_map \<Rightarrow> HttpMethod \<Rightarrow> (hsm_state, 'v, string) vault_comp" where
  "aas_request N url body headers method =
     czoom (\<lambda>(kp, w). (hsm_aas (kp_derived kp), w))
       (\<lambda>(c, w) (kp, _). (kp\<lparr>kp_derived := (kp_derived kp)\<lparr>hsm_aas := c\<rparr>\<rparr>, w))
       (HTTPClient_Request N url body headers method)"

definition json_headers :: str_map where
  "json_headers = make_map [(''Content-Type'', ''application/json''), (''Accept'', ''application/json'')]"

definition aas_body :: "string \<Rightarrow> string \<Rightarrow> string" where
  "aas_body quote_b64 enclave_held_data_b64 =
     ''{'' @ '' '' @ dq @ ''Quote'' @ dq @ '': '' @ dq @ quote_b64 @ dq @ '',''
     @ '' '' @ dq @ ''EnclaveHeldData'' @ dq @ '': '' @ dq @ enclave_held_data_b64 @ dq @ ''}''"

text \<open>From the answer of the vault to the key: padding, import, clamping, version.\<close>

definition hsm_unpack_key :: "('v, 'j) hsm_lib \<Rightarrow> string \<Rightarrow> exn + KeyVaultHsmKey" where
  "hsm_unpack_key H response_str =
     rbind (json_parse (n_json (h_net H)) response_str) (\<lambda>response.
     rbind (json_index (n_json (h_net H)) response ''value'') (\<lambda>v.
     rbind (json_string (n_json (h_net H)) v) (\<lambda>key_str.
       let pl = length key_str mod 4;
           padded = (if pl \<noteq> 0 then key_str @ replicate (4 - pl) CHR ''='' else key_str)
       in case skr_import_key (h_skr H) padded of
            None \<Rightarrow> Inl (RuntimeError ''skr_import_key failed'')
          | Some (k, tags) \<Rightarrow>
              rbind (clamp_key k) (\<lambda>key.
              rbind (opt_or (OutOfRange ''map::at'') (map_of tags ''version'')) (\<lambda>version_str.
              rbind (stoi 10 version_str) (\<lambda>i.
                Inr \<lparr>hk_key = key, hk_version = word_of_int i, hk_status = HSM_OK\<rparr>))))))"

text \<open>The export request; \<open>Inl\<close> is a key that is not there or not released.\<close>

definition hsm_export ::
    "('v, 'j) hsm_lib \<Rightarrow> KeyVaultConfig \<Rightarrow> string \<Rightarrow> string \<Rightarrow> (hsm_state, 'v, HsmStatus + string) vault_comp" where
  "hsm_export H config key_version aas_response_str =
     ccatch
       (cbind (akv_request (h_net H)
                 (MakeKeyIdentifier config key_version @ ''/export'' @ ''?api-version='' @ AKV_HSM_API_VERSION)
                 (''{'' @ '' '' @ dq @ ''env'' @ dq @ '': '' @ aas_response_str @ ''}'')
                 json_headers POST) (\<lambda>s. cret (Inr s)))
       (\<lambda>e. case e of
              CurlHTTPError u code hs \<Rightarrow>
                if code = 404 then cret (Inl HSM_NOT_FOUND)
                else if code = 403 then cret (Inl HSM_DENIED)
                else cthrow e
            | _ \<Rightarrow> cthrow e)"

definition KeyVaultHsmProvider_FetchKey ::
    "('v, 'j) hsm_lib \<Rightarrow> string \<Rightarrow> (hsm_state, 'v, KeyVaultHsmKey) vault_comp" where
  "KeyVaultHsmProvider_FetchKey H key_version =
     cbind (clift (opt_or (RuntimeError ''skr_get_report failed'') (skr_get_report (h_skr H)))) (\<lambda>(report, report_data).
     cbind (cget (\<lambda>(kp, w). hsm_config (kp_derived kp))) (\<lambda>config.
     cbind (aas_request (h_net H)
              (kvc_attestation_url config @ ''attest/Tee/OpenEnclave?api-version='' @ AAS_API_VERSION)
              (aas_body (Base64Url (skr_base64_encode (h_skr H)) report)
                        (Base64Url (skr_base64_encode (h_skr H)) report_data))
              json_headers POST) (\<lambda>aas_response_str.
     cbind (hsm_export H config key_version aas_response_str) (\<lambda>response.
       case response of
         Inl st \<Rightarrow> cret (KeyVaultHsmKey_status st)
       | Inr response_str \<Rightarrow> clift (hsm_unpack_key H response_str)))))"

definition hsm_create_body :: "KeyVaultConfig \<Rightarrow> string \<Rightarrow> u32 \<Rightarrow> string" where
  "hsm_create_body config mrsigner new_version =
     ''{'' @ '' '' @ dq @ ''kty'' @ dq @ '': '' @ dq @ ''AES-HSM'' @ dq @ '',''
     @ '' '' @ dq @ ''key_size'' @ dq @ '': '' @ dec_of_nat (KEY_SIZE * 8) @ '',''
     @ '' '' @ dq @ ''key_ops'' @ dq @ '': [],''
     @ '' '' @ dq @ ''attributes'' @ dq @ '': {'' @ ''  '' @ dq @ ''exportable'' @ dq @ '': true'' @ '' },''
     @ '' '' @ dq @ ''release_policy'' @ dq @ '': {''
     @ ''  '' @ dq @ kvc_attestation_url config @ dq @ '': {''
     @ ''   '' @ dq @ ''sgx-mrsigner'' @ dq @ '': '' @ dq @ mrsigner @ dq @ ''  }'' @ '' },''
     @ '' '' @ dq @ ''tags'' @ dq @ '': { '' @ dq @ ''version'' @ dq @ '': '' @ dq @ dec_of_nat (unat new_version) @ dq @ '' }''
     @ ''}''"

text \<open>The enclave's own signer, read from a report; \<^verbatim>\<open>CBuffer(signer_id, OE_SIGNER_ID_SIZE)\<close>.\<close>

definition hsm_mrsigner :: "('v, 'j) hsm_lib \<Rightarrow> exn + string" where
  "hsm_mrsigner H =
     (case skr_oe_get_report (h_skr H) of
        Inl res \<Rightarrow> Inl (RuntimeError (''oe_get_report failed: '' @ oe_result_str (h_oe H) res))
      | Inr report \<Rightarrow>
          (case skr_oe_parse_report (h_skr H) report of
             Inl res \<Rightarrow> Inl (RuntimeError (''oe_parse_report failed: '' @ oe_result_str (h_oe H) res))
           | Inr parsed \<Rightarrow> Inr (ToHex (take (OE_SIGNER_ID_SIZE (h_oe H)) (oe_signer_id parsed)))))"

text \<open>
  The version of the new key in the vault, cut from its identifier. \<^verbatim>\<open>substr\<close> throws when the
  identifier is shorter than the position.
\<close>

definition hsm_parse_create :: "'j json_lib \<Rightarrow> KeyVaultConfig \<Rightarrow> u32 \<Rightarrow> string \<Rightarrow> exn + string" where
  "hsm_parse_create J config new_version response_str =
     rbind (json_parse J response_str) (\<lambda>response.
     rbind (json_index J response ''tags'') (\<lambda>tags.
     rbind (json_index J tags ''version'') (\<lambda>tv.
     rbind (json_string J tv) (\<lambda>version_str.
     rbind (stoi 10 version_str) (\<lambda>i.
     rbind (json_index J response ''key'') (\<lambda>k.
     rbind (json_index J k ''kid'') (\<lambda>kv.
     rbind (json_string J kv) (\<lambda>kid.
       let pos = length (MakeKeyIdentifier config []) + 1
       in if pos > length kid then Inl (OutOfRange ''basic_string::substr'')
          else if word_of_int i \<noteq> new_version
          then Inl (RuntimeError ''unexpected version found in tags of key'')
          else Inr (drop pos kid)))))))))"

definition KeyVaultHsmProvider_UpdateKey ::
    "('v, 'j) hsm_lib \<Rightarrow> u32 \<Rightarrow> (hsm_state, 'v, KeyVaultHsmKey) vault_comp" where
  "KeyVaultHsmProvider_UpdateKey H new_version =
     cbind (clift (hsm_mrsigner H)) (\<lambda>mrsigner.
     cbind (cget (\<lambda>(kp, w). hsm_config (kp_derived kp))) (\<lambda>config.
     cbind (akv_request (h_net H) (MakeKeyIdentifier config [] @ ''/create?api-version='' @ AKV_HSM_API_VERSION)
              (hsm_create_body config mrsigner new_version) json_headers POST) (\<lambda>response_str.
     cbind (clift (hsm_parse_create (n_json (h_net H)) config new_version response_str)) (\<lambda>key_version.
     cbind (KeyVaultHsmProvider_FetchKey H key_version) (\<lambda>exported_key.
       if hk_status exported_key \<noteq> HSM_OK
       then cthrow (LogicError ''AKV key export failed after creation'')
       else if hk_version exported_key < new_version
       then cthrow (LogicError (''unexpected version found in exported key after rollover: expected=''
              @ dec_of_nat (unat new_version) @ '' actual='' @ dec_of_nat (unat (hk_version exported_key))))
       else cret exported_key)))))"

definition KeyVaultHsmProvider_DoRefreshKey :: "('v, 'j) hsm_lib \<Rightarrow> bool \<Rightarrow> (hsm_state, 'v, bool) vault_comp" where
  "KeyVaultHsmProvider_DoRefreshKey H sync_only =
     ccatch
       (cbind (KeyVaultHsmProvider_FetchKey H []) (\<lambda>current_key_akv.
          if hk_status current_key_akv = HSM_NOT_FOUND
          then cbind (KeyVaultHsmProvider_UpdateKey H 1) (\<lambda>new_key_akv.
                 cthen (on_kp (take_key (hk_key new_key_akv) (hk_version new_key_akv))) (cret True))
          else if hk_status current_key_akv = HSM_DENIED
          then (if sync_only then cthrow (LogicError ''AKV key export denied'')
                else cbind (KeyVaultHsmProvider_UpdateKey H 1) (\<lambda>new_key_akv.
                       cthen (on_kp (take_key (hk_key new_key_akv) (hk_version new_key_akv))) (cret True)))
          else
            cbind (cget (\<lambda>(kp, w). (initialized kp, current_key_version kp))) (\<lambda>(ini, cv).
              if \<not> ini \<or> hk_version current_key_akv > cv
              then cthen (on_kp (take_key (hk_key current_key_akv) (hk_version current_key_akv) \<circ> shift_keys))
                     (cret True)
              else if sync_only then cret False
              else cbind (KeyVaultHsmProvider_UpdateKey H (cv + 1)) (\<lambda>new_key_akv.
                     cthen (on_kp (take_key (hk_key new_key_akv) (hk_version new_key_akv) \<circ> shift_keys))
                       (cret True)))))
       rethrow_curl"

definition KeyVaultHsmProvider_DeleteKey :: "('v, 'j) hsm_lib \<Rightarrow> (hsm_state, 'v, unit) vault_comp" where
  "KeyVaultHsmProvider_DeleteKey H =
     cthen (on_kp KeyProvider_DeleteKey)
     (cbind (cget (\<lambda>(kp, w). hsm_config (kp_derived kp))) (\<lambda>config.
      cthen (akv_request (h_net H) (MakeKeyIdentifier config [] @ ''?api-version='' @ AKV_HSM_API_VERSION) []
               (make_map [(''Content-Type'', ''application/json'')]) DELETE)
        (cret ())))"

definition KeyVaultHsmProvider_Create ::
    "('v, 'j) hsm_lib \<Rightarrow> u32 \<Rightarrow> u32 \<Rightarrow> KeyVaultConfig \<Rightarrow> 'v net_world \<Rightarrow> (exn + hsm_state key_provider) \<times> 'v net_world" where
  "KeyVaultHsmProvider_Create H pv cv config w =
     (case KeyVaultHsmProvider_new pv cv config of
        Inl e \<Rightarrow> (Inl e, w)
      | Inr kp0 \<Rightarrow>
          (case KeyProvider_Initialize (KeyVaultHsmProvider_DoRefreshKey H) (kp0, w) of
             (r, (kp, w2)) \<Rightarrow> (rbind r (\<lambda>_. Inr kp), w2)))"

section \<open>Both providers meet the contract of DoRefreshKey\<close>

text \<open>The base class part of the provider is the one of \<open>kp0\<close>.\<close>

definition frame :: "'c key_provider \<Rightarrow> 'c key_provider \<times> 'v net_world \<Rightarrow> bool" where
  "frame kp0 = (\<lambda>(kp, w). \<exists>d. kp = kp0\<lparr>kp_derived := d\<rparr>)"

lemma frame_refl: "frame kp (kp, w)"
  by (auto simp: frame_def intro: exI [of _ "kp_derived kp"])

lemma frame_zoom:
  assumes "\<And>c w kp (w' :: 'v net_world). frame kp0 (kp, w') \<Longrightarrow> frame kp0 (p (c, w) (kp, w') :: 'c key_provider \<times> 'v net_world)"
  shows "preserves (frame kp0) (czoom g p m)"
proof (rule preservesI)
  fix s :: "'c key_provider \<times> 'v net_world"
  assume "frame kp0 s"
  moreover obtain r c w where "m (g s) = (r, (c, w))" by (metis surj_pair)
  ultimately show "frame kp0 (snd (czoom g p m s))"
    using assms [of "fst s" "snd s" c w] by (simp add: czoom_def)
qed

lemma frame_requests:
  "preserves (frame kp0) (kv_request N u b h m)"
  "preserves (frame kp1) (akv_request N u b h m)"
  "preserves (frame kp1) (aas_request N u b h m)"
  unfolding kv_request_def akv_request_def aas_request_def
  by (rule frame_zoom; auto simp: frame_def)+

lemma frame_case_exn:
  "preserves I (case e of CurlHTTPError u code hs \<Rightarrow> f u code hs | _ \<Rightarrow> cthrow e)"
  if "\<And>u code hs. preserves I (f u code hs)"
  using that by (cases e) auto

lemma frame_kv_FetchKey: "preserves (frame kp0) (KeyVaultProvider_FetchKey N v)"
  unfolding KeyVaultProvider_FetchKey_def
  by (intro preserves_cbind preserves_ccatch frame_requests frame_case_exn preserves_basic preserves_if
      preserves_case_option)

lemma frame_kv_UpdateKey: "preserves (frame kp0) (KeyVaultProvider_UpdateKey N v)"
proof -
  have r: "preserves (frame kp0) kv_refresh_random"
    unfolding kv_refresh_random_def
    by (intro preserves_cthen preserves_basic frame_zoom) (auto simp: frame_def)
  show ?thesis
    unfolding KeyVaultProvider_UpdateKey_def
    by (intro preserves_cthen preserves_cbind r preserves_basic)
       (auto intro!: preserves_cbind frame_requests split: prod.splits)
qed

lemma frame_hsm_FetchKey: "preserves (frame kp0) (KeyVaultHsmProvider_FetchKey H v)"
  unfolding KeyVaultHsmProvider_FetchKey_def hsm_export_def
  by (intro preserves_cbind preserves_basic)
     (auto intro!: preserves_cbind preserves_ccatch frame_requests frame_case_exn preserves_if preserves_case_sum
        split: prod.splits)

lemma frame_hsm_UpdateKey: "preserves (frame kp0) (KeyVaultHsmProvider_UpdateKey H v)"
  unfolding KeyVaultHsmProvider_UpdateKey_def
  by (intro preserves_cbind frame_requests frame_hsm_FetchKey preserves_if preserves_basic)

lemmas frame_keys = frame_kv_FetchKey frame_kv_UpdateKey frame_hsm_FetchKey frame_hsm_UpdateKey

text \<open>
  The shape both \<^verbatim>\<open>DoRefreshKey\<close> share: calls that leave the base class alone, at the end one
  assignment of the keys, or none.
\<close>

definition refresh_result :: "'c key_provider \<Rightarrow> exn + bool \<Rightarrow> 'c key_provider \<Rightarrow> bool" where
  "refresh_result kp0 r kp' \<longleftrightarrow> (\<exists>d k v.
     (r \<noteq> Inr True \<and> kp' = kp0\<lparr>kp_derived := d\<rparr>)
   \<or> (r = Inr True \<and> (kp' = (take_key k v kp0)\<lparr>kp_derived := d\<rparr>
        \<or> kp' = (take_key k v (shift_keys kp0))\<lparr>kp_derived := d\<rparr>)))"

definition refreshes :: "'c key_provider \<Rightarrow> ('c, 'v, bool) vault_comp \<Rightarrow> bool" where
  "refreshes kp0 m \<longleftrightarrow> (\<forall>kp w r kp' w'. frame kp0 (kp, w) \<longrightarrow> m (kp, w) = (r, (kp', w')) \<longrightarrow> refresh_result kp0 r kp')"

lemma refreshes_cbind:
  assumes "preserves (frame kp0) m" and "\<And>x. refreshes kp0 (f x)"
  shows "refreshes kp0 (cbind m f)"
  unfolding refreshes_def
proof (intro allI impI)
  fix kp w r kp' w'
  assume fr: "frame kp0 (kp, w)" and e: "cbind m f (kp, w) = (r, (kp', w'))"
  obtain r1 kp1 w1 where m: "m (kp, w) = (r1, (kp1, w1))" by (metis surj_pair)
  with preservesD [OF assms(1) fr] have fr1: "frame kp0 (kp1, w1)" by simp
  show "refresh_result kp0 r kp'"
  proof (cases r1)
    case (Inl x)
    with e m fr1 show ?thesis by (auto simp: cbind_def frame_def refresh_result_def)
  next
    case (Inr x)
    with e m fr1 assms(2) [of x] show ?thesis by (auto simp: cbind_def refreshes_def)
  qed
qed

lemma refreshes_basic:
  "refreshes kp0 (cret False)" "refreshes kp0 (cthrow x)"
  "refreshes kp0 (cthen (on_kp (take_key k v)) (cret True))"
  "refreshes kp0 (cthen (on_kp (take_key k v \<circ> shift_keys)) (cret True))"
  by (cases kp0; auto simp: refreshes_def refresh_result_def frame_def on_kp_def take_key_def shift_keys_def)+

lemma refreshes_if: "refreshes kp0 m \<Longrightarrow> refreshes kp0 k \<Longrightarrow> refreshes kp0 (if b then m else k)"
  by simp

lemma refreshes_catch:
  assumes "refreshes kp0 m"
  shows "refreshes kp0 (ccatch m rethrow_curl)"
  unfolding refreshes_def
proof (intro allI impI)
  fix kp w r kp' w'
  assume fr: "frame kp0 (kp, w)" and e: "ccatch m rethrow_curl (kp, w) = (r, (kp', w'))"
  obtain r1 kp1 w1 where m: "m (kp, w) = (r1, (kp1, w1))" by (metis surj_pair)
  with assms fr have rr: "refresh_result kp0 r1 kp1" by (auto simp: refreshes_def)
  show "refresh_result kp0 r kp'"
    using rr e m by (cases r1) (auto simp: ccatch_def rethrow_curl_def refresh_result_def split: if_splits)
qed

lemma KeyVault_refreshes: "refreshes kp0 (KeyVaultProvider_DoRefreshKey N so)"
  unfolding KeyVaultProvider_DoRefreshKey_def
  by (intro refreshes_catch refreshes_cbind refreshes_if frame_keys refreshes_basic preserves_basic)
     (auto intro!: refreshes_cbind refreshes_if frame_keys refreshes_basic split: prod.splits)

lemma KeyVaultHsm_refreshes: "refreshes kp0 (KeyVaultHsmProvider_DoRefreshKey H so)"
  unfolding KeyVaultHsmProvider_DoRefreshKey_def
  by (intro refreshes_catch refreshes_cbind refreshes_if frame_keys refreshes_basic preserves_basic)
     (auto intro!: refreshes_cbind refreshes_if frame_keys refreshes_basic split: prod.splits)

lemma refreshes_contract:
  assumes "refreshes kp m" and "m (kp, w) = (r, (kp', w'))"
  shows "key_type kp' = key_type kp \<and> initialized kp' = initialized kp \<and> last_refreshed kp' = last_refreshed kp"
    and "r \<noteq> Inr True \<Longrightarrow> same_keys kp kp'"
    and "r = Inr True \<Longrightarrow> rolled_over kp kp' \<or> replaced kp kp'"
proof -
  have "refresh_result kp r kp'" using assms frame_refl unfolding refreshes_def by blast
  then show "key_type kp' = key_type kp \<and> initialized kp' = initialized kp \<and> last_refreshed kp' = last_refreshed kp"
    "r \<noteq> Inr True \<Longrightarrow> same_keys kp kp'" "r = Inr True \<Longrightarrow> rolled_over kp kp' \<or> replaced kp kp'"
    by (auto simp: refresh_result_def take_key_def shift_keys_def same_keys_def rolled_over_def replaced_def)
qed

interpretation vault_kp: key_provider_contract "KeyVaultProvider_DoRefreshKey N" "\<lambda>_. True"
  by unfold_locales (use refreshes_contract [OF KeyVault_refreshes] in \<open>fastforce+\<close>)

interpretation hsm_kp: key_provider_contract "KeyVaultHsmProvider_DoRefreshKey H" "\<lambda>_. True"
  by unfold_locales (use refreshes_contract [OF KeyVaultHsm_refreshes] in \<open>fastforce+\<close>)

section \<open>Properties\<close>

lemma ccatch_rethrow_curl: "ccatch m rethrow_curl s = (Inl e, s') \<Longrightarrow> \<not> is_CurlError e"
  by (auto simp: ccatch_def rethrow_curl_def split: prod.splits sum.splits if_splits)

text \<open>
  C27: a refresh through the key vault that does not report success, whether the network, the
  vault's answer or the HTTP client fails, leaves both keys, their versions and the time of the last
  refresh as they were; a successful one either moves the current key to the previous slot or
  replaces it. Curl errors reach the caller only as key refresh errors.
\<close>

theorem vault_refresh_atomic:
  assumes "KeyProvider_RefreshKey (KeyVaultProvider_DoRefreshKey N) so (kp, w) = (r, (kp', w'))"
  shows "(r \<noteq> Inr True \<longrightarrow> same_keys kp kp' \<and> last_refreshed kp' = last_refreshed kp)
    \<and> (r = Inr True \<longrightarrow> rolled_over kp kp' \<or> replaced kp kp')
    \<and> (\<forall>e. r = Inl e \<longrightarrow> \<not> is_CurlError e)"
proof (intro conjI impI allI)
  assume "r \<noteq> Inr True"
  then show "same_keys kp kp'" "last_refreshed kp' = last_refreshed kp"
    using vault_kp.RefreshKey_not_refreshed [OF TrueI assms] by blast+
next
  assume "r = Inr True"
  then show "rolled_over kp kp' \<or> replaced kp kp'"
    using vault_kp.RefreshKey_refreshed [OF TrueI, of N so kp w] assms by blast
next
  fix e assume "r = Inl e"
  with assms show "\<not> is_CurlError e"
    by (auto simp: KeyProvider_RefreshKey_def cbind_def KeyVaultProvider_DoRefreshKey_def
        dest: ccatch_rethrow_curl split: prod.splits sum.splits if_splits)
qed

lemma hsm_unpack_key_clamped: "hsm_unpack_key H s = Inr k \<Longrightarrow> clamped (hk_key k) \<and> hk_status k = HSM_OK"
  by (clarsimp simp: hsm_unpack_key_def rbind_Inr_iff Let_def split: option.splits) (rule clamp_key_clamped)

lemma hsm_export_status:
  assumes "hsm_export H cfg v a s = (Inr (Inl st), s')"
  shows "st \<noteq> HSM_OK"
proof -
  obtain r s1 where q: "akv_request (h_net H)
     (MakeKeyIdentifier cfg v @ ''/export'' @ ''?api-version='' @ AKV_HSM_API_VERSION)
     (''{'' @ '' '' @ dq @ ''env'' @ dq @ '': '' @ a @ ''}'') json_headers POST s = (r, s1)"
    by (metis surj_pair)
  note e = assms [unfolded hsm_export_def ccatch_def cbind_def q prod.case]
  show ?thesis
  proof (cases r)
    case (Inl x)
    with e show ?thesis by (cases x) (auto split: if_splits)
  qed (use e in simp)
qed

lemma hsm_FetchKey_clamped:
  assumes "KeyVaultHsmProvider_FetchKey H v s = (Inr k, s')" and "hk_status k = HSM_OK"
  shows "clamped (hk_key k)"
proof -
  obtain cfg a s1 s2 x where e: "hsm_export H cfg v a s1 = (Inr x, s2)"
    and k: "(case x of Inl st \<Rightarrow> cret (KeyVaultHsmKey_status st) | Inr t \<Rightarrow> clift (hsm_unpack_key H t)) s2 = (Inr k, s')"
    using assms(1) by (auto simp: KeyVaultHsmProvider_FetchKey_def cbind_Inr_iff split: prod.splits)
  show ?thesis
  proof (cases x)
    case (Inl st)
    with k e assms(2) show ?thesis
      using hsm_export_status [of H cfg v a s1 st s2] by (auto simp: KeyVaultHsmKey_status_def)
  next
    case (Inr t)
    with k show ?thesis by (auto dest: hsm_unpack_key_clamped)
  qed
qed

lemma hsm_UpdateKey_clamped:
  "KeyVaultHsmProvider_UpdateKey H v s = (Inr k, s') \<Longrightarrow> clamped (hk_key k)"
  by (auto simp: KeyVaultHsmProvider_UpdateKey_def cbind_Inr_iff dest: hsm_FetchKey_clamped split: if_splits)

lemma ccatch_Inr: "ccatch m rethrow_curl s = (Inr x, s') \<Longrightarrow> m s = (Inr x, s')"
  by (auto simp: ccatch_def rethrow_curl_def split: prod.splits sum.splits if_splits)

text \<open>
  C28: every key the HSM provider takes over from the vault has the bits of an Ed25519 secret
  scalar, and a key of fewer than 32 bytes is never taken over.
\<close>

theorem hsm_refreshed_key_clamped:
  assumes "KeyVaultHsmProvider_DoRefreshKey H so (kp, w) = (Inr True, (kp', w'))"
  shows "clamped (current_key kp')"
proof -
  note r = ccatch_Inr [OF assms [unfolded KeyVaultHsmProvider_DoRefreshKey_def]]
  from r obtain k kp1 w1 where f: "KeyVaultHsmProvider_FetchKey H [] (kp, w) = (Inr k, (kp1, w1))"
    by (auto simp: cbind_Inr_iff)
  show ?thesis
  proof (cases "hk_status k")
    case HSM_OK
    note c = hsm_FetchKey_clamped [OF f HSM_OK]
    from r f HSM_OK c show ?thesis
      by (auto simp: cbind_Inr_iff cthen_Inr_iff on_kp_def take_key_def shift_keys_def
          dest: hsm_UpdateKey_clamped split: if_splits)
  qed (use r f in \<open>auto simp: cbind_Inr_iff cthen_Inr_iff on_kp_def take_key_def shift_keys_def
          dest: hsm_UpdateKey_clamped split: if_splits\<close>)
qed

text \<open>
  When the vault has lost the key, the provider stores a new one with version 1 and does not
  keep the key it had: a client that uses that key is then refused, unless its version happens to
  be 1 or that of the previous key.
\<close>

theorem vault_key_loss_drops_current_key:
  assumes "KeyVaultProvider_FetchKey N [] (kp, w) = (Inr k, (kp1, w1))" and "kvk_not_found k"
    and "KeyVaultProvider_DoRefreshKey N so (kp, w) = (Inr True, (kp', w'))"
    and "current_key_version kp \<noteq> 1" and "current_key_version kp \<noteq> previous_key_version kp"
  shows "current_key_version kp' = 1
    \<and> GetKey kp' (current_key_version kp) = Inl (CryptoError ''key with specified version not found'')"
proof -
  note r = ccatch_Inr [OF assms(3) [unfolded KeyVaultProvider_DoRefreshKey_def]]
  from r assms(1,2) obtain nk kp2 where u: "KeyVaultProvider_UpdateKey N 1 (kp1, w1) = (Inr nk, (kp2, w'))"
      "kp' = take_key (kvk_key nk) (kvk_version nk) kp2"
    by (auto simp: cbind_Inr_iff cthen_Inr_iff on_kp_def)
  have v: "kvk_version nk = 1"
    using u(1) by (auto simp: KeyVaultProvider_UpdateKey_def cbind_Inr_iff cthen_Inr_iff kv_parse_update_def rbind_Inr_iff
        split: if_splits)
  have "frame kp (kp1, w1)" using preservesD [OF frame_kv_FetchKey frame_refl, of kp N "[]" w] assms(1) by simp
  then have "frame kp (kp2, w')"
    using preservesD [OF frame_kv_UpdateKey, of kp "(kp1, w1)" N 1] u(1) by simp
  then show ?thesis using u(2) v assms(4,5) by (auto simp: frame_def take_key_def GetKey_def)
qed

section \<open>A concrete vault\<close>

text \<open>An empty vault that accepts a new key; a JSON value is the path that leads to it.\<close>

definition empty_vault :: "(unit, string) net_lib" where
  "empty_vault =
     \<lparr>n_curl = \<lparr>curl_easy_init = True, curl_easy_escape = Some,
        curl_easy_perform = (\<lambda>q v.
          (\<lparr>cr_result = 0, cr_code = (if cu_method q = PUT then 200 else 404), cr_chunks = [''{}''],
            cr_header_lines = []\<rparr>, v)),
        curl_easy_strerror = (\<lambda>e. [])\<rparr>,
      n_json = \<lparr>json_parse = (\<lambda>s. Inr []), json_index = (\<lambda>j k. Inr k), json_has = (\<lambda>j k. True),
        json_string = (\<lambda>j. Inr (if j = ''version'' then ''1'' else ''40ff'')),
        json_eq_string = (\<lambda>j s. True)\<rparr>\<rparr>"

definition sample_vault_provider :: "kv_state key_provider" where
  "sample_vault_provider =
     \<lparr>previous_key = [1], current_key = [2], previous_key_version = 6, current_key_version = 7,
      initialized = True, key_type = Curve25519, last_refreshed = 0,
      kp_derived = \<lparr>kv_config = KeyVaultConfig_new ''i'' ''p'' ''u/'' ''k'' [], kv_http = HTTPClient_new ''i'' ''p'',
        kv_random = \<lparr>previous_key = replicate 32 0, current_key = replicate 32 0, previous_key_version = 0,
          current_key_version = 1, initialized = True, key_type = Curve25519, last_refreshed = 0, kp_derived = ()\<rparr>\<rparr>\<rparr>"

definition sample_vault_world :: "unit net_world" where
  "sample_vault_world =
     \<lparr>w_rng = (\<lambda>i. int i), w_rng_pos = 0, w_clock = (\<lambda>i. 5), w_clock_pos = 0, w_net = ()\<rparr>"

theorem vault_refresh_atomic_witness:
  "\<exists>kp' w'. KeyProvider_RefreshKey (KeyVaultProvider_DoRefreshKey
       (empty_vault\<lparr>n_curl := (n_curl empty_vault)\<lparr>curl_easy_init := False\<rparr>\<rparr>)) False
      (sample_vault_provider, sample_vault_world) = (Inl (RuntimeError ''Error initializing curl''), (kp', w'))
    \<and> same_keys sample_vault_provider kp'"
proof -
  let ?N = "empty_vault\<lparr>n_curl := (n_curl empty_vault)\<lparr>curl_easy_init := False\<rparr>\<rparr>"
  obtain r kp' w' where e: "KeyProvider_RefreshKey (KeyVaultProvider_DoRefreshKey ?N) False
      (sample_vault_provider, sample_vault_world) = (r, (kp', w'))" by (metis surj_pair)
  moreover have "fst (KeyProvider_RefreshKey (KeyVaultProvider_DoRefreshKey ?N) False
      (sample_vault_provider, sample_vault_world)) = Inl (RuntimeError ''Error initializing curl'')"
    by code_simp
  ultimately show ?thesis using vault_refresh_atomic [OF e] by auto
qed

theorem vault_key_loss_drops_current_key_witness:
  "\<exists>kp' w'. KeyVaultProvider_DoRefreshKey empty_vault False (sample_vault_provider, sample_vault_world)
      = (Inr True, (kp', w'))
    \<and> current_key_version kp' = 1
    \<and> GetKey kp' 7 = Inl (CryptoError ''key with specified version not found'')"
proof -
  let ?s = "(sample_vault_provider, sample_vault_world)"
  have f: "case KeyVaultProvider_FetchKey empty_vault [] ?s of (Inr k, _) \<Rightarrow> kvk_not_found k | _ \<Rightarrow> False"
    by code_simp
  have d: "fst (KeyVaultProvider_DoRefreshKey empty_vault False ?s) = Inr True"
    by code_simp
  obtain k kp1 w1 where f': "KeyVaultProvider_FetchKey empty_vault [] ?s = (Inr k, (kp1, w1))" "kvk_not_found k"
    using f by (auto split: prod.splits sum.splits)
  obtain kp' w' where d': "KeyVaultProvider_DoRefreshKey empty_vault False ?s = (Inr True, (kp', w'))"
    using d by (metis fst_conv surj_pair)
  have v: "current_key_version sample_vault_provider = 7" "previous_key_version sample_vault_provider = 6"
    by (simp_all add: sample_vault_provider_def)
  show ?thesis
    using vault_key_loss_drops_current_key [OF f' d'] d' v by simp
qed

text \<open>An HSM that releases a key of 32 bytes with version 3.\<close>

definition sample_hsm :: "(unit, string) hsm_lib" where
  "sample_hsm =
     \<lparr>h_net = \<lparr>n_curl = (n_curl empty_vault)\<lparr>curl_easy_perform := (\<lambda>q v.
          (\<lparr>cr_result = 0, cr_code = 200, cr_chunks = [''x''], cr_header_lines = []\<rparr>, v))\<rparr>,
        n_json = n_json empty_vault\<rparr>,
      h_skr = \<lparr>skr_get_report = Some ([1], [2]),
        skr_import_key = (\<lambda>s. Some (replicate 32 255, [(''version'', ''3'')])),
        skr_base64_encode = (\<lambda>b. ''b64''), skr_oe_get_report = Inr [], skr_oe_parse_report = (\<lambda>r. Inl 1)\<rparr>,
      h_oe = \<lparr>oe_get_report = Inr, oe_result_str = (\<lambda>n. []), oe_verify_remote_report = (\<lambda>q c. None),
        OE_UNIQUE_ID_SIZE = 32, OE_SIGNER_ID_SIZE = 32, OE_REPORT_ATTRIBUTES_DEBUG = 1\<rparr>\<rparr>"

definition sample_hsm_provider :: "hsm_state key_provider" where
  "sample_hsm_provider = KeyProvider_new 0 0 SYMMETRIC_KEY_SIZE Curve25519
     \<lparr>hsm_config = KeyVaultConfig_new ''i'' ''p'' ''u/'' ''k'' ''a/'',
      hsm_akv = HTTPClient_new ''i'' ''p'', hsm_aas = HTTPClient_new ''i'' ''p''\<rparr>"

theorem hsm_refreshed_key_clamped_witness:
  "\<exists>kp' w'. KeyVaultHsmProvider_DoRefreshKey sample_hsm True (sample_hsm_provider, sample_vault_world)
      = (Inr True, (kp', w')) \<and> clamped (current_key kp')"
proof -
  have "fst (KeyVaultHsmProvider_DoRefreshKey sample_hsm True (sample_hsm_provider, sample_vault_world)) = Inr True"
    by code_simp
  then obtain kp' w' where e: "KeyVaultHsmProvider_DoRefreshKey sample_hsm True (sample_hsm_provider, sample_vault_world)
      = (Inr True, (kp', w'))" by (metis fst_conv surj_pair)
  then show ?thesis using hsm_refreshed_key_clamped [OF e] by blast
qed

end
