(* ===== verification/Enclave.thy ===== *)
theory Enclave
  imports Conf_Session Key_Vault Environment
begin

text \<open>
  The entry points of the enclave, \<^verbatim>\<open>server/enclave/enclave.cc\<close>. The global \<^verbatim>\<open>env\<close> is part of the
  world, since the protocol server reaches it through the request callback; the globals
  \<^verbatim>\<open>confmsg_server\<close> and \<^verbatim>\<open>key_rollover_interval\<close> are the members of \<open>enclave_state\<close>. A null pointer is
  \<open>None\<close>, its use a fault. The thread-local request type is an argument of the callback.
\<close>

section \<open>Which provider a pointer refers to\<close>

text \<open>
  A \<^verbatim>\<open>unique_ptr<KeyProvider>\<close> of this program points to a local provider, to a key vault
  provider or to an HSM provider: the members of the derived class tell which.
\<close>

datatype provider_state = LocalKP | VaultKP kv_state | HsmKP hsm_state

definition retype :: "('c \<Rightarrow> 'd) \<Rightarrow> 'c key_provider \<Rightarrow> 'd key_provider" where
  "retype f kp =
     \<lparr>previous_key = previous_key kp, current_key = current_key kp,
      previous_key_version = previous_key_version kp, current_key_version = current_key_version kp,
      initialized = initialized kp, key_type = key_type kp, last_refreshed = last_refreshed kp,
      kp_derived = f (kp_derived kp)\<rparr>"

record ('v, 'm) enclave_world = "'v net_world" +
  ew_env :: "('m, provider_state) ServerEnvironment option"

definition net_of :: "('v, 'm) enclave_world \<Rightarrow> 'v net_world" where
  "net_of w = \<lparr>w_rng = w_rng w, w_rng_pos = w_rng_pos w, w_clock = w_clock w, w_clock_pos = w_clock_pos w,
     w_net = w_net w\<rparr>"

definition put_net :: "'v net_world \<Rightarrow> ('v, 'm) enclave_world \<Rightarrow> ('v, 'm) enclave_world" where
  "put_net n w = w\<lparr>w_rng := w_rng n, w_rng_pos := w_rng_pos n, w_clock := w_clock n,
     w_clock_pos := w_clock_pos n, w_net := w_net n\<rparr>"

definition on_net ::
    "('c \<Rightarrow> provider_state) \<Rightarrow> 'c \<Rightarrow> ('c, 'v, 'a) vault_comp
       \<Rightarrow> (provider_state key_provider \<times> ('v, 'm) enclave_world, exn, 'a) comp" where
  "on_net con st m = (\<lambda>(kp, w).
     case m (retype (\<lambda>_. st) kp, net_of w) of (r, (kp', n)) \<Rightarrow> (r, (retype con kp', put_net n w)))"

section \<open>What the enclave is linked with\<close>

record ('v, 'j, 'm) enclave_libs =
  el_libs :: libs
  el_hsm :: "('v, 'j) hsm_lib"
  el_ort :: "'m ort_lib"
  el_pb_parse :: "bytes \<Rightarrow> PredictRequest option"
  el_pb_serialize :: "PredictResponse \<Rightarrow> bytes option"
  HAVE_LIBSKR :: bool
  el_debug :: bool
  el_uninit_pv :: u32
  el_uninit_cv :: u32
  el_ticks_per_second :: int

text \<open>The virtual call of \<^verbatim>\<open>DoRefreshKey\<close>.\<close>

definition provider_DoRefreshKey ::
    "('v, 'j, 'm) enclave_libs \<Rightarrow> bool \<Rightarrow> (provider_state key_provider \<times> ('v, 'm) enclave_world, exn, bool) comp" where
  "provider_DoRefreshKey E sync_only = (\<lambda>(kp, w).
     case kp_derived kp of
       LocalKP \<Rightarrow> RandomEd25519KeyProvider_DoRefreshKey sync_only (kp, w)
     | VaultKP st \<Rightarrow> on_net VaultKP st (KeyVaultProvider_DoRefreshKey (h_net (el_hsm E)) sync_only) (kp, w)
     | HsmKP st \<Rightarrow> on_net HsmKP st (KeyVaultHsmProvider_DoRefreshKey (el_hsm E) sync_only) (kp, w))"

section \<open>HandleRequest: the callback\<close>

definition RequestType_ProvisionModelKey :: byte where "RequestType_ProvisionModelKey = 0"
definition RequestType_Score :: byte where "RequestType_Score = 1"

definition HandleScore ::
    "('v, 'j, 'm) enclave_libs \<Rightarrow> ('m, provider_state) ServerEnvironment \<Rightarrow> bytes \<Rightarrow> exn + bytes" where
  "HandleScore E env data =
     (case el_pb_parse E data of
        None \<Rightarrow> Inl (ServerPayloadParseError ''Protobuf parsing error'')
      | Some predict_request \<Rightarrow>
          (case Predict (el_ort E) (GetSession env) (GetModelOutputNames env) predict_request of
             (Inl e, _) \<Rightarrow> Inl e
           | (Inr status, predict_response) \<Rightarrow>
               if st_code status \<noteq> OK_CODE then Inl (InferenceError (st_message status))
               else (case el_pb_serialize E predict_response of
                       None \<Rightarrow> Inl (ServerSerializationError ''Protobuf serialization error'')
                     | Some out \<Rightarrow> Inr out)))"

text \<open>Provisioning leaves the data, which becomes the answer, as it is.\<close>

definition HandleRequest ::
    "('v, 'j, 'm) enclave_libs \<Rightarrow> byte \<Rightarrow> bytes \<Rightarrow> ('v, 'm) enclave_world \<Rightarrow> (exn + bytes) \<times> ('v, 'm) enclave_world" where
  "HandleRequest E current_request_type data w =
     (case ew_env w of
        None \<Rightarrow> (Inl (Fault ''env is null''), w)
      | Some env \<Rightarrow>
          if current_request_type = RequestType_Score then (HandleScore E env data, w)
          else if current_request_type = RequestType_ProvisionModelKey
          then (case StaticKeyProvider_Create (el_uninit_pv E) (el_uninit_cv E) data Curve25519 LocalKP w of
                  (Inl e, w1) \<Rightarrow> (Inl e, w1)
                | (Inr kp, w1) \<Rightarrow>
                    (case InitializeModel_provider (l_crypto (el_libs E)) (el_ort E) kp env of
                       (r, env') \<Rightarrow> (rbind r (\<lambda>_. Inr data), w1\<lparr>ew_env := Some env'\<rparr>)))
          else (Inl (UnknownRequestTypeError (to_string (uint current_request_type))), w))"

section \<open>The entry points\<close>

record ('v, 'm) enclave_state =
  g_server :: "provider_state server option"
  g_key_rollover_interval :: int
  g_world :: "('v, 'm) enclave_world"

type_synonym ('v, 'm, 'a) ecall = "(('v, 'm) enclave_state, exn, 'a) comp"

text \<open>A call that works on the world alone.\<close>

definition on_world ::
    "(('v, 'm) enclave_world \<Rightarrow> (exn + 'a) \<times> ('v, 'm) enclave_world) \<Rightarrow> ('v, 'm, 'a) ecall" where
  "on_world f = czoom g_world (\<lambda>w g. g\<lparr>g_world := w\<rparr>) f"

definition create_vault_provider ::
    "('v, 'j, 'm) enclave_libs \<Rightarrow> KeyVaultConfig \<Rightarrow> ('v, 'm, provider_state key_provider) ecall" where
  "create_vault_provider E kvc = on_world (\<lambda>w.
     case KeyVaultProvider_Create (h_net (el_hsm E)) (el_uninit_pv E) (el_uninit_cv E) kvc (net_of w) of
       (r, n) \<Rightarrow> (rbind r (\<lambda>kp. Inr (retype VaultKP kp)), put_net n w))"

definition create_hsm_provider ::
    "('v, 'j, 'm) enclave_libs \<Rightarrow> KeyVaultConfig \<Rightarrow> ('v, 'm, provider_state key_provider) ecall" where
  "create_hsm_provider E kvc =
     (if HAVE_LIBSKR E
      then on_world (\<lambda>w.
        case KeyVaultHsmProvider_Create (el_hsm E) (el_uninit_pv E) (el_uninit_cv E) kvc (net_of w) of
          (r, n) \<Rightarrow> (rbind r (\<lambda>kp. Inr (retype HsmKP kp)), put_net n w))
      else cthrow (Fault ''abort''))"

record akv_params =
  akv_app_id :: string
  akv_app_pwd :: string
  akv_vault_url :: string
  akv_service_key_name :: string
  akv_model_key_name :: string
  akv_attestation_url :: string

definition create_model_key_provider ::
    "('v, 'j, 'm) enclave_libs \<Rightarrow> bool \<Rightarrow> akv_params \<Rightarrow> ('v, 'm, provider_state key_provider option) ecall" where
  "create_model_key_provider E use_akv a =
     (if use_akv \<and> akv_model_key_name a \<noteq> []
      then if akv_attestation_url a = []
           then cbind (create_vault_provider E (KeyVaultConfig_new (akv_app_id a) (akv_app_pwd a)
                         (akv_vault_url a) (akv_model_key_name a) [])) (\<lambda>kp. cret (Some kp))
           else cbind (create_hsm_provider E (KeyVaultConfig_new (akv_app_id a) (akv_app_pwd a)
                         (akv_vault_url a) (akv_model_key_name a) (akv_attestation_url a))) (\<lambda>kp. cret (Some kp))
      else cret None)"

text \<open>
  The service key. \<open>None\<close> is the early return with \<^verbatim>\<open>KEY_REFRESH_ERROR\<close> from the handler around the
  vault providers, which takes every standard exception.
\<close>

definition create_key_provider ::
    "('v, 'j, 'm) enclave_libs \<Rightarrow> bool \<Rightarrow> akv_params \<Rightarrow> ('v, 'm, provider_state key_provider option) ecall" where
  "create_key_provider E use_akv a =
     (if use_akv
      then let kvc = KeyVaultConfig_new (akv_app_id a) (akv_app_pwd a) (akv_vault_url a)
                       (akv_service_key_name a) (akv_attestation_url a)
           in ccatch
                (cbind (if akv_attestation_url a = [] then create_vault_provider E kvc else create_hsm_provider E kvc)
                   (\<lambda>kp. cret (Some kp)))
                (\<lambda>e. if is_std_exception e then cret None else cthrow e)
      else cbind (on_world (RandomEd25519KeyProvider_Create (el_uninit_pv E) (el_uninit_cv E) LocalKP))
             (\<lambda>kp. cret (Some kp)))"

definition with_env :: "('m, provider_state, 'a) env_comp \<Rightarrow> ('v, 'm, 'a) ecall" where
  "with_env f = on_world (\<lambda>w. case ew_env w of
       None \<Rightarrow> (Inl (Fault ''env is null''), w)
     | Some env \<Rightarrow> (case f env of (r, env') \<Rightarrow> (r, w\<lparr>ew_env := Some env'\<rparr>)))"

fun on_model_error :: "exn \<Rightarrow> ('v, 'm, EnclaveCallStatus) ecall" where
  "on_model_error (OrtException m c) = cret MODEL_LOADING_ERROR"
| "on_model_error e = cthrow e"

text \<open>The last part of \<^verbatim>\<open>_EnclaveInitialize\<close>: the protocol server and the model.\<close>

definition start_server ::
    "('v, 'j, 'm) enclave_libs \<Rightarrow> bytes \<Rightarrow> bool \<Rightarrow> bytes \<Rightarrow> provider_state key_provider \<Rightarrow> ('v, 'm, EnclaveCallStatus) ecall" where
  "start_server E model_buf use_model_key_provisioning service_id kp =
     cbind (on_world (Server_new (el_libs E) service_id kp)) (\<lambda>server.
     cthen (cmodify (\<lambda>g. g\<lparr>g_server := Some server\<rparr>))
     (if use_model_key_provisioning
      then cthen (with_env (SetEncryptedModel model_buf)) (cret SUCCESS)
      else ccatch
        (cthen (with_env (InitializeModel (l_crypto (el_libs E)) (el_ort E) model_buf)) (cret SUCCESS))
        on_model_error))"

definition EnclaveInitialize_body ::
    "('v, 'j, 'm) enclave_libs \<Rightarrow> bytes \<Rightarrow> bool \<Rightarrow> bool \<Rightarrow> akv_params \<Rightarrow> ('v, 'm, EnclaveCallStatus) ecall" where
  "EnclaveInitialize_body E model_buf use_model_key_provisioning use_akv a =
     cbind (cget (\<lambda>g. ew_env (g_world g))) (\<lambda>env0.
       if env0 \<noteq> None then cret SESSION_ALREADY_INITIALIZED_ERROR
       else
         cbind (clift (SHA256 (l_crypto (el_libs E)) model_buf [])) (\<lambda>service_id.
         cbind (create_model_key_provider E use_akv a) (\<lambda>model_key_provider.
         let log_level = (if el_debug E then ORT_LOGGING_LEVEL_VERBOSE else ORT_LOGGING_LEVEL_FATAL)
         in cthen (cmodify (\<lambda>g. g\<lparr>g_world :=
                (g_world g)\<lparr>ew_env := Some (ServerEnvironment_new log_level model_key_provider)\<rparr>\<rparr>))
           (cbind (create_key_provider E use_akv a) (\<lambda>key_provider.
              case key_provider of
                None \<Rightarrow> cret KEY_REFRESH_ERROR
              | Some kp \<Rightarrow> start_server E model_buf use_model_key_provisioning service_id kp)))))"

text \<open>Handlers that end in \<^verbatim>\<open>catch (...)\<close> take everything but a fault.\<close>

definition catch_all :: "(exn \<Rightarrow> EnclaveCallStatus) \<Rightarrow> ('v, 'm, EnclaveCallStatus) ecall \<Rightarrow> ('v, 'm, EnclaveCallStatus) ecall" where
  "catch_all h m = ccatch m (\<lambda>e. if is_Fault e then cthrow e else cret (h e))"

definition EnclaveInitialize ::
    "('v, 'j, 'm) enclave_libs \<Rightarrow> bytes \<Rightarrow> u32 \<Rightarrow> bool \<Rightarrow> bool \<Rightarrow> akv_params \<Rightarrow> ('v, 'm, EnclaveCallStatus) ecall" where
  "EnclaveInitialize E model_buf key_rollover_interval_seconds use_model_key_provisioning use_akv a =
     cthen (cmodify (\<lambda>g. g\<lparr>g_key_rollover_interval := uint key_rollover_interval_seconds\<rparr>))
       (catch_all (\<lambda>_. UNKNOWN_ERROR) (EnclaveInitialize_body E model_buf use_model_key_provisioning use_akv a))"

fun request_error_status :: "exn \<Rightarrow> EnclaveCallStatus" where
  "request_error_status (CryptoError _) = CRYPTO_ERROR"
| "request_error_status (KeyRefreshError _) = KEY_REFRESH_ERROR"
| "request_error_status (PayloadParseError _) = PAYLOAD_PARSE_ERROR"
| "request_error_status (OutputBufferTooSmallError _) = OUTPUT_BUFFER_TOO_SMALL_ERROR"
| "request_error_status (SerializationError _) = OUTPUT_SERIALIZATION_ERROR"
| "request_error_status (AttestationError _) = ATTESTATION_ERROR"
| "request_error_status (ServerPayloadParseError _) = PAYLOAD_PARSE_ERROR"
| "request_error_status ModelAlreadyInitializedError = MODEL_ALREADY_INITIALIZED_ERROR"
| "request_error_status (ServerSerializationError _) = OUTPUT_SERIALIZATION_ERROR"
| "request_error_status (InferenceError _) = INFERENCE_ERROR"
| "request_error_status (UnknownRequestTypeError _) = UNKNOWN_REQUEST_TYPE_ERROR"
| "request_error_status _ = UNKNOWN_ERROR"

definition on_confmsg_server ::
    "(provider_state server \<times> ('v, 'm) enclave_world, exn, 'a) comp \<Rightarrow> ('v, 'm, 'a) ecall" where
  "on_confmsg_server m g = (case g_server g of
       None \<Rightarrow> (Inl (Fault ''confmsg_server is null''), g)
     | Some s \<Rightarrow> (case m (s, g_world g) of (r, (s', w')) \<Rightarrow> (r, g\<lparr>g_server := Some s', g_world := w'\<rparr>)))"

text \<open>The status with the contents of the output buffer, which an error leaves alone.\<close>

definition EnclaveHandleRequest ::
    "('v, 'j, 'm) enclave_libs \<Rightarrow> byte \<Rightarrow> bytes \<Rightarrow> nat \<Rightarrow> ('v, 'm, EnclaveCallStatus \<times> bytes option) ecall" where
  "EnclaveHandleRequest E request_type input output_max_size =
     cbind (cget (\<lambda>g. ew_env (g_world g))) (\<lambda>env.
       if env = None then cthrow (Fault ''env is null'')
       else
         ccatch
           (cbind (on_confmsg_server (Server_RespondToMessage (el_libs E) (provider_DoRefreshKey E)
                     (HandleRequest E request_type) input output_max_size)) (\<lambda>out.
              cret (SUCCESS, Some out)))
           (\<lambda>e. if is_Fault e then cthrow e else cret (request_error_status e, None)))"

fun refresh_error_status :: "exn \<Rightarrow> EnclaveCallStatus" where
  "refresh_error_status (KeyRefreshError _) = KEY_REFRESH_ERROR"
| "refresh_error_status _ = UNKNOWN_ERROR"

definition EnclaveMaybeRefreshKey :: "('v, 'j, 'm) enclave_libs \<Rightarrow> ('v, 'm, EnclaveCallStatus) ecall" where
  "EnclaveMaybeRefreshKey E =
     cbind (cget (\<lambda>g. (ew_env (g_world g), g_server g, g_key_rollover_interval g))) (\<lambda>(env, server, interval).
       if env = None then cthrow (Fault ''env is null'')
       else
         cbind (on_world (\<lambda>w. case system_clock_now w of (t, w') \<Rightarrow> (Inr t, w'))) (\<lambda>now.
           case server of
             None \<Rightarrow> cthrow (Fault ''confmsg_server is null'')
           | Some s \<Rightarrow>
               let sync_only = (now - Server_GetLastKeyRefresh s < interval * el_ticks_per_second E)
               in catch_all refresh_error_status
                    (cthen (on_confmsg_server (Server_RefreshKey (el_libs E) (provider_DoRefreshKey E) sync_only))
                       (cret SUCCESS))))"

definition EnclaveDestroy :: "('v, 'm, EnclaveCallStatus) ecall" where
  "EnclaveDestroy =
     cthen (cmodify (\<lambda>g. g\<lparr>g_server := None, g_world := (g_world g)\<lparr>ew_env := None\<rparr>\<rparr>)) (cret SUCCESS)"

section \<open>What a message may change of the world\<close>

lemma preserves_on_provider:
  fixes m :: "('c, 'w, 'a) kp_comp"
  assumes "preserves (\<lambda>(kp, w). I w) m"
  shows "preserves (\<lambda>(s, w). I w) (on_provider m)"
proof (rule preservesI)
  fix sw :: "'c server \<times> 'w world_scheme" assume i: "case sw of (s, w) \<Rightarrow> I w"
  obtain s w where sw: "sw = (s, w)" by (metis surj_pair)
  obtain r kp w' where "m (srv_key_provider s, w) = (r, (kp, w'))" by (metis surj_pair)
  with preservesD [OF assms, of "(srv_key_provider s, w)"] i sw
  show "case snd (on_provider m sw) of (s, w) \<Rightarrow> I w" by (simp add: on_provider_eq)
qed

lemma RefreshKey_world:
  assumes "\<And>so. preserves (\<lambda>(kp, w). I w) (D so)" and "\<And>w. I w \<Longrightarrow> I (snd (system_clock_now w))"
  shows "preserves (\<lambda>(s, w). I w) (Server_RefreshKey L D so)"
proof -
  have k: "preserves (\<lambda>(kp, w). I w) (KeyProvider_RefreshKey D so)"
    unfolding KeyProvider_RefreshKey_def
    by (intro preserves_cbind assms(1) preserves_if preserves_basic)
       (auto simp: preserves_def split_beta intro: assms(2))
  have p: "preserves (\<lambda>(s, w). I w) (on_provider (KeyProvider_RefreshKey D so))"
    by (rule preserves_on_provider [OF k])
  have m: "preserves (\<lambda>(s, w). I w) (Server_MakePublicKeys L)"
    by (auto simp: preserves_def Server_MakePublicKeys_def split: sum.splits prod.splits)
  have u: "preserves (\<lambda>(s, w). I w) (Server_UpdateEvidence L)"
    by (auto simp: preserves_def Server_UpdateEvidence_def cbind_def split: sum.splits prod.splits)
  show ?thesis
    unfolding Server_RefreshKey_def
    by (intro preserves_cbind p preserves_if preserves_cthen m u preserves_basic)
qed

lemma RespondToMessage_world:
  assumes D: "\<And>so. preserves (\<lambda>(kp, w). I w) (D so)" "\<And>w. I w \<Longrightarrow> I (snd (system_clock_now w))"
    and f: "\<And>d w. I w \<Longrightarrow> I (snd (f d w))"
  shows "preserves (\<lambda>(s, w). I w) (Server_RespondToMessage L D f msg n)"
proof -
  note r = RefreshKey_world [where I = I, OF D]
  have pure: "preserves (\<lambda>(s, w). I w) (\<lambda>(s, w). (h s w, (s, w)))" for h :: "'a server \<Rightarrow> 'b world_scheme \<Rightarrow> exn + 'z"
    by (auto simp: preserves_def)
  have call: "preserves (\<lambda>(s, w). I w) (\<lambda>(s, w). case f d w of (x, w') \<Rightarrow> (x, (s, w')))" for d
    by (auto simp: preserves_def split_beta intro: f)
  have sync: "preserves (\<lambda>(s, w). I w) (Server_SyncForClient L D v)" for v
    unfolding Server_SyncForClient_def
    by (intro preserves_cbind preserves_cthen preserves_if preserves_basic r)
  have req: "preserves (\<lambda>(s, w). I w) (Server_HandleRequest L D f q n)" for q
    unfolding Server_HandleRequest_def
    by (intro preserves_cthen sync preserves_cbind pure)
       (auto intro!: preserves_cbind pure call split: prod.splits)
  show ?thesis
    unfolding Server_RespondToMessage_def
    by (auto intro!: pure req split: option.splits Body.splits)
qed

lemma put_net_env [simp]: "ew_env (put_net n w) = ew_env w"
  by (simp add: put_net_def)

lemma system_clock_env [simp]: "ew_env (snd (system_clock_now w)) = ew_env w"
  by (simp add: system_clock_now_def)

lemma provider_keeps_env: "preserves (\<lambda>(kp, w). P (ew_env w)) (provider_DoRefreshKey E so)"
  by (auto simp: preserves_def provider_DoRefreshKey_def on_net_def RandomEd25519KeyProvider_DoRefreshKey_def
      Randomize_eq Let_def split: provider_state.splits prod.splits sum.splits)

lemma StaticKeyProvider_Create_eq:
  "StaticKeyProvider_Create pv cv key kt d w =
     (Inr ((StaticKeyProvider_new pv cv key kt d)\<lparr>initialized := True\<rparr>), w)"
  by (simp add: StaticKeyProvider_Create_def KeyProvider_Initialize_def KeyProvider_RefreshKey_def
      StaticKeyProvider_DoRefreshKey_def cthen_def cbind_def)

text \<open>The model of an environment that has one is not touched by any request.\<close>

definition has_model :: "('m, 'c) ServerEnvironment \<Rightarrow> bool" where
  "has_model env \<longleftrightarrow> env_model_output_names env \<noteq> []"

lemma HandleRequest_keeps_model:
  assumes "ew_env w = Some env" and "has_model env"
  shows "ew_env (snd (HandleRequest E rt data w)) = Some env"
  using assms
  by (auto simp: HandleRequest_def StaticKeyProvider_Create_eq has_model_def InitializeModel_provider_again)

lemma on_confmsg_server_world:
  assumes "preserves (\<lambda>(s, w). I w) m" and "I (g_world g)"
  shows "I (g_world (snd (on_confmsg_server m g)))"
proof (cases "g_server g")
  case (Some s)
  obtain r s' w' where "m (s, g_world g) = (r, (s', w'))" by (metis surj_pair)
  with Some preservesD [OF assms(1), of "(s, g_world g)"] assms(2) show ?thesis
    by (simp add: on_confmsg_server_def)
qed (simp add: on_confmsg_server_def assms(2))

lemma EnclaveHandleRequest_env:
  assumes "\<And>w d. P (ew_env w) \<Longrightarrow> P (ew_env (snd (HandleRequest E rt d w)))" and "P (ew_env (g_world g))"
  shows "P (ew_env (g_world (snd (EnclaveHandleRequest E rt msg n g))))"
proof -
  have "preserves (\<lambda>(s, w). P (ew_env w)) (Server_RespondToMessage (el_libs E) (provider_DoRefreshKey E)
          (HandleRequest E rt) msg n)"
    by (rule RespondToMessage_world [where I = "\<lambda>w. P (ew_env w)", OF provider_keeps_env]) (use assms(1) in simp_all)
  from on_confmsg_server_world [where I = "\<lambda>w. P (ew_env w)", OF this assms(2)] show ?thesis
    using assms(2)
    by (auto simp: EnclaveHandleRequest_def ccatch_def cbind_def split: prod.splits sum.splits if_splits)
qed

lemma EnclaveMaybeRefreshKey_env:
  "ew_env (g_world (snd (EnclaveMaybeRefreshKey E g))) = ew_env (g_world g)"
proof -
  let ?I = "\<lambda>w. ew_env w = ew_env (g_world g)"
  have r: "preserves (\<lambda>(s, w). ?I w) (Server_RefreshKey (el_libs E) (provider_DoRefreshKey E) so)" for so
    by (rule RefreshKey_world [where I = ?I, OF provider_keeps_env]) simp
  have o: "?I (g_world g1) \<Longrightarrow>
      ?I (g_world (snd (on_confmsg_server (Server_RefreshKey (el_libs E) (provider_DoRefreshKey E) so) g1)))" for so g1
    by (rule on_confmsg_server_world [where I = ?I, OF r])
  have c: "?I (g_world g1) \<Longrightarrow> ?I (g_world (snd (catch_all h (cthen
      (on_confmsg_server (Server_RefreshKey (el_libs E) (provider_DoRefreshKey E) so)) (cret SUCCESS)) g1)))" for so g1 h
    using o [of g1 so] by (auto simp: catch_all_def ccatch_def cthen_def cbind_def split: prod.splits sum.splits)
  obtain t w' where t: "system_clock_now (g_world g) = (t, w')" by (metis surj_pair)
  then have "?I w'" using system_clock_env [of "g_world g"] by simp
  with t show ?thesis
    by (auto simp: EnclaveMaybeRefreshKey_def cbind_def on_world_def czoom_def Let_def c split: option.split)
qed

lemma ccatch_Inr_iff:
  "ccatch m h s = (Inr x, s') \<longleftrightarrow> m s = (Inr x, s') \<or> (\<exists>e s1. m s = (Inl e, s1) \<and> h e s1 = (Inr x, s'))"
  by (auto simp: ccatch_def split: prod.splits sum.splits)

section \<open>Runs of the enclave\<close>

text \<open>The entry points with their arguments, and any sequence of calls, whatever each of them returns.\<close>

datatype enclave_call =
    Call_Initialize bytes u32 bool bool akv_params
  | Call_HandleRequest byte bytes nat
  | Call_MaybeRefreshKey
  | Call_Destroy

fun run_call :: "('v, 'j, 'm) enclave_libs \<Rightarrow> enclave_call \<Rightarrow> ('v, 'm) enclave_state \<Rightarrow> ('v, 'm) enclave_state" where
  "run_call E (Call_Initialize model secs prov akv a) g = snd (EnclaveInitialize E model secs prov akv a g)"
| "run_call E (Call_HandleRequest rt msg n) g = snd (EnclaveHandleRequest E rt msg n g)"
| "run_call E Call_MaybeRefreshKey g = snd (EnclaveMaybeRefreshKey E g)"
| "run_call E Call_Destroy g = snd (EnclaveDestroy g)"

definition enclave_calls :: "('v, 'j, 'm) enclave_libs \<Rightarrow> enclave_call list \<Rightarrow> ('v, 'm) enclave_state \<Rightarrow> ('v, 'm) enclave_state" where
  "enclave_calls E = fold (run_call E)"

definition is_Initialize :: "enclave_call \<Rightarrow> bool" where
  "is_Initialize call = (case call of Call_Initialize _ _ _ _ _ \<Rightarrow> True | _ \<Rightarrow> False)"

lemma EnclaveInitialize_again:
  assumes "ew_env (g_world g) \<noteq> None"
  shows "EnclaveInitialize E model secs prov akv a g
    = (Inr SESSION_ALREADY_INITIALIZED_ERROR, g\<lparr>g_key_rollover_interval := uint secs\<rparr>)"
  using assms
  by (simp add: EnclaveInitialize_def catch_all_def ccatch_def EnclaveInitialize_body_def)

lemma enclave_call_keeps_model:
  assumes "call \<noteq> Call_Destroy" and "ew_env (g_world g) = Some env" and "has_model env"
  shows "ew_env (g_world (run_call E call g)) = Some env"
proof (cases call)
  case (Call_Initialize model secs prov akv a)
  with assms(2) show ?thesis by (simp add: EnclaveInitialize_again)
next
  case (Call_HandleRequest rt msg n)
  with EnclaveHandleRequest_env [where P = "\<lambda>e. e = Some env" and g = g] HandleRequest_keeps_model assms(2,3) show ?thesis
    by (metis run_call.simps(2))
next
  case Call_MaybeRefreshKey
  with EnclaveMaybeRefreshKey_env [of E g] assms(2) show ?thesis by simp
qed (use assms(1) in simp)

text \<open>Without an environment, every call but an initialisation is a fault or has nothing to do.\<close>

lemma enclave_call_without_env:
  assumes "\<not> is_Initialize call" and "ew_env (g_world g) = None" and "g_server g = None"
  shows "ew_env (g_world (run_call E call g)) = None \<and> g_server (run_call E call g) = None"
  using assms
  by (cases call) (simp_all add: is_Initialize_def EnclaveHandleRequest_def EnclaveMaybeRefreshKey_def EnclaveDestroy_def)

text \<open>
  C17: once the enclave has a model with outputs, only \<^verbatim>\<open>EnclaveDestroy\<close> takes it away. In any sequence of calls without it, requests and
  provisioning attempts, key refreshes and further initialisations included, the model, its outputs and the key it was opened with stay as they are. After
  a call of \<^verbatim>\<open>EnclaveDestroy\<close> there is neither model nor protocol server, with whatever calls before and after it, until the
  enclave is initialised again.
\<close>

theorem model_cannot_be_replaced:
  assumes "ew_env (g_world g) = Some env" and "has_model env"
  shows "(Call_Destroy \<notin> set calls \<longrightarrow> ew_env (g_world (enclave_calls E calls g)) = Some env)
    \<and> (list_all (\<lambda>call. \<not> is_Initialize call) after \<longrightarrow>
         ew_env (g_world (enclave_calls E (calls @ Call_Destroy # after) g)) = None
       \<and> g_server (enclave_calls E (calls @ Call_Destroy # after) g) = None)"
proof (intro conjI impI)
  show "ew_env (g_world (enclave_calls E calls g)) = Some env" if "Call_Destroy \<notin> set calls"
    using that assms
  proof (induction calls arbitrary: g)
    case (Cons call calls)
    then have "ew_env (g_world (run_call E call g)) = Some env" by (intro enclave_call_keeps_model) auto
    with Cons show ?case by (simp add: enclave_calls_def)
  qed (simp add: enclave_calls_def)
next
  assume a: "list_all (\<lambda>call. \<not> is_Initialize call) after"
  have "ew_env (g_world (enclave_calls E after h)) = None \<and> g_server (enclave_calls E after h) = None"
    if "ew_env (g_world h) = None" "g_server h = None" for h
    using that a
  proof (induction after arbitrary: h)
    case (Cons call calls)
    with enclave_call_without_env [of call h E] show ?case by (simp add: enclave_calls_def)
  qed (simp add: enclave_calls_def)
  from this [of "run_call E Call_Destroy (enclave_calls E calls g)"]
  show "ew_env (g_world (enclave_calls E (calls @ Call_Destroy # after) g)) = None"
    "g_server (enclave_calls E (calls @ Call_Destroy # after) g) = None"
    by (simp_all add: enclave_calls_def EnclaveDestroy_def)
qed

section \<open>Key rollover in the enclave\<close>

lemma provider_DoRefreshKey_local:
  "kp_derived kp = LocalKP \<Longrightarrow> provider_DoRefreshKey E so (kp, w) = RandomEd25519KeyProvider_DoRefreshKey so (kp, w)"
  by (simp add: provider_DoRefreshKey_def)

lemma Server_RefreshKey_local:
  assumes "kp_derived (srv_key_provider s) = LocalKP"
  shows "Server_RefreshKey L (provider_DoRefreshKey E) so (s, w)
    = Server_RefreshKey L RandomEd25519KeyProvider_DoRefreshKey so (s, w)"
  using assms
  by (simp add: Server_RefreshKey_def cbind_def on_provider_eq KeyProvider_RefreshKey_def provider_DoRefreshKey_local)

lemma Server_RefreshKey_sync:
  "Server_RefreshKey L RandomEd25519KeyProvider_DoRefreshKey True (s, w) = (Inr False, (s, w))"
  by (simp add: Server_RefreshKey_def cbind_def on_provider_eq KeyProvider_RefreshKey_def
      RandomEd25519KeyProvider_DoRefreshKey_def)

text \<open>The clock of the world is one and the same however far it has been read.\<close>

lemma EnclaveMaybeRefreshKey_eq:
  assumes "ew_env (g_world g) \<noteq> None" and "g_server g = Some s"
    and "system_clock_now (g_world g) = (now, w1)"
  shows "EnclaveMaybeRefreshKey E g =
    catch_all refresh_error_status
      (cthen (on_confmsg_server (Server_RefreshKey (el_libs E) (provider_DoRefreshKey E)
          (now - Server_GetLastKeyRefresh s < g_key_rollover_interval g * el_ticks_per_second E))) (cret SUCCESS))
      (g\<lparr>g_world := w1\<rparr>)"
  using assms by (auto simp: EnclaveMaybeRefreshKey_def cbind_def on_world_def czoom_def Let_def)

text \<open>
  C25: with local key management \<^verbatim>\<open>EnclaveMaybeRefreshKey\<close> succeeds, and it rolls the key over exactly
  when the rollover interval has passed since the last refresh: before that the server is left as it is,
  from then on the version goes up by one and the old key becomes the previous one.
\<close>

theorem rollover_exactly_when_due:
  assumes env: "ew_env (g_world g) \<noteq> None" and s: "g_server g = Some s"
    and l: "kp_derived (srv_key_provider s) = LocalKP" and inv: "ed25519_inv (srv_key_provider s)"
    and C: "crypto_lengths (l_crypto (el_libs E))"
    and q: "\<And>h. \<exists>q. oe_get_report (l_oe (el_libs E)) h = Inr q"
    and now: "system_clock_now (g_world g) = (now, w1)"
  shows "\<exists>g' s'. EnclaveMaybeRefreshKey E g = (Inr SUCCESS, g') \<and> g_server g' = Some s'
    \<and> (if now - last_refreshed (srv_key_provider s) < g_key_rollover_interval g * el_ticks_per_second E
       then s' = s
       else current_key_version (srv_key_provider s') = current_key_version (srv_key_provider s) + 1
          \<and> previous_key (srv_key_provider s') = current_key (srv_key_provider s)
          \<and> previous_key_version (srv_key_provider s') = current_key_version (srv_key_provider s))"
proof (cases "now - last_refreshed (srv_key_provider s) < g_key_rollover_interval g * el_ticks_per_second E")
  case True
  then show ?thesis
    by (simp add: EnclaveMaybeRefreshKey_eq [OF env s now] Server_GetLastKeyRefresh_def catch_all_def ccatch_def
        cthen_def cbind_def on_confmsg_server_def s Server_RefreshKey_local [OF l] Server_RefreshKey_sync)
next
  case False
  obtain s' w' where r: "Server_RefreshKey (el_libs E) RandomEd25519KeyProvider_DoRefreshKey False (s, w1) = (Inr True, (s', w'))"
    using Server_RefreshKey_ed25519_succeeds [OF C inv q] by blast
  with False Server_RefreshKey_ed25519 [OF inv r] show ?thesis
    by (simp add: EnclaveMaybeRefreshKey_eq [OF env s now] Server_GetLastKeyRefresh_def catch_all_def ccatch_def
        cthen_def cbind_def on_confmsg_server_def s Server_RefreshKey_local [OF l])
qed

section \<open>Initialisation\<close>

definition env_server_are ::
    "('m, provider_state) ServerEnvironment option \<Rightarrow> provider_state server option \<Rightarrow> ('v, 'm) enclave_state \<Rightarrow> bool" where
  "env_server_are e s g \<longleftrightarrow> ew_env (g_world g) = e \<and> g_server g = s"

lemma on_world_keeps:
  "(\<And>w. ew_env (snd (f w)) = ew_env w) \<Longrightarrow> preserves (env_server_are e s) (on_world f)"
  by (auto simp: preserves_def env_server_are_def on_world_def czoom_def split: prod.splits) (metis snd_conv)+

lemma create_providers_keep:
  "preserves (env_server_are e s) (create_model_key_provider E akv a)"
  "preserves (env_server_are e s) (create_key_provider E akv a)"
proof -
  have v: "preserves (env_server_are e s) (create_vault_provider E kvc)"
    "preserves (env_server_are e s) (create_hsm_provider E kvc)" for kvc
    unfolding create_vault_provider_def create_hsm_provider_def
    by (intro on_world_keeps preserves_if preserves_basic; simp split: prod.split)+
  have r: "preserves (env_server_are e s) (on_world (RandomEd25519KeyProvider_Create pv cv d))" for pv cv d
    by (rule on_world_keeps)
       (auto simp: RandomEd25519KeyProvider_Create_def KeyProvider_Initialize_def KeyProvider_RefreshKey_def
         RandomEd25519KeyProvider_DoRefreshKey_def cthen_def cbind_def Randomize_eq system_clock_now_def Let_def
         split: prod.splits sum.splits)
  show "preserves (env_server_are e s) (create_model_key_provider E akv a)"
    unfolding create_model_key_provider_def by (intro preserves_if preserves_cbind v preserves_basic)
  show "preserves (env_server_are e s) (create_key_provider E akv a)"
    unfolding create_key_provider_def Let_def
    by (intro preserves_if preserves_cbind preserves_ccatch v r preserves_basic)
qed

lemma on_model_error_Inr: "on_model_error e g = (Inr st, g') \<Longrightarrow> st = MODEL_LOADING_ERROR"
  by (cases e) auto

lemma start_server_status:
  assumes "start_server E model prov sid kp g = (Inr st, g')"
  shows "st = SUCCESS \<or> st = MODEL_LOADING_ERROR"
proof -
  obtain sv g1 where "(if prov then cthen (with_env (SetEncryptedModel model)) (cret SUCCESS)
      else ccatch (cthen (with_env (InitializeModel (l_crypto (el_libs E)) (el_ort E) model)) (cret SUCCESS))
        on_model_error) (g1\<lparr>g_server := Some sv\<rparr>) = (Inr st, g')"
    using assms by (auto simp: start_server_def cbind_Inr_iff)
  then show ?thesis
    by (auto simp: cthen_Inr_iff ccatch_Inr_iff split: if_splits dest: on_model_error_Inr)
qed

lemma EnclaveInitialize_body_key_error:
  assumes "g_server g = None" and "EnclaveInitialize_body E model prov akv a g = (Inr KEY_REFRESH_ERROR, g')"
  shows "ew_env (g_world g') \<noteq> None \<and> g_server g' = None"
proof -
  have e: "ew_env (g_world g) = None"
    using assms(2) by (auto simp: EnclaveInitialize_body_def split: if_splits)
  with assms(2) obtain sid mkp g1 kp g3 where
    1: "create_model_key_provider E akv a g = (Inr mkp, g1)"
    and 3: "create_key_provider E akv a (g1\<lparr>g_world := (g_world g1)\<lparr>ew_env := Some (ServerEnvironment_new
        (if el_debug E then ORT_LOGGING_LEVEL_VERBOSE else ORT_LOGGING_LEVEL_FATAL) mkp)\<rparr>\<rparr>) = (Inr kp, g3)"
    and k: "(case kp of None \<Rightarrow> cret KEY_REFRESH_ERROR | Some kp \<Rightarrow> start_server E model prov sid kp) g3
       = (Inr KEY_REFRESH_ERROR, g')"
    by (auto simp: EnclaveInitialize_body_def cbind_Inr_iff cthen_Inr_iff Let_def)
  have g1: "env_server_are None None g1"
    using preservesD [OF create_providers_keep(1), of None None g E akv a] 1 e assms(1)
    by (simp add: env_server_are_def)
  have "\<exists>e0. env_server_are (Some e0) None g3"
    using preservesD [OF create_providers_keep(2)] 3 g1 unfolding env_server_are_def
    by (metis (no_types, lifting) enclave_state.select_convs(1,3) enclave_state.surjective enclave_state.update_convs(3)
        enclave_world.select_convs(1) enclave_world.surjective enclave_world.update_convs(1) snd_conv)
  moreover have "kp = None"
    using k start_server_status by (cases kp) fastforce+
  ultimately show ?thesis using k by (auto simp: env_server_are_def)
qed

text \<open>
  An initialisation that fails on the service key cannot be repeated: it leaves the environment
  behind without a protocol server, so that every further initialisation reports that the session is
  already initialised, and every request and every key refresh uses a null pointer.
\<close>

theorem failed_initialization_sticks:
  assumes "g_server g = None" and "EnclaveInitialize E model secs prov akv a g = (Inr KEY_REFRESH_ERROR, g')"
  shows "EnclaveInitialize E model' secs' prov' akv' a' g'
      = (Inr SESSION_ALREADY_INITIALIZED_ERROR, g'\<lparr>g_key_rollover_interval := uint secs'\<rparr>)
    \<and> EnclaveHandleRequest E rt msg n g' = (Inl (Fault ''confmsg_server is null''), g')
    \<and> fst (EnclaveMaybeRefreshKey E g') = Inl (Fault ''confmsg_server is null'')"
proof -
  have "ew_env (g_world g') \<noteq> None \<and> g_server g' = None"
    using assms
    by (auto simp: EnclaveInitialize_def catch_all_def ccatch_def split: prod.splits sum.splits if_splits
        dest!: EnclaveInitialize_body_key_error [rotated])
  then show ?thesis
    by (auto simp: EnclaveInitialize_again EnclaveHandleRequest_def EnclaveMaybeRefreshKey_def cbind_def ccatch_def
        on_confmsg_server_def on_world_def czoom_def split: prod.splits)
qed

end
