(* ===== verification/Host_Enclave.thy ===== *)
theory Host_Enclave
  imports Enclave Host_Http
begin

text \<open>
  The host's handle on the enclave: \<^verbatim>\<open>host/enclave.cc\<close>, \<^verbatim>\<open>host/enclave_error.cc\<close> and the timer
  of its refresh thread, \<^verbatim>\<open>host/cancellable_timer.h\<close>. The Open Enclave SDK is a parameter: whether it
  creates an enclave, whether it lets a call in, and the texts of its results. A call in which the enclave faults
  aborts the enclave, and an aborted enclave takes no more calls.
\<close>

section \<open>Results of the SDK and of the enclave\<close>

text \<open>\<^verbatim>\<open>oe_result_t\<close>: every result but one is an error, with its number.\<close>

datatype oe_result = OE_OK | OE_error nat

record oe_host_lib =
  oe_result_str :: "oe_result \<Rightarrow> string"
  oe_create_server_enclave :: "string \<Rightarrow> 32 word \<Rightarrow> oe_result"
  oe_enter :: "nat \<Rightarrow> oe_result"
  oe_terminate_enclave :: oe_result
  OE_ENCLAVE_ABORTING :: nat

definition EnclaveSDKError_Check :: "oe_host_lib \<Rightarrow> oe_result \<Rightarrow> exn + unit" where
  "EnclaveSDKError_Check O1 result =
     (if result \<noteq> OE_OK then Inl (EnclaveSDKError (oe_result_str O1 result)) else Inr ())"

definition EnclaveCallError_Check :: "int \<Rightarrow> exn + unit" where
  "EnclaveCallError_Check status = (if status \<noteq> 0 then Inl (EnclaveCallError status) else Inr ())"

section \<open>Reading the model file\<close>

text \<open>
  A file stream: which of its operations leave it good, the position of its end and its contents. The
  text of the error is that of \<^verbatim>\<open>errno\<close>.
\<close>

record ifstream_lib =
  fs_open :: "string \<Rightarrow> bool"
  fs_seek_end :: "string \<Rightarrow> bool"
  fs_tellg :: "string \<Rightarrow> nat option"
  fs_seek_beg :: "string \<Rightarrow> bool"
  fs_contents :: "string \<Rightarrow> bytes"
  fs_strerror :: "string \<Rightarrow> string"

definition CheckError :: "ifstream_lib \<Rightarrow> string \<Rightarrow> bool \<Rightarrow> exn + unit" where
  "CheckError F path good = (if \<not> good then Inl (RuntimeError (fs_strerror F path)) else Inr ())"

text \<open>A failed \<^verbatim>\<open>tellg\<close> leaves the stream bad; \<^verbatim>\<open>read\<close> does when the file ends before \<open>size\<close> bytes.\<close>

definition ReadFile :: "ifstream_lib \<Rightarrow> string \<Rightarrow> exn + bytes" where
  "ReadFile F path =
     rbind (CheckError F path (fs_open F path)) (\<lambda>_.
     rbind (CheckError F path (fs_seek_end F path)) (\<lambda>_.
     rbind (CheckError F path (fs_tellg F path \<noteq> None)) (\<lambda>_.
     let size = the (fs_tellg F path)
     in if size \<ge> 2 ^ 63 then Inl (OtherStdException ''length_error'')
        else
          rbind (CheckError F path (fs_seek_beg F path)) (\<lambda>_.
          rbind (CheckError F path (size \<le> length (fs_contents F path))) (\<lambda>_.
          Inr (take size (fs_contents F path)))))))"

section \<open>The enclave object\<close>

text \<open>
  The members of \<^verbatim>\<open>Enclave\<close>, with the enclave behind its handle, the number of calls made so far, and
  what the refresh thread does at the moment.
\<close>

datatype refresh_thread =
    Thread_none
  | Thread_created
  | Thread_waiting int
  | Thread_refreshing
  | Thread_stopped
  | Thread_terminated

record ('v, 'm) HostEnclave =
  en_enclave :: "('v, 'm) enclave_state"
  en_aborted :: bool
  en_calls :: nat
  en_key_refresh_thread :: refresh_thread
  en_timer_cancelled :: bool
  en_key_rollover_interval :: int
  en_key_sync_interval :: int
  en_key_error_retry_interval :: int
  en_service_kvc :: KeyVaultConfig
  en_model_kvc :: KeyVaultConfig
  en_use_model_key_provisioning :: bool

type_synonym ('v, 'm, 'a) host_comp = "(('v, 'm) HostEnclave, exn, 'a) comp"

definition OE_ENCLAVE_FLAG_DEBUG :: "32 word" where "OE_ENCLAVE_FLAG_DEBUG = 1"
definition OE_ENCLAVE_FLAG_SIMULATE :: "32 word" where "OE_ENCLAVE_FLAG_SIMULATE = 2"

unbundle bit_operations_syntax

text \<open>The new enclave has its globals in the state \<open>g0\<close>.\<close>

definition Enclave_new ::
    "oe_host_lib \<Rightarrow> ('v, 'm) enclave_state \<Rightarrow> string \<Rightarrow> bool \<Rightarrow> bool \<Rightarrow> KeyVaultConfig \<Rightarrow> KeyVaultConfig \<Rightarrow> bool
       \<Rightarrow> int \<Rightarrow> int \<Rightarrow> int \<Rightarrow> exn + ('v, 'm) HostEnclave" where
  "Enclave_new O1 g0 enclave_path debug simulate service_kvc model_kvc use_model_key_provisioning
       key_rollover_interval key_sync_interval key_error_retry_interval =
     (let enclave_flags = 0;
          enclave_flags = (if debug then enclave_flags OR OE_ENCLAVE_FLAG_DEBUG else enclave_flags);
          enclave_flags = (if simulate then enclave_flags OR OE_ENCLAVE_FLAG_SIMULATE else enclave_flags)
      in rbind (EnclaveSDKError_Check O1 (oe_create_server_enclave O1 enclave_path enclave_flags)) (\<lambda>_.
         Inr \<lparr>en_enclave = g0, en_aborted = False, en_calls = 0, en_key_refresh_thread = Thread_none,
              en_timer_cancelled = False, en_key_rollover_interval = key_rollover_interval,
              en_key_sync_interval = key_sync_interval, en_key_error_retry_interval = key_error_retry_interval,
              en_service_kvc = service_kvc, en_model_kvc = model_kvc,
              en_use_model_key_provisioning = use_model_key_provisioning\<rparr>))"

text \<open>
  An ecall: the result of the SDK and, if that is \<^verbatim>\<open>OE_OK\<close>, what the entry point returned. A fault in the enclave, undefined behaviour
  such as the use of a null pointer, is taken as a hardware exception that the enclave does not handle: the SDK aborts the enclave, and
  this and every later ecall reports so.
\<close>

definition oe_ecall :: "oe_host_lib \<Rightarrow> ('v, 'm, 'a) ecall \<Rightarrow> ('v, 'm, oe_result \<times> 'a option) host_comp" where
  "oe_ecall O1 m = (\<lambda>h0.
     let h = h0\<lparr>en_calls := en_calls h0 + 1\<rparr>
     in if en_aborted h then (Inr (OE_error (OE_ENCLAVE_ABORTING O1), None), h)
        else if oe_enter O1 (en_calls h0) \<noteq> OE_OK then (Inr (oe_enter O1 (en_calls h0), None), h)
        else (case m (en_enclave h) of
                (Inr a, g) \<Rightarrow> (Inr (OE_OK, Some a), h\<lparr>en_enclave := g\<rparr>)
              | (Inl _, g) \<Rightarrow> (Inr (OE_error (OE_ENCLAVE_ABORTING O1), None), h\<lparr>en_enclave := g, en_aborted := True\<rparr>)))"

text \<open>\<^verbatim>\<open>EnclaveSDKError::Check\<close> around a call; the output parameters are set when it passes.\<close>

definition checked_ecall :: "oe_host_lib \<Rightarrow> ('v, 'm, 'a) ecall \<Rightarrow> ('v, 'm, 'a) host_comp" where
  "checked_ecall O1 m =
     cbind (oe_ecall O1 m) (\<lambda>(result, a).
     cthen (clift (EnclaveSDKError_Check O1 result))
       (case a of Some x \<Rightarrow> cret x | None \<Rightarrow> cthrow (Fault ''output parameters not set'')))"

definition StartPeriodicKeyRefreshBackgroundThread :: "('v, 'm, unit) host_comp" where
  "StartPeriodicKeyRefreshBackgroundThread = cmodify (\<lambda>h. h\<lparr>en_key_refresh_thread := Thread_created\<rparr>)"

definition Enclave_Initialize ::
    "oe_host_lib \<Rightarrow> ifstream_lib \<Rightarrow> ('v, 'j, 'm) enclave_libs \<Rightarrow> string \<Rightarrow> ('v, 'm, unit) host_comp" where
  "Enclave_Initialize O1 F E model_path =
     cbind (clift (ReadFile F model_path)) (\<lambda>model.
     cbind (cget (\<lambda>h. h)) (\<lambda>h.
     cbind (checked_ecall O1
              (EnclaveInitialize E model (word_of_int (en_key_rollover_interval h)) (en_use_model_key_provisioning h)
                 (kvc_url (en_service_kvc h) \<noteq> [])
                 \<lparr>akv_app_id = kvc_app_id (en_service_kvc h), akv_app_pwd = kvc_app_pwd (en_service_kvc h),
                  akv_vault_url = kvc_url (en_service_kvc h), akv_service_key_name = kvc_key_name (en_service_kvc h),
                  akv_model_key_name = kvc_key_name (en_model_kvc h),
                  akv_attestation_url = kvc_attestation_url (en_service_kvc h)\<rparr>)) (\<lambda>status.
     cthen (clift (EnclaveCallError_Check (status_code status)))
       StartPeriodicKeyRefreshBackgroundThread)))"

definition MAX_OUTPUT_SIZE :: nat where "MAX_OUTPUT_SIZE = 1024 * 1024 * 10"

text \<open>An output buffer is there exactly when the status is zero.\<close>

definition Enclave_HandleRequest ::
    "oe_host_lib \<Rightarrow> ('v, 'j, 'm) enclave_libs \<Rightarrow> string \<Rightarrow> byte \<Rightarrow> bytes \<Rightarrow> ('v, 'm, bytes) host_comp" where
  "Enclave_HandleRequest O1 E request_id request_type input =
     cbind (checked_ecall O1 (EnclaveHandleRequest E request_type input MAX_OUTPUT_SIZE)) (\<lambda>(status, out).
     cthen (clift (EnclaveCallError_Check (status_code status)))
       (case out of Some b \<Rightarrow> cret b | None \<Rightarrow> cthrow (Fault ''output buffer not set'')))"

section \<open>The refresh thread\<close>

text \<open>
  \<^verbatim>\<open>CancellableTimer::wait_for\<close> throws when the timer has been cancelled before; otherwise the
  thread waits.
\<close>

definition wait_for :: "bool \<Rightarrow> int \<Rightarrow> exn + refresh_thread" where
  "wait_for cancelled duration =
     (if cancelled then Inl (LogicError ''timer already cancelled'') else Inr (Thread_waiting duration))"

definition cancel :: "('v, 'm) HostEnclave \<Rightarrow> ('v, 'm) HostEnclave" where
  "cancel h = h\<lparr>en_timer_cancelled := True\<rparr>"

text \<open>The predicate of the condition variable; the wait also ends when its time is up by the steady clock.\<close>

definition wait_over :: "bool \<Rightarrow> int \<Rightarrow> int \<Rightarrow> int \<Rightarrow> bool" where
  "wait_over cancelled start_time now duration \<longleftrightarrow>
     (if cancelled then True else let actual_duration = now - start_time; spurious_wakeup = actual_duration < duration
      in \<not> spurious_wakeup)"

text \<open>
  The thread function in three parts: up to the first wait, from a wait to the next call, and the
  body of the loop. An exception that leaves the function ends the process.
\<close>

definition thread_begin :: "('v, 'm) HostEnclave \<Rightarrow> refresh_thread" where
  "thread_begin h = (case wait_for (en_timer_cancelled h) (en_key_sync_interval h) of
       Inl _ \<Rightarrow> Thread_terminated | Inr t \<Rightarrow> t)"

definition thread_wake :: "('v, 'm) HostEnclave \<Rightarrow> refresh_thread" where
  "thread_wake h = (if \<not> en_timer_cancelled h then Thread_refreshing else Thread_stopped)"

text \<open>All four handlers log and wait for the retry interval.\<close>

definition refresh_once ::
    "oe_host_lib \<Rightarrow> ('v, 'j, 'm) enclave_libs \<Rightarrow> ('v, 'm, refresh_thread) host_comp" where
  "refresh_once O1 E =
     ccatch
       (cbind (checked_ecall O1 (EnclaveMaybeRefreshKey E)) (\<lambda>status.
        cthen (clift (EnclaveCallError_Check (status_code status)))
        (cbind (cget (\<lambda>h. h)) (\<lambda>h. clift (wait_for (en_timer_cancelled h) (en_key_sync_interval h))))))
       (\<lambda>_. cbind (cget (\<lambda>h. h)) (\<lambda>h. clift (wait_for (en_timer_cancelled h) (en_key_error_retry_interval h))))"

definition set_thread :: "refresh_thread \<Rightarrow> ('v, 'm) HostEnclave \<Rightarrow> ('v, 'm) HostEnclave" where
  "set_thread t h = h\<lparr>en_key_refresh_thread := t\<rparr>"

text \<open>
  What may happen to a started enclave object: the thread moves on, requests come in between, and the
  destructor cancels the timer. The call of the thread and the moves after it are two steps, so that a cancellation
  can come while the call runs.
\<close>

inductive host_step ::
    "oe_host_lib \<Rightarrow> ('v, 'j, 'm) enclave_libs \<Rightarrow> ('v, 'm) HostEnclave \<Rightarrow> ('v, 'm) HostEnclave \<Rightarrow> bool"
  for O1 :: oe_host_lib and E :: "('v, 'j, 'm) enclave_libs" where
  step_begin: "en_key_refresh_thread h = Thread_created \<Longrightarrow> host_step O1 E h (set_thread (thread_begin h) h)"
| step_wake: "en_key_refresh_thread h = Thread_waiting d \<Longrightarrow> timed_out \<or> wait_over (en_timer_cancelled h) start_time now d \<Longrightarrow>
    host_step O1 E h (set_thread (thread_wake h) h)"
| step_refresh: "en_key_refresh_thread h = Thread_refreshing \<Longrightarrow> refresh_once O1 E h = (r, h') \<Longrightarrow>
    host_step O1 E h (set_thread (case r of Inl _ \<Rightarrow> Thread_terminated | Inr t \<Rightarrow> t) h')"
| step_request: "Enclave_HandleRequest O1 E request_id request_type input h = (r, h') \<Longrightarrow> host_step O1 E h h'"
| step_cancel: "host_step O1 E h (cancel h)"

text \<open>
  \<^verbatim>\<open>~Enclave\<close> after the thread has ended. It does not look at the status of \<^verbatim>\<open>EnclaveDestroy\<close>.
\<close>

definition Enclave_destroy :: "oe_host_lib \<Rightarrow> ('v, 'm, unit) host_comp" where
  "Enclave_destroy O1 =
     cthen (cmodify cancel)
     (cbind (checked_ecall O1 EnclaveDestroy) (\<lambda>_.
      clift (EnclaveSDKError_Check O1 (oe_terminate_enclave O1))))"

inductive_cases host_stepE: "host_step O1 E h h'"

lemma en_simps [simp]:
  "en_key_refresh_thread (set_thread t h) = t" "en_timer_cancelled (set_thread t h) = en_timer_cancelled h"
  "en_aborted (set_thread t h) = en_aborted h" "en_enclave (set_thread t h) = en_enclave h"
  "en_key_refresh_thread (cancel h) = en_key_refresh_thread h" "en_timer_cancelled (cancel h)"
  "en_aborted (cancel h) = en_aborted h" "en_enclave (cancel h) = en_enclave h"
  by (simp_all add: set_thread_def cancel_def)

section \<open>Calls leave the thread and the timer alone\<close>

text \<open>What a call of the enclave may change: the enclave, whether it is aborted, and the count of calls.\<close>

definition same_members :: "('v, 'm) HostEnclave \<Rightarrow> ('v, 'm) HostEnclave \<Rightarrow> bool" where
  "same_members h h' \<longleftrightarrow>
     h' = h\<lparr>en_enclave := en_enclave h', en_aborted := en_aborted h', en_calls := en_calls h'\<rparr>"

lemma same_members_refl [simp]: "same_members h h" by (simp add: same_members_def)

lemma same_members_upd [simp]:
  "same_members h (h\<lparr>en_calls := n\<rparr>)" "same_members h (h\<lparr>en_calls := n, en_enclave := g\<rparr>)"
  "same_members h (h\<lparr>en_calls := n, en_enclave := g, en_aborted := b\<rparr>)"
  by (simp_all add: same_members_def)

lemma same_members_thread:
  assumes "same_members h h'"
  shows "en_key_refresh_thread h' = en_key_refresh_thread h" "en_timer_cancelled h' = en_timer_cancelled h"
    "en_key_sync_interval h' = en_key_sync_interval h"
    "en_key_error_retry_interval h' = en_key_error_retry_interval h"
  by (subst assms [unfolded same_members_def], simp)+

lemma oe_ecall_members: "oe_ecall O1 m h = (r, h') \<Longrightarrow> same_members h h'"
  by (auto simp: oe_ecall_def Let_def split: if_splits prod.splits sum.splits)

lemma checked_ecall_members: "checked_ecall O1 m h = (r, h') \<Longrightarrow> same_members h h'"
  using oe_ecall_members [of O1 m h]
  by (auto simp: checked_ecall_def cbind_def cthen_def clift_def cret_def cthrow_def
      split: prod.splits sum.splits option.splits)

lemma Enclave_HandleRequest_members:
  "Enclave_HandleRequest O1 E i rt input h = (r, h') \<Longrightarrow> same_members h h'"
  using checked_ecall_members [of O1 "EnclaveHandleRequest E rt input MAX_OUTPUT_SIZE" h]
  by (auto simp: Enclave_HandleRequest_def cbind_def cthen_def clift_def cret_def cthrow_def
      split: prod.splits sum.splits option.splits)

text \<open>The outcome of a refresh depends on the enclave only in which interval the thread waits for.\<close>

lemma refresh_once_cases:
  assumes "refresh_once O1 E h = (r, h')"
  shows "same_members h h'
    \<and> (if en_timer_cancelled h then r = Inl (LogicError ''timer already cancelled'')
       else r = Inr (Thread_waiting (en_key_sync_interval h)) \<or> r = Inr (Thread_waiting (en_key_error_retry_interval h)))"
proof -
  obtain x h1 where c: "checked_ecall O1 (EnclaveMaybeRefreshKey E) h = (x, h1)" by (metis surj_pair)
  note m = checked_ecall_members [OF c] and t = same_members_thread [OF checked_ecall_members [OF c]]
  have "h' = h1"
    using assms c by (auto simp: refresh_once_def ccatch_def cbind_def cthen_def clift_def cget_def wait_for_def
        EnclaveCallError_Check_def split: sum.splits if_splits)
  with m t assms c show ?thesis
    by (auto simp: refresh_once_def ccatch_def cbind_def cthen_def clift_def cget_def wait_for_def
        EnclaveCallError_Check_def split: sum.splits if_splits)
qed

section \<open>Life and death of the refresh thread\<close>

fun thread_alive :: "refresh_thread \<Rightarrow> bool" where
  "thread_alive Thread_created = True"
| "thread_alive (Thread_waiting _) = True"
| "thread_alive Thread_refreshing = True"
| "thread_alive _ = False"

text \<open>How a thread ends that is where it is when the timer is cancelled.\<close>

fun shutdown_end :: "refresh_thread \<Rightarrow> refresh_thread" where
  "shutdown_end Thread_created = Thread_terminated"
| "shutdown_end (Thread_waiting _) = Thread_stopped"
| "shutdown_end Thread_refreshing = Thread_terminated"
| "shutdown_end t = t"

lemma host_step_cancelled:
  assumes "host_step O1 E h h'"
  shows "(en_timer_cancelled h \<longrightarrow> en_timer_cancelled h')
    \<and> (en_timer_cancelled h \<longrightarrow> en_key_refresh_thread h' \<in> {en_key_refresh_thread h, shutdown_end (en_key_refresh_thread h)})
    \<and> (\<not> en_timer_cancelled h' \<longrightarrow> thread_alive (en_key_refresh_thread h) \<longrightarrow> thread_alive (en_key_refresh_thread h'))"
  using assms
proof cases
  case step_begin
  then show ?thesis by (auto simp: thread_begin_def wait_for_def)
next
  case (step_wake d)
  then show ?thesis by (auto simp: thread_wake_def)
next
  case (step_refresh r h1)
  with refresh_once_cases [OF step_refresh(3)] show ?thesis
    by (auto simp: same_members_thread split: if_splits)
next
  case (step_request i rt input r)
  with same_members_thread [OF Enclave_HandleRequest_members [OF step_request]] show ?thesis by simp
next
  case step_cancel
  then show ?thesis by simp
qed

lemma shutdown_end_idem [simp]: "shutdown_end (shutdown_end t) = shutdown_end t"
  by (cases t) auto

lemma host_steps_cancelled:
  assumes "(host_step O1 E)\<^sup>*\<^sup>* h h'"
  shows "(en_timer_cancelled h \<longrightarrow> en_timer_cancelled h')
    \<and> (en_timer_cancelled h \<longrightarrow> en_key_refresh_thread h' \<in> {en_key_refresh_thread h, shutdown_end (en_key_refresh_thread h)})
    \<and> (\<not> en_timer_cancelled h' \<longrightarrow> thread_alive (en_key_refresh_thread h) \<longrightarrow> thread_alive (en_key_refresh_thread h'))"
  using assms
proof induction
  case (step h1 h2)
  with host_step_cancelled [OF step(2)] show ?case by auto
qed simp

text \<open>Whatever the state, a live thread can move on.\<close>

lemma thread_moves:
  assumes "thread_alive (en_key_refresh_thread h)"
  shows "\<exists>h'. host_step O1 E h h' \<and> en_key_refresh_thread h' \<noteq> en_key_refresh_thread h
    \<and> en_timer_cancelled h' = en_timer_cancelled h"
proof (cases "en_key_refresh_thread h")
  case Thread_created
  with step_begin [OF Thread_created, of O1 E] show ?thesis
    by (intro exI [of _ "set_thread (thread_begin h) h"]) (simp add: thread_begin_def wait_for_def)
next
  case (Thread_waiting d)
  with step_wake [where timed_out = True and ?O1.0 = O1 and E = E, OF Thread_waiting] show ?thesis
    by (intro exI [of _ "set_thread (thread_wake h) h"]) (simp add: thread_wake_def)
next
  case Thread_refreshing
  obtain r h1 where r: "refresh_once O1 E h = (r, h1)" by (metis surj_pair)
  from refresh_once_cases [OF r] Thread_refreshing step_refresh [OF Thread_refreshing r] show ?thesis
    by (intro exI [of _ "set_thread (case r of Inl _ \<Rightarrow> Thread_terminated | Inr t \<Rightarrow> t) h1"])
       (auto simp: same_members_thread split: if_splits)
qed (use assms in simp_all)

text \<open>
  C31: no failure of the enclave or of the SDK ends the refresh thread: as long as the timer is not
  cancelled it is alive, whatever steps and requests come, and it can take its next step.
\<close>

theorem refresh_thread_survives_errors:
  assumes "(host_step O1 E)\<^sup>*\<^sup>* h h'" and "thread_alive (en_key_refresh_thread h)" and "\<not> en_timer_cancelled h'"
  shows "thread_alive (en_key_refresh_thread h')
    \<and> (\<exists>h''. host_step O1 E h' h'' \<and> en_key_refresh_thread h'' \<noteq> en_key_refresh_thread h'
         \<and> thread_alive (en_key_refresh_thread h''))"
proof -
  have a: "thread_alive (en_key_refresh_thread h')" using host_steps_cancelled [OF assms(1)] assms(2,3) by simp
  then obtain h'' where s: "host_step O1 E h' h''" "en_key_refresh_thread h'' \<noteq> en_key_refresh_thread h'"
    "en_timer_cancelled h'' = en_timer_cancelled h'" using thread_moves by metis
  with a assms(3) host_step_cancelled [OF s(1)] show ?thesis by auto
qed

text \<open>
  C32: a cancelled timer stops the thread cleanly only if the thread was waiting at that moment: it then
  leaves its loop at the next step. If it had not reached its first wait, or was in a call of the
  enclave, the next call of \<^verbatim>\<open>wait_for\<close> throws, in the second case also inside the handler, and
  the process is terminated.
\<close>

theorem cancellation_needs_a_waiting_thread:
  assumes "(host_step O1 E)\<^sup>*\<^sup>* (cancel h) h'"
  shows "en_key_refresh_thread h' \<in> {en_key_refresh_thread h, shutdown_end (en_key_refresh_thread h)}
    \<and> (thread_alive (en_key_refresh_thread h) \<longrightarrow>
         (\<exists>h''. (host_step O1 E)\<^sup>*\<^sup>* h' h'' \<and> en_key_refresh_thread h'' = shutdown_end (en_key_refresh_thread h)))"
proof -
  let ?t = "en_key_refresh_thread h"
  note s = host_steps_cancelled [OF assms]
  then have t: "en_key_refresh_thread h' \<in> {?t, shutdown_end ?t}" and c: "en_timer_cancelled h'" by simp_all
  have "\<exists>h''. (host_step O1 E)\<^sup>*\<^sup>* h' h'' \<and> en_key_refresh_thread h'' = shutdown_end ?t" if alive: "thread_alive ?t"
  proof (cases "en_key_refresh_thread h' = ?t")
    case True
    obtain h'' where "host_step O1 E h' h''" "en_key_refresh_thread h'' \<noteq> en_key_refresh_thread h'"
      using thread_moves [of h'] alive True by metis
    with True c host_step_cancelled show ?thesis by (metis insertE r_into_rtranclp singletonD)
  qed (use t in auto)
  with t show ?thesis by blast
qed

section \<open>An aborted enclave\<close>

lemma checked_ecall_aborted:
  assumes "en_aborted h"
  shows "checked_ecall O1 m h
    = (Inl (EnclaveSDKError (oe_result_str O1 (OE_error (OE_ENCLAVE_ABORTING O1)))), h\<lparr>en_calls := en_calls h + 1\<rparr>)"
  using assms
  by (simp add: checked_ecall_def oe_ecall_def cbind_def cthen_def clift_def EnclaveSDKError_Check_def)

lemma checked_ecall_fault:
  assumes "\<not> en_aborted h" and "oe_enter O1 (en_calls h) = OE_OK"
    and "m (en_enclave h) = (Inl e, g)"
  shows "checked_ecall O1 m h
    = (Inl (EnclaveSDKError (oe_result_str O1 (OE_error (OE_ENCLAVE_ABORTING O1)))),
       h\<lparr>en_calls := en_calls h + 1, en_enclave := g, en_aborted := True\<rparr>)"
  using assms
  by (simp add: checked_ecall_def oe_ecall_def cbind_def cthen_def clift_def EnclaveSDKError_Check_def)

lemma checked_ecall_ok:
  assumes "\<not> en_aborted h" and "oe_enter O1 (en_calls h) = OE_OK" and "m (en_enclave h) = (Inr a, g)"
  shows "checked_ecall O1 m h = (Inr a, h\<lparr>en_calls := en_calls h + 1, en_enclave := g\<rparr>)"
  using assms
  by (simp add: checked_ecall_def oe_ecall_def cbind_def cthen_def clift_def cret_def EnclaveSDKError_Check_def)

lemma en_aborted_sticks: "host_step O1 E h h' \<Longrightarrow> en_aborted h \<Longrightarrow> en_aborted h'"
proof (elim host_stepE)
  have c: "en_aborted h1 \<Longrightarrow> checked_ecall O1 m h1 = (r, h2) \<Longrightarrow> en_aborted h2"
    for m :: "('a, 'c, 'd) ecall" and h1 h2 r
    by (auto simp: checked_ecall_def oe_ecall_def cbind_def cthen_def clift_def cret_def cthrow_def Let_def
        split: if_splits sum.splits prod.splits option.splits)
  show "en_aborted h \<Longrightarrow> Enclave_HandleRequest O1 E i rt input h = (r, h') \<Longrightarrow> en_aborted h'" for i rt input r
    using c by (auto simp: Enclave_HandleRequest_def cbind_def cthen_def clift_def cret_def cthrow_def
        split: prod.splits sum.splits option.splits)
  show "en_aborted h \<Longrightarrow> h' = set_thread (case r of Inl _ \<Rightarrow> Thread_terminated | Inr t \<Rightarrow> t) h2 \<Longrightarrow>
      refresh_once O1 E h = (r, h2) \<Longrightarrow> en_aborted h'" for r h2
    using c by (auto simp: refresh_once_def ccatch_def cbind_def cthen_def clift_def cget_def
        split: prod.splits sum.splits if_splits)
qed simp_all

section \<open>What leaves a request\<close>

text \<open>Only the two kinds of exception leave \<^verbatim>\<open>Enclave::HandleRequest\<close>.\<close>

lemma request_error_status_not_SUCCESS [simp]: "request_error_status e \<noteq> SUCCESS"
  by (cases e) auto

lemma EnclaveHandleRequest_output:
  assumes "EnclaveHandleRequest E rt input n g = (Inr (status, out), g')"
  shows "out = None \<longleftrightarrow> status \<noteq> SUCCESS"
  using assms
  by (auto simp: EnclaveHandleRequest_def cbind_def ccatch_def cget_def cret_def cthrow_def
      split: if_splits prod.splits sum.splits)

lemma checked_ecall_cases:
  assumes "checked_ecall O1 m h = (r, h')"
  shows "(\<exists>t. r = Inl (EnclaveSDKError t)) \<or> (\<exists>a g. r = Inr a \<and> m (en_enclave h) = (Inr a, g))"
  using assms
  by (auto simp: checked_ecall_def oe_ecall_def cbind_def cthen_def clift_def cret_def cthrow_def
      EnclaveSDKError_Check_def Let_def split: if_splits prod.splits sum.splits option.splits)

lemma Enclave_HandleRequest_cases:
  assumes "Enclave_HandleRequest O1 E i rt input h = (r, h')"
  shows "(\<exists>t. r = Inl (EnclaveSDKError t)) \<or> (\<exists>s. r = Inl (EnclaveCallError s)) \<or> (\<exists>out. r = Inr out)"
proof -
  obtain x h1 where c: "checked_ecall O1 (EnclaveHandleRequest E rt input MAX_OUTPUT_SIZE) h = (x, h1)"
    by (metis surj_pair)
  from checked_ecall_cases [OF c] show ?thesis
  proof (elim disjE exE conjE)
    fix t assume "x = Inl (EnclaveSDKError t)"
    with c assms show ?thesis by (auto simp: Enclave_HandleRequest_def cbind_def)
  next
    fix a g assume a: "x = Inr a" "EnclaveHandleRequest E rt input MAX_OUTPUT_SIZE (en_enclave h) = (Inr a, g)"
    obtain status out where "a = (status, out)" by (metis surj_pair)
    with a c assms EnclaveHandleRequest_output [of E rt input MAX_OUTPUT_SIZE "en_enclave h" status out g] show ?thesis
      by (cases out) (auto simp: Enclave_HandleRequest_def cbind_def cthen_def clift_def cret_def
          EnclaveCallError_Check_def status_code_zero_iff split: if_splits)
  qed
qed

interpretation host_backend: enclave_backend "Enclave_HandleRequest O1 E" for O1 E
  by unfold_locales (use Enclave_HandleRequest_cases in blast)

end
