(* ===== verification/Sample_Session.thy ===== *)
theory Sample_Session
  imports Conf_Session Sample_Libs
begin

text \<open>A concrete server and a concrete client on the sample libraries, for the witnesses.\<close>

definition sample_world :: world where
  "sample_world = \<lparr>w_rng = (\<lambda>i. int (7 * i + 3)), w_rng_pos = 0, w_clock = (\<lambda>i. 1000 + int i), w_clock_pos = 0\<rparr>"

definition sample_key_provider :: "byte \<Rightarrow> u32 \<Rightarrow> unit key_provider" where
  "sample_key_provider b v =
     \<lparr>previous_key = replicate 32 0, current_key = replicate 32 b, previous_key_version = v - 1,
      current_key_version = v, initialized = True, key_type = Curve25519, last_refreshed = 0, kp_derived = ()\<rparr>"

definition sample_server :: "u32 \<Rightarrow> unit server" where
  "sample_server v =
     \<lparr>srv_key_provider = sample_key_provider 64 v, srv_nonce = replicate 16 1,
      srv_public_key = replicate 32 64, srv_public_signing_key = replicate 32 64,
      srv_service_identifier = [11, 12],
      srv_evidence = [(Quote, 7 # replicate 32 64)]\<rparr>"

definition sample_client :: "unit client" where
  "sample_client =
     \<lparr>cl_key_provider = sample_key_provider 72 0, cl_key_version = - 1, cl_nonce = replicate 16 2,
      cl_public_key = replicate 32 72, cl_in_symmetric_key = [], cl_out_symmetric_key = [],
      cl_static_iv = [], cl_dynamic_iv = replicate 12 255, cl_server_nonce = [],
      cl_expected_enclave_signing_key_pem = [], cl_expected_enclave_hash = replicate 32 5,
      cl_expected_service_identifier = [11, 12], cl_allow_debug = False\<rparr>"

text \<open>The same client once it has agreed on a key with the server.\<close>

definition sample_keyed_client :: "u32 \<Rightarrow> unit client" where
  "sample_keyed_client v =
     (let secret = EverCrypt_Curve25519_ecdh sample_crypto (replicate 32 64) (replicate 32 72)
      in sample_client\<lparr>cl_in_symmetric_key := derived_key sample_crypto True secret,
           cl_out_symmetric_key := derived_key sample_crypto False secret,
           cl_static_iv := derived_iv sample_crypto False secret, cl_key_version := v,
           cl_server_nonce := replicate 16 1\<rparr>)"

lemma sample_linked: "linked sample_host_libs sample_enclave_libs"
  by (simp add: linked_def sample_crypto_correct sample_codec_roundtrip)

lemma sample_server_keyed: "server_keyed sample_enclave_libs (sample_server v)"
  by (simp add: server_keyed_def sample_server_def sample_key_provider_def sample_crypto_def size_defs)

lemma sample_client_ready: "client_ready sample_host_libs sample_client"
  by (simp add: client_ready_def sample_client_def sample_key_provider_def sample_crypto_def size_defs)

lemma sample_keyed_client_ready: "client_ready sample_host_libs (sample_keyed_client v)"
  using sample_client_ready by (simp add: client_ready_def sample_keyed_client_def Let_def)

lemma sample_client_keyed: "client_keyed sample_host_libs (sample_keyed_client v) (replicate 32 64) v"
  by (simp add: client_keyed_def sample_keyed_client_def sample_client_def Let_def)

lemma sample_server_key: "current_key (srv_key_provider (sample_server v)) = replicate 32 64"
  "current_key_version (srv_key_provider (sample_server v)) = v"
  by (simp_all add: sample_server_def sample_key_provider_def)

lemma sample_server_inv: "ed25519_inv (srv_key_provider (sample_server v))"
  by (simp add: ed25519_inv_def kp_sized_def sample_server_def sample_key_provider_def)

lemma sample_client_accepts: "client_accepts sample_host_libs sample_client (sample_server v)"
proof -
  have 1: "vec_resize 32 (replicate 32 64 @ [11, 12]) = replicate 32 (64 :: byte)"
    "take 32 (vec_resize 64 (replicate 32 (64 :: byte))) = replicate 32 64"
    by (simp_all add: vec_resize_def)
  show ?thesis
    unfolding client_accepts_def sample_server_def sample_client_def
    by (simp add: Client_CheckEvidence_def Client_VerifyQuote_def sample_oe_def Client_CheckEnclaveHash_def
        Client_CheckSigner_def Client_CheckIdentityFields_def Client_CheckReportData_def memcmp_eq_def
        SHA256_list_def sample_crypto_def SHA256_SIZE_def 1 Client_CheckServiceIdentifier_def ids_mismatch_iff Let_def)
qed

lemma sample_server_new: "\<exists>s w'. Server_new sample_enclave_libs [11, 12] (sample_key_provider 64 4) sample_world = (Inr s, w')"
  by (simp add: Server_new_def Server_MakePublicKeys_def sample_key_provider_def MakePublicKeysCurve25519_ok
      KEY_SIZE_def Server_UpdateEvidence_def Server_GenerateQuote_def SHA256_list_ok sample_oe_def Randomize_eq
      cthen_def cbind_def)

end
