(* ===== verification/Enclave_Session.thy ===== *)
theory Enclave_Session
  imports Enclave Sample_Session
begin

text \<open>
  The protocol client against the enclave's entry points: every request travels as the input of
  \<^verbatim>\<open>EnclaveHandleRequest\<close> and its output back to the client. The theory also holds the concrete
  enclave on which the properties of the entry points are exercised.
\<close>

section \<open>A client and an enclave\<close>

type_synonym ('d, 'v, 'm, 'a) enclave_session = "('d client \<times> ('v, 'm) enclave_state, exn, 'a) comp"

definition enclave_exchange ::
    "libs \<Rightarrow> ('v, 'j, 'm) enclave_libs \<Rightarrow> byte \<Rightarrow> bytes \<Rightarrow> nat \<Rightarrow> ('d, 'v, 'm, Result) enclave_session" where
  "enclave_exchange Lc E rt p n =
     cbind (czoom fst (\<lambda>c (_, g). (c, g)) (Client_MakeRequest Lc p n)) (\<lambda>m.
     cbind (czoom snd (\<lambda>g (c, _). (c, g)) (EnclaveHandleRequest E rt m n)) (\<lambda>(status, out).
       case out of
         None \<Rightarrow> cthrow (RuntimeError (''status '' @ to_string (status_code status)))
       | Some m' \<Rightarrow> czoom fst (\<lambda>c (_, g). (c, g)) (Client_HandleMessage Lc m')))"

lemma enclave_exchange_eq:
  assumes r: "request_exchange Lc (el_libs E) (provider_DoRefreshKey E) (HandleRequest E rt) p n (c, s, g_world g)
      = (Inr x, (c', s', w'))"
    and env: "ew_env (g_world g) \<noteq> None" and s: "g_server g = Some s"
  shows "enclave_exchange Lc E rt p n (c, g) = (Inr x, (c', g\<lparr>g_server := Some s', g_world := w'\<rparr>))"
proof -
  obtain m c1 m' where 1: "Client_MakeRequest Lc p n c = (Inr m, c1)"
    and 2: "Server_RespondToMessage (el_libs E) (provider_DoRefreshKey E) (HandleRequest E rt) m n (s, g_world g)
        = (Inr m', (s', w'))"
    and 3: "Client_HandleMessage Lc m' c1 = (Inr x, c')"
    using r
    by (cases "Client_MakeRequest Lc p n c")
       (auto simp: request_exchange_def cbind_def on_client_eq on_server_eq split: prod.splits sum.splits)
  have "EnclaveHandleRequest E rt m n g = (Inr (SUCCESS, Some m'), g\<lparr>g_server := Some s', g_world := w'\<rparr>)"
    using 2 env s by (auto simp: EnclaveHandleRequest_def cbind_def ccatch_def on_confmsg_server_def)
  with 1 3 show ?thesis by (simp add: enclave_exchange_def cbind_def czoom_def)
qed

text \<open>One exchange with a client that holds the current key.\<close>

lemma enclave_exchange_ok:
  assumes L: "linked Lc (el_libs E)" and c: "client_ready Lc c"
      "client_keyed Lc c (current_key (srv_key_provider s)) (current_key_version (srv_key_provider s))"
    and k: "length (current_key (srv_key_provider s)) = KEY_SIZE"
    and env: "ew_env (g_world g) \<noteq> None" and s: "g_server g = Some s"
    and h: "HandleRequest E rt p (g_world g) = (Inr answer, w')"
  shows "\<exists>c' N. (\<forall>n\<ge>N. enclave_exchange Lc E rt p n (c, g)
      = (Inr (Result_Response answer False), (c', g\<lparr>g_world := w'\<rparr>)))
    \<and> client_ready Lc c'
    \<and> client_keyed Lc c' (current_key (srv_key_provider s)) (current_key_version (srv_key_provider s))"
proof -
  have "\<exists>c' N. (\<forall>n\<ge>N. request_exchange Lc (el_libs E) (provider_DoRefreshKey E) (HandleRequest E rt) p n (c, s, g_world g)
       = (Inr (Result_Response answer False), (c', s, w')))
    \<and> client_ready Lc c' \<and> client_keyed Lc c' (current_key (srv_key_provider s)) (current_key_version (srv_key_provider s))"
    by (rule request_exchange_full [where f = "HandleRequest E rt" and p = p and w = "g_world g", OF L c _ k _ _ h]) (simp_all add: GetKey_def IsKeyOutdated_def)
  then obtain c' N where r: "\<forall>n\<ge>N. request_exchange Lc (el_libs E) (provider_DoRefreshKey E) (HandleRequest E rt) p n
       (c, s, g_world g) = (Inr (Result_Response answer False), (c', s, w'))"
    and c': "client_ready Lc c'"
      "client_keyed Lc c' (current_key (srv_key_provider s)) (current_key_version (srv_key_provider s))" by blast
  have "g\<lparr>g_server := Some s, g_world := w'\<rparr> = g\<lparr>g_world := w'\<rparr>" using s by (cases g) simp
  then have "\<forall>n\<ge>N. enclave_exchange Lc E rt p n (c, g) = (Inr (Result_Response answer False), (c', g\<lparr>g_world := w'\<rparr>))"
    using r enclave_exchange_eq [OF _ env s] by metis
  with c' show ?thesis by blast
qed

text \<open>
  C3: the service end to end: an enclave that holds a model encrypted under some key opens it when a
  client sends that key in a provisioning request, and answers a following score request of the same
  client with the serialised prediction of exactly this model, sealed for the client.
\<close>

theorem provisioned_model_scores:
  assumes L: "linked Lc (el_libs E)" and c: "client_ready Lc c"
      "client_keyed Lc c (current_key (srv_key_provider s)) (current_key_version (srv_key_provider s))"
    and k: "length (current_key (srv_key_provider s)) = KEY_SIZE" and s: "g_server g = Some s"
    and env: "ew_env (g_world g) = Some env" "env_model_output_names env = []"
    and enc: "Encrypt (l_crypto (el_libs E)) key (replicate IV_SIZE 0) model [] [] [] = Inr (cipher, tag)" "model \<noteq> []"
      "env_encrypted_model env = cipher @ tag" "length key = SYMMETRIC_KEY_SIZE"
    and m: "ort_session (el_ort E) model = Inr m"
    and q: "el_pb_parse E data = Some request"
      "Predict (el_ort E) (Some m) (ort_output_names (el_ort E) m) request = (Inr st, response)" "st_code st = OK_CODE"
      "el_pb_serialize E response = Some out"
  shows "\<exists>c' g' N. (\<forall>n\<ge>N. cthen (enclave_exchange Lc E RequestType_ProvisionModelKey key n)
      (enclave_exchange Lc E RequestType_Score data n) (c, g) = (Inr (Result_Response out False), (c', g')))
    \<and> (\<exists>env'. ew_env (g_world g') = Some env' \<and> env_session env' = Some m \<and> env_encrypted_model env' = [])"
proof -
  let ?C = "l_crypto (el_libs E)"
  let ?kp = "(StaticKeyProvider_new (el_uninit_pv E) (el_uninit_cv E) key Curve25519 LocalKP)\<lparr>initialized := True\<rparr>"
  let ?env = "env\<lparr>env_model_key_provider := Some ?kp, env_session := Some m,
     env_model_output_names := ort_output_names (el_ort E) m, env_encrypted_model := []\<rparr>"
  let ?w = "(g_world g)\<lparr>ew_env := Some ?env\<rparr>"
  have kp: "current_key ?kp = key" by (simp add: StaticKeyProvider_new_def KeyProvider_new_def Let_def)
  have "open_model ?C (el_ort E) (env\<lparr>env_model_key_provider := Some ?kp\<rparr>) (cipher @ tag) = Inr m"
    using open_model_encrypted [OF linkedD(5) [OF L] _ enc(2), of ?kp "env\<lparr>env_model_key_provider := Some ?kp\<rparr>"] enc m kp
    by simp
  then have 1: "HandleRequest E RequestType_ProvisionModelKey key (g_world g) = (Inr key, ?w)"
    using env enc(3)
    by (simp add: HandleRequest_def RequestType_Score_def RequestType_ProvisionModelKey_def
        StaticKeyProvider_Create_eq InitializeModel_provider_cases Let_def)
  from enclave_exchange_ok [OF L c k _ s 1] env(1) obtain c1 N1 where
    e1: "\<forall>n\<ge>N1. enclave_exchange Lc E RequestType_ProvisionModelKey key n (c, g)
        = (Inr (Result_Response key False), (c1, g\<lparr>g_world := ?w\<rparr>))"
    and c1: "client_ready Lc c1"
      "client_keyed Lc c1 (current_key (srv_key_provider s)) (current_key_version (srv_key_provider s))" by auto
  have 2: "HandleRequest E RequestType_Score data (g_world (g\<lparr>g_world := ?w\<rparr>)) = (Inr out, ?w)"
    using q by (simp add: HandleRequest_def HandleScore_def GetSession_def GetModelOutputNames_def)
  from enclave_exchange_ok [OF L c1 k _ _ 2] s obtain c2 N2 where
    e2: "\<forall>n\<ge>N2. enclave_exchange Lc E RequestType_Score data n (c1, g\<lparr>g_world := ?w\<rparr>)
        = (Inr (Result_Response out False), (c2, g\<lparr>g_world := ?w\<rparr>))" by auto
  have "\<forall>n\<ge>max N1 N2. cthen (enclave_exchange Lc E RequestType_ProvisionModelKey key n)
      (enclave_exchange Lc E RequestType_Score data n) (c, g) = (Inr (Result_Response out False), (c2, g\<lparr>g_world := ?w\<rparr>))"
    using e1 e2 by (simp add: cthen_def cbind_def)
  then show ?thesis by (intro exI [of _ c2] exI [of _ "g\<lparr>g_world := ?w\<rparr>"] exI [of _ "max N1 N2"]) simp
qed

text \<open>
  A score request that arrives before a model has been opened is not refused: when its inputs
  convert, the executor runs the null session, so the enclave faults.
\<close>

theorem score_without_model_faults:
  assumes "ew_env w = Some env" and "env_session env = None"
    and "el_pb_parse E data = Some request"
    and "SetNameMLValueMap (el_ort E) request True = (Inr (Inr (names, vals)), raw)"
  shows "HandleRequest E RequestType_Score data w = (Inl (Fault ''no session''), w)"
  using assms
  by (simp add: HandleRequest_def HandleScore_def Predict_def GetSession_def Run_def catch_ort_def Let_def)

section \<open>Initialisation with local keys\<close>

lemma RandomEd25519KeyProvider_Create_ok:
  "\<exists>kp w'. RandomEd25519KeyProvider_Create pv cv d w = (Inr kp, w') \<and> ed25519_inv kp \<and> kp_derived kp = d
     \<and> current_key_version kp = cv + 1 \<and> clamp_key (fst (Randomize [] 32 w)) = Inr (current_key kp)
     \<and> w_rng w' = w_rng w \<and> w_rng_pos w' = w_rng_pos w + 32"
proof -
  let ?kp = "KeyProvider_new pv cv 32 Curve25519 d"
  have sz: "kp_sized 32 ?kp" by (simp add: kp_sized_def KeyProvider_new_def)
  show ?thesis
    using RandomEd25519_refresh_eq [OF sz, of w]
    by (simp add: RandomEd25519KeyProvider_Create_def KeyProvider_Initialize_def KeyProvider_RefreshKey_def
        cthen_def cbind_def ed25519_inv_def kp_sized_def KeyProvider_new_def Randomize_eq clamp_key_ok system_clock_now_def Let_def)
qed

lemma with_env_Inr:
  assumes "with_env f g = (Inr x, g')"
  shows "\<exists>env env'. ew_env (g_world g) = Some env \<and> f env = (Inr x, env')
    \<and> g' = g\<lparr>g_world := (g_world g)\<lparr>ew_env := Some env'\<rparr>\<rparr>"
  using assms by (auto simp: with_env_def on_world_def czoom_def split: option.splits prod.splits)

text \<open>
  C26: an initialisation with local keys that succeeds leaves a protocol server with a fresh
  key: the next 32 bytes of the random engine with the bits of a Curve25519 key set, under the next key version. Its nonce is the 16 bytes
  after them, and the engine has moved past both, so that they are not drawn again. The server has public keys that belong to the key
  and a quote over them, and its service identifier is the
  hash of the model; and the environment holds the encrypted model until a key is provisioned, or the
  open session when none is needed.
\<close>

theorem local_initialization:
  assumes C: "crypto_lengths (l_crypto (el_libs E))" and fresh: "ew_env (g_world g) = None"
    and i: "EnclaveInitialize E model secs prov False a g = (Inr SUCCESS, g')"
  shows "\<exists>s env. g_server g' = Some s \<and> server_keyed (el_libs E) s \<and> server_attested (el_libs E) s
    \<and> ed25519_inv (srv_key_provider s) \<and> kp_derived (srv_key_provider s) = LocalKP
    \<and> clamp_key (fst (Randomize [] 32 (g_world g))) = Inr (current_key (srv_key_provider s))
    \<and> current_key_version (srv_key_provider s) = el_uninit_cv E + 1
    \<and> srv_nonce s = fst (Randomize [] NONCE_SIZE (snd (Randomize [] 32 (g_world g))))
    \<and> w_rng (g_world g') = w_rng (g_world g) \<and> w_rng_pos (g_world g') = w_rng_pos (g_world g) + 32 + NONCE_SIZE
    \<and> srv_service_identifier s = EverCrypt_Hash_hash_256 (l_crypto (el_libs E)) model
    \<and> g_key_rollover_interval g' = uint secs \<and> ew_env (g_world g') = Some env
    \<and> (if prov then env_encrypted_model env = model \<and> env_session env = None
       else \<exists>m. ort_session (el_ort E) model = Inr m \<and> env_session env = Some m
              \<and> env_model_output_names env = ort_output_names (el_ort E) m)"
proof -
  let ?g0 = "g\<lparr>g_key_rollover_interval := uint secs\<rparr>"
  let ?env = "ServerEnvironment_new (if el_debug E then ORT_LOGGING_LEVEL_VERBOSE else ORT_LOGGING_LEVEL_FATAL) None"
  let ?w0 = "(g_world g)\<lparr>ew_env := Some ?env\<rparr>"
  let ?sid = "EverCrypt_Hash_hash_256 (l_crypto (el_libs E)) model"
  have b: "EnclaveInitialize_body E model prov False a ?g0 = (Inr SUCCESS, g')"
    using i by (auto simp: EnclaveInitialize_def catch_all_def ccatch_Inr_iff split: if_splits)
  obtain kp w1 where kp: "RandomEd25519KeyProvider_Create (el_uninit_pv E) (el_uninit_cv E) LocalKP ?w0 = (Inr kp, w1)"
    "ed25519_inv kp" "kp_derived kp = LocalKP" "current_key_version kp = el_uninit_cv E + 1"
    "clamp_key (fst (Randomize [] 32 ?w0)) = Inr (current_key kp)" "w_rng w1 = w_rng ?w0" "w_rng_pos w1 = w_rng_pos ?w0 + 32"
    using RandomEd25519KeyProvider_Create_ok [of "el_uninit_pv E" "el_uninit_cv E" LocalKP ?w0] by (elim exE conjE) (rule that)
  have w1: "ew_env w1 = Some ?env"
    using preservesD [OF create_providers_keep(2), of "Some ?env" "g_server g" "?g0\<lparr>g_world := ?w0\<rparr>" E False a] kp(1)
    by (simp add: env_server_are_def create_key_provider_def cbind_def on_world_def czoom_def)
  have st: "start_server E model prov ?sid kp (?g0\<lparr>g_world := w1\<rparr>) = (Inr SUCCESS, g')"
    using b fresh kp(1) SHA256_ok [OF C]
    by (simp add: EnclaveInitialize_body_def create_model_key_provider_def create_key_provider_def cthen_def cbind_def
        on_world_def czoom_def Let_def)
  then obtain s w2 where sv: "Server_new (el_libs E) ?sid kp w1 = (Inr s, w2)"
    and rest: "(if prov then cthen (with_env (SetEncryptedModel model)) (cret SUCCESS)
      else ccatch (cthen (with_env (InitializeModel (l_crypto (el_libs E)) (el_ort E) model)) (cret SUCCESS))
        on_model_error) (?g0\<lparr>g_world := w2, g_server := Some s\<rparr>) = (Inr SUCCESS, g')"
    by (auto simp: start_server_def cbind_Inr_iff on_world_def czoom_def split: prod.splits)
  have w2: "ew_env w2 = Some ?env"
    using sv w1
    by (auto simp: Server_new_def Server_MakePublicKeys_def Server_UpdateEvidence_def cthen_def cbind_def Randomize_eq
        split: prod.splits sum.splits if_splits)
  have k: "length (current_key kp) = KEY_SIZE" using ed25519_kp.inv_sized [OF kp(2)] by simp
  note rnd = Server_new_random [OF sv]
  have fresh_key: "clamp_key (fst (Randomize [] 32 (g_world g))) = Inr (current_key kp)" using kp(5) by (simp add: Randomize_eq)
  have nonce: "srv_nonce s = fst (Randomize [] NONCE_SIZE (snd (Randomize [] 32 (g_world g))))"
    "w_rng w2 = w_rng (g_world g)" "w_rng_pos w2 = w_rng_pos (g_world g) + 32 + NONCE_SIZE"
    using rnd kp(6,7) by (simp_all add: Randomize_eq)
  note si = Server_new_inv [OF C k sv]
  show ?thesis
  proof (cases prov)
    case True
    with rest w2 have "g' = ?g0\<lparr>g_world := w2\<lparr>ew_env := Some (?env\<lparr>env_encrypted_model := model\<rparr>)\<rparr>, g_server := Some s\<rparr>"
      by (auto simp: cthen_Inr_iff SetEncryptedModel_def dest!: with_env_Inr)
    with True si kp(2-4) fresh_key nonce show ?thesis by (auto simp: ServerEnvironment_new_def)
  next
    case False
    with rest obtain g2 where "with_env (InitializeModel (l_crypto (el_libs E)) (el_ort E) model)
        (?g0\<lparr>g_world := w2, g_server := Some s\<rparr>) = (Inr (), g2)" "g' = g2"
      by (auto simp: cthen_Inr_iff ccatch_Inr_iff dest: on_model_error_Inr)
    with w2 obtain m where "ort_session (el_ort E) model = Inr m"
      "g' = ?g0\<lparr>g_world := w2\<lparr>ew_env := Some (?env\<lparr>env_session := Some m,
          env_model_output_names := ort_output_names (el_ort E) m\<rparr>)\<rparr>, g_server := Some s\<rparr>"
      by (auto simp: InitializeModel_cases open_model_def ServerEnvironment_new_def split: sum.splits dest!: with_env_Inr)
    with False si kp(2-4) fresh_key nonce show ?thesis by auto
  qed
qed

section \<open>A concrete enclave\<close>

definition sample_E :: "(unit, string, unit) enclave_libs" where
  "sample_E =
     \<lparr>el_libs = sample_enclave_libs,
      el_hsm = sample_hsm\<lparr>h_net := empty_vault\<lparr>n_curl := (n_curl empty_vault)\<lparr>curl_easy_init := False\<rparr>\<rparr>\<rparr>,
      el_ort = echo_ort, el_pb_parse = (\<lambda>b. if b = [1] then Some echo_request else None),
      el_pb_serialize = (\<lambda>r. Some [of_nat (length r)]), HAVE_LIBSKR = False, el_debug = False,
      el_uninit_pv = 0, el_uninit_cv = 0, el_ticks_per_second = 1000000\<rparr>"

definition sample_enclave_server :: "provider_state server" where
  "sample_enclave_server =
     \<lparr>srv_key_provider = retype (\<lambda>_. LocalKP) (sample_key_provider 64 4), srv_nonce = replicate 16 1,
      srv_public_key = replicate 32 64, srv_public_signing_key = replicate 32 64,
      srv_service_identifier = [11, 12], srv_evidence = []\<rparr>"

definition sample_model_env :: "bytes \<Rightarrow> string list \<Rightarrow> (unit, provider_state) ServerEnvironment" where
  "sample_model_env model names = (ServerEnvironment_new ORT_LOGGING_LEVEL_FATAL None)
     \<lparr>env_encrypted_model := model, env_model_output_names := names\<rparr>"

definition sample_state ::
    "provider_state server option \<Rightarrow> (unit, provider_state) ServerEnvironment option \<Rightarrow> (unit, unit) enclave_state" where
  "sample_state s e =
     \<lparr>g_server = s, g_key_rollover_interval = 3600,
      g_world = \<lparr>w_rng = (\<lambda>i. int i), w_rng_pos = 0, w_clock = (\<lambda>i. 4000000000), w_clock_pos = 0, w_net = (), ew_env = e\<rparr>\<rparr>"

definition sample_akv :: akv_params where
  "sample_akv = \<lparr>akv_app_id = ''i'', akv_app_pwd = ''p'', akv_vault_url = ''u/'', akv_service_key_name = ''k'',
     akv_model_key_name = [], akv_attestation_url = []\<rparr>"

lemma sample_E_linked: "linked sample_host_libs (el_libs sample_E)"
  using sample_linked by (simp add: sample_E_def)

lemma sample_enclave_server_key:
  "current_key (srv_key_provider sample_enclave_server) = replicate 32 64"
  "current_key_version (srv_key_provider sample_enclave_server) = 4"
  "kp_derived (srv_key_provider sample_enclave_server) = LocalKP"
  "ed25519_inv (srv_key_provider sample_enclave_server)"
  "last_refreshed (srv_key_provider sample_enclave_server) = 0"
  by (simp_all add: sample_enclave_server_def retype_def sample_key_provider_def ed25519_inv_def kp_sized_def)

lemma sample_vault_offline:
  "\<exists>w'. KeyVaultProvider_Create (h_net (el_hsm sample_E)) pv cv kvc w = (Inl (RuntimeError ''Error initializing curl''), w')"
proof -
  obtain kp w1 where "RandomEd25519KeyProvider_Create pv cv () w = (Inr kp, w1)"
    using RandomEd25519KeyProvider_Create_ok [of pv cv "()" w] by (elim exE conjE) (rule that)
  then show ?thesis
    by (simp add: KeyVaultProvider_Create_def KeyProvider_Initialize_def KeyProvider_RefreshKey_def
        KeyVaultProvider_DoRefreshKey_def KeyVaultProvider_FetchKey_def kv_request_def HTTPClient_Request_def
        HTTPClient_Request_fields_def Curl_def cthen_def cbind_def ccatch_def czoom_def rethrow_curl_def sample_E_def
        empty_vault_def KeyVaultProvider_new_def KeyProvider_new_def HTTPClient_new_def sample_hsm_def)
qed

lemma sample_initialize_offline:
  "fst (EnclaveInitialize sample_E [1] 60 False True sample_akv (sample_state None None)) = Inr KEY_REFRESH_ERROR"
proof -
  obtain w' where v: "KeyVaultProvider_Create (h_net (el_hsm sample_E)) (el_uninit_pv sample_E) (el_uninit_cv sample_E)
      (KeyVaultConfig_new ''i'' ''p'' ''u/'' ''k'' [])
      (net_of ((g_world (sample_state None None))\<lparr>ew_env := Some (ServerEnvironment_new ORT_LOGGING_LEVEL_FATAL None)\<rparr>))
    = (Inl (RuntimeError ''Error initializing curl''), w')" using sample_vault_offline by blast
  have "el_debug sample_E = False" "l_crypto (el_libs sample_E) = sample_crypto" "ew_env (g_world (sample_state None None)) = None"
    by (simp_all add: sample_E_def sample_state_def)
  with v show ?thesis
    by (simp add: EnclaveInitialize_def catch_all_def ccatch_def EnclaveInitialize_body_def cbind_def cthen_def
        SHA256_ok create_model_key_provider_def create_key_provider_def create_vault_provider_def on_world_def czoom_def
        sample_akv_def is_std_exception_def Let_def)
qed

lemma sample_initialize_local:
  "fst (EnclaveInitialize sample_E [1] iv True False a (sample_state None None)) = Inr SUCCESS"
proof -
  let ?w = "(g_world (sample_state None None))\<lparr>ew_env := Some (ServerEnvironment_new ORT_LOGGING_LEVEL_FATAL None)\<rparr>"
  obtain kp w1 where kp: "RandomEd25519KeyProvider_Create (el_uninit_pv sample_E) (el_uninit_cv sample_E) LocalKP ?w = (Inr kp, w1)"
    "ed25519_inv kp"
    using RandomEd25519KeyProvider_Create_ok [of "el_uninit_pv sample_E" "el_uninit_cv sample_E" LocalKP ?w]
    by (elim exE conjE) (rule that)
  have e1: "ew_env w1 \<noteq> None"
    using preservesD [OF create_providers_keep(2), of "ew_env ?w" None "(sample_state None None)\<lparr>g_world := ?w\<rparr>" sample_E False a] kp(1)
    by (auto simp: env_server_are_def create_key_provider_def cbind_def on_world_def czoom_def sample_state_def)
  have kl: "length (current_key kp) = KEY_SIZE" "key_type kp = Curve25519"
    using ed25519_kp.inv_sized [OF kp(2)] ed25519_kp.inv_curve [OF kp(2)] by simp_all
  obtain s w2 where s: "Server_new sample_enclave_libs (EverCrypt_Hash_hash_256 sample_crypto [1]) kp w1 = (Inr s, w2)"
    "ew_env w2 = ew_env w1"
    by (simp add: Server_new_def Server_MakePublicKeys_def kl MakePublicKeysCurve25519_ok
        Server_UpdateEvidence_def Server_GenerateQuote_def SHA256_list_ok sample_oe_def Randomize_eq cthen_def cbind_def)
  have "el_debug sample_E = False" "el_libs sample_E = sample_enclave_libs" "ew_env (g_world (sample_state None None)) = None"
    by (simp_all add: sample_E_def sample_state_def)
  with kp(1) s e1 show ?thesis
    by (auto simp: EnclaveInitialize_def catch_all_def ccatch_def EnclaveInitialize_body_def cbind_def cthen_def
        SHA256_ok create_model_key_provider_def create_key_provider_def on_world_def czoom_def start_server_def
        with_env_def SetEncryptedModel_def Let_def)
qed

theorem model_cannot_be_replaced_witness:
  "\<exists>g calls. g = sample_state (Some sample_enclave_server) (Some (sample_model_env [] [''y'']))
     \<and> calls = [Call_HandleRequest RequestType_ProvisionModelKey [1, 2, 3] 1000, Call_MaybeRefreshKey,
                Call_Initialize [1] 60 False False sample_akv, Call_HandleRequest RequestType_Score [] 0]
     \<and> ew_env (g_world (enclave_calls sample_E calls g)) = Some (sample_model_env [] [''y''])
     \<and> ew_env (g_world (enclave_calls sample_E (calls @ [Call_Destroy, Call_MaybeRefreshKey]) g)) = None"
proof -
  let ?g = "sample_state (Some sample_enclave_server) (Some (sample_model_env [] [''y'']))"
  let ?calls = "[Call_HandleRequest RequestType_ProvisionModelKey [1, 2, 3] 1000, Call_MaybeRefreshKey,
                Call_Initialize [1] 60 False False sample_akv, Call_HandleRequest RequestType_Score [] 0]"
  have "ew_env (g_world ?g) = Some (sample_model_env [] [''y''])" "has_model (sample_model_env [] [''y''])"
    by (simp_all add: sample_state_def sample_model_env_def has_model_def)
  from model_cannot_be_replaced [OF this, of ?calls sample_E "[Call_MaybeRefreshKey]"] show ?thesis
    by (simp add: is_Initialize_def)
qed

theorem rollover_exactly_when_due_witness:
  "\<exists>g' s'. EnclaveMaybeRefreshKey sample_E (sample_state (Some sample_enclave_server) (Some (sample_model_env [] [])))
      = (Inr SUCCESS, g') \<and> g_server g' = Some s' \<and> current_key_version (srv_key_provider s') = 5"
proof -
  let ?g = "sample_state (Some sample_enclave_server) (Some (sample_model_env [] []))"
  have "system_clock_now (g_world ?g) = (4000000000, snd (system_clock_now (g_world ?g)))"
    by (simp add: system_clock_now_def sample_state_def)
  from rollover_exactly_when_due [OF _ _ sample_enclave_server_key(3,4) _ _ this, of sample_E] show ?thesis
    by (auto simp: sample_state_def sample_E_def sample_oe_def sample_enclave_server_key)
qed

theorem failed_initialization_sticks_witness:
  "\<exists>g'. EnclaveInitialize sample_E [1] 60 False True sample_akv (sample_state None None) = (Inr KEY_REFRESH_ERROR, g')
     \<and> fst (EnclaveInitialize sample_E [1] 60 False False sample_akv g') = Inr SESSION_ALREADY_INITIALIZED_ERROR"
proof -
  have "fst (EnclaveInitialize sample_E [1] 60 False True sample_akv (sample_state None None)) = Inr KEY_REFRESH_ERROR"
    by (rule sample_initialize_offline)
  then obtain g' where g: "EnclaveInitialize sample_E [1] 60 False True sample_akv (sample_state None None)
      = (Inr KEY_REFRESH_ERROR, g')" by (metis prod.collapse)
  from failed_initialization_sticks [OF _ g, of "[1]" 60 False False sample_akv] g show ?thesis
    by (auto simp: sample_state_def)
qed

theorem score_without_model_faults_witness:
  "HandleRequest sample_E RequestType_Score [1] (g_world (sample_state None (Some (sample_model_env [] []))))
     = (Inl (Fault ''no session''), g_world (sample_state None (Some (sample_model_env [] []))))"
proof -
  obtain names vals raw where "SetNameMLValueMap (el_ort sample_E) echo_request True = (Inr (Inr (names, vals)), raw)"
    using echo_inputs by (auto simp: sample_E_def)
  then show ?thesis
    using score_without_model_faults [of "g_world (sample_state None (Some (sample_model_env [] [])))"
        "sample_model_env [] []" sample_E "[1]" echo_request]
    by (simp add: sample_state_def sample_model_env_def ServerEnvironment_new_def sample_E_def)
qed

theorem local_initialization_witness:
  "\<exists>g' s. EnclaveInitialize sample_E [1] 60 True False sample_akv (sample_state None None) = (Inr SUCCESS, g')
     \<and> g_server g' = Some s \<and> server_attested (el_libs sample_E) s
     \<and> current_key (srv_key_provider s) = map word_of_nat [0..<31] @ [95] \<and> srv_nonce s = map word_of_nat [32..<48]"
proof -
  have "fst (EnclaveInitialize sample_E [1] 60 True False sample_akv (sample_state None None)) = Inr SUCCESS"
    by (rule sample_initialize_local)
  then obtain g' where g: "EnclaveInitialize sample_E [1] 60 True False sample_akv (sample_state None None)
      = (Inr SUCCESS, g')" by (metis prod.collapse)
  have "fst (Randomize [] 32 (g_world (sample_state None None))) = map word_of_nat [0..<32]"
    by (simp add: Randomize_eq sample_state_def)
  then have "clamp_key (fst (Randomize [] 32 (g_world (sample_state None None)))) = Inr (map word_of_nat [0..<31] @ [95])"
    by (simp add: clamp_key_def upt_rec)
  moreover have "fst (Randomize [] NONCE_SIZE (snd (Randomize [] 32 (g_world (sample_state None None))))) = map word_of_nat [32..<48]"
    by (simp add: Randomize_eq sample_state_def NONCE_SIZE_def upt_rec)
  ultimately show ?thesis
    using local_initialization [OF _ _ g] g by (auto simp: sample_state_def sample_E_def)
qed

theorem provisioned_model_scores_witness:
  "\<exists>c' g' N. \<forall>n\<ge>N. cthen (enclave_exchange sample_host_libs sample_E RequestType_ProvisionModelKey (replicate 32 7) n)
      (enclave_exchange sample_host_libs sample_E RequestType_Score [1] n)
      (sample_keyed_client 4, sample_state (Some sample_enclave_server)
         (Some (sample_model_env (map (\<lambda>b. b XOR 7) [1, 2, 3] @ vec_resize TAG_SIZE (replicate IV_SIZE 0 @ replicate 32 7)) [])))
    = (Inr (Result_Response [1] False), (c', g'))"
proof -
  obtain st r where q: "Predict (el_ort sample_E) (Some ()) (ort_output_names (el_ort sample_E) ()) echo_request = (Inr st, r)"
    "st_code st = OK_CODE" "el_pb_serialize sample_E r = Some [1]"
    using echo_predict by (auto simp: sample_E_def echo_ort_def)
  have e: "Encrypt sample_crypto (replicate 32 7) (replicate IV_SIZE 0) [1, 2, 3] [] [] []
      = Inr (map (\<lambda>b. b XOR 7) [1, 2, 3], vec_resize TAG_SIZE (replicate IV_SIZE 0 @ replicate 32 7))"
    by (simp add: Encrypt_def sample_crypto_def size_defs EverCrypt_Error_Success_def)
  have k: "client_keyed sample_host_libs (sample_keyed_client 4) (current_key (srv_key_provider sample_enclave_server))
      (current_key_version (srv_key_provider sample_enclave_server))"
    using sample_client_keyed by (simp add: sample_enclave_server_key)
  have "el_pb_parse sample_E [1] = Some echo_request" by (simp add: sample_E_def)
  from provisioned_model_scores [OF sample_E_linked sample_keyed_client_ready k _ _ _ _ _ _ _ _ _ this q,
      of "sample_state (Some sample_enclave_server) (Some (sample_model_env (map (\<lambda>b. b XOR 7) [1, 2, 3]
          @ vec_resize TAG_SIZE (replicate IV_SIZE 0 @ replicate 32 7)) []))"
        "sample_model_env (map (\<lambda>b. b XOR 7) [1, 2, 3] @ vec_resize TAG_SIZE (replicate IV_SIZE 0 @ replicate 32 7)) []"
        "replicate 32 7" "[1, 2, 3]" "map (\<lambda>b. b XOR 7) [1, 2, 3]" "vec_resize TAG_SIZE (replicate IV_SIZE 0 @ replicate 32 7)"] e
  show ?thesis
    by (auto simp: sample_enclave_server_key sample_state_def sample_model_env_def sample_E_def echo_ort_def
        KEY_SIZE_def SYMMETRIC_KEY_SIZE_def)
qed

end
