(* ===== verification/Host_Main.thy ===== *)
theory Host_Main
  imports Host_Config Host_Enclave Enclave_Session
begin

text \<open>
  The server process, \<^verbatim>\<open>host/main.cc\<close>: from the command line over the enclave to the routes, and what
  a client of the HTTP interface observes.
\<close>

section \<open>The application\<close>

definition error_callback :: "'w handler" where
  "error_callback = cmodify (\<lambda>(cx, w).
     let r1 = (cx_response cx)\<lparr>rs_status := cx_error_code cx\<rparr>;
         r2 = insert_field ''Content-Type'' ''application/json'' r1;
         r3 = insert_field ''x-ms-request-id'' (cx_request_id cx) r2;
         r4 = (if cx_client_request_id cx \<noteq> []
               then insert_field ''x-ms-client-request-id'' (cx_client_request_id cx) r3 else r3)
     in (cx\<lparr>cx_response := r4\<lparr>rs_body := bytes_of_string (CreateJsonError (- 1) (cx_error_message cx))\<rparr>\<rparr>, w))"

text \<open>The startup function only writes to the log.\<close>

definition server_app ::
    "oe_host_lib \<Rightarrow> ('v, 'j, 'm) enclave_libs \<Rightarrow> HostEnvironment \<Rightarrow> int \<Rightarrow> ('v, 'm) HostEnclave App" where
  "server_app O1 E env hardware_concurrency =
     (let app = App_new hardware_concurrency;
          app = App_RegisterStartup (\<lambda>details. cret ()) app;
          app = App_RegisterError error_callback app;
          app = App_RegisterPost ''/score''
                  (Host_HandleRequest env (Enclave_HandleRequest O1 E) RequestType_Score) app
      in App_RegisterPost ''/provisionModelKey''
           (Host_HandleRequest env (Enclave_HandleRequest O1 E) RequestType_ProvisionModelKey) app)"

section \<open>The process\<close>

text \<open>
  How \<^verbatim>\<open>main\<close> ends: with an exit code, in \<^verbatim>\<open>std::terminate\<close>, or in the I/O loop, which
  serves the routes on so many threads.
\<close>

datatype ('v, 'm) process =
    Exit_success
  | Exit_failure
  | Terminated
  | Serving "('v, 'm) HostEnclave App" nat "('v, 'm) HostEnclave"

record ('p, 'o, 'v, 'j, 'm) host_libs =
  hl_options :: "('p, 'o) options_lib"
  hl_oe :: oe_host_lib
  hl_files :: ifstream_lib
  hl_enclave :: "('v, 'j, 'm) enclave_libs"
  hl_make_address :: "string \<Rightarrow> exn + string"
  hl_acceptor :: acceptor
  hl_hardware_concurrency :: int

text \<open>
  The exception handlers of \<^verbatim>\<open>main\<close> run after the enclave object has been destroyed. Its destructor waits
  for the thread, which by then has got to \<open>progress\<close>; an exception from a destructor ends the process.
\<close>

definition unwind ::
    "oe_host_lib \<Rightarrow> (('v, 'm) HostEnclave \<Rightarrow> ('v, 'm) HostEnclave) \<Rightarrow> ('v, 'm) HostEnclave \<Rightarrow> ('v, 'm) process" where
  "unwind O1 progress h =
     (let h1 = progress h
      in if shutdown_end (en_key_refresh_thread h1) = Thread_terminated then Terminated
         else (case Enclave_destroy O1 h1 of (Inl _, _) \<Rightarrow> Terminated | (Inr _, _) \<Rightarrow> Exit_failure))"

definition run_server ::
    "('p, 'o, 'v, 'j, 'm) host_libs \<Rightarrow> (('v, 'm) HostEnclave \<Rightarrow> ('v, 'm) HostEnclave) \<Rightarrow> ('v, 'm) enclave_state
       \<Rightarrow> ServerConfiguration \<Rightarrow> ('v, 'm) process" where
  "run_server H progress g0 config =
     (let env = \<lparr>he_auth_key = cf_auth_key config, he_log_level = cf_logging_level config\<rparr>;
          service_kvc = KeyVaultConfig_new (cf_akv_app_id config) (cf_akv_app_pwd config) (cf_akv_vault_url config)
            (cf_akv_service_key_name config) (cf_akv_attestation_url config);
          model_kvc = KeyVaultConfig_new (cf_akv_app_id config) (cf_akv_app_pwd config) (cf_akv_vault_url config)
            (cf_akv_model_key_name config) []
      in case Enclave_new (hl_oe H) g0 (cf_enclave_path config) (cf_debug config) (cf_simulation config)
                service_kvc model_kvc (cf_use_model_key_provisioning config)
                (cf_key_rollover_interval_seconds config) (cf_key_sync_interval_seconds config)
                (cf_key_error_retry_interval_seconds config) of
           Inl _ \<Rightarrow> Exit_failure
         | Inr h \<Rightarrow>
             (let app = server_app (hl_oe H) (hl_enclave H) env (hl_hardware_concurrency H);
                  start = cthen (Enclave_Initialize (hl_oe H) (hl_files H) (hl_enclave H) (cf_model_path config))
                    (cbind (clift (hl_make_address H (cf_address config))) (\<lambda>boost_address.
                     let app = App_NumThreads (cf_num_http_threads config)
                                 (App_Bind boost_address (word_of_int (cf_http_port config)) app)
                     in cbind (App_Run (hl_acceptor H) app) (\<lambda>threads. cret (app, threads))))
              in case start h of
                   (Inl _, h') \<Rightarrow> unwind (hl_oe H) progress h'
                 | (Inr (_, None), _) \<Rightarrow> Exit_failure
                 | (Inr (app, Some n), h') \<Rightarrow> Serving app n h'))"

definition main ::
    "('p, 'o, 'v, 'j, 'm) host_libs \<Rightarrow> (('v, 'm) HostEnclave \<Rightarrow> ('v, 'm) HostEnclave) \<Rightarrow> ('v, 'm) enclave_state
       \<Rightarrow> string list \<Rightarrow> ('v, 'm) process" where
  "main H progress g0 argv =
     (case ParseInput (hl_options H) (fs_open (hl_files H)) argv (ServerConfiguration_new (hl_hardware_concurrency H)) of
        (ExitSuccess, _) \<Rightarrow> Exit_success
      | (ExitFailure, _) \<Rightarrow> Exit_failure
      | (ContinueSuccess, config) \<Rightarrow> run_server H progress g0 config)"

section \<open>What a client of the HTTP interface gets\<close>

text \<open>
  The routes as a table: the status and body of the answer and the enclave afterwards. RE2 matches the
  two patterns, which have no special characters, literally, and preparing the payload keeps status and body.
\<close>

definition http_lib_ok :: "http_lib \<Rightarrow> bool" where
  "http_lib_ok H \<longleftrightarrow>
     (\<forall>url. \<forall>p \<in> {''/score'', ''/provisionModelKey''}. re2_FullMatch H url p \<longleftrightarrow> url = p)
     \<and> (\<forall>r. rs_status (prepare_payload H r) = rs_status r \<and> rs_body (prepare_payload H r) = rs_body r)"

definition route_type :: "string \<Rightarrow> byte option" where
  "route_type target =
     (if target = ''/score'' then Some RequestType_Score
      else if target = ''/provisionModelKey'' then Some RequestType_ProvisionModelKey else None)"

definition route_error :: "http_lib \<Rightarrow> http_status \<Rightarrow> http_request \<Rightarrow> bytes" where
  "route_error H status req = bytes_of_string (CreateJsonError (- 1)
     (obsolete_reason H status @ ''. For HTTP method: '' @ verb_string (rq_method req)
        @ '' and request path: '' @ rq_target req))"

definition http_answer ::
    "http_lib \<Rightarrow> oe_host_lib \<Rightarrow> ('v, 'j, 'm) enclave_libs \<Rightarrow> HostEnvironment \<Rightarrow> string \<Rightarrow> http_request
       \<Rightarrow> ('v, 'm) HostEnclave \<Rightarrow> http_status \<times> bytes \<times> ('v, 'm) HostEnclave" where
  "http_answer H O1 E env i req h =
     (if rq_method req = verb_get \<and> rq_target req = ''/'' then (200, bytes_of_string ''Healthy'', h)
      else if rq_method req \<noteq> verb_post then (405, route_error H 405 req, h)
      else case route_type (rq_target req) of
             None \<Rightarrow> (404, route_error H 404 req, h)
           | Some rt \<Rightarrow> backend_answer (Enclave_HandleRequest O1 E) env i rt req h)"

section \<open>The routes of the server\<close>

abbreviation server_routes ::
    "oe_host_lib \<Rightarrow> ('v, 'j, 'm) enclave_libs \<Rightarrow> HostEnvironment \<Rightarrow> int \<Rightarrow> ('v, 'm) HostEnclave Routes" where
  "server_routes O1 E env hc \<equiv> app_routes (server_app O1 E env hc)"

lemmas app_ops = server_app_def App_new_def App_RegisterStartup_def App_RegisterError_def App_RegisterPost_def
  RegisterController_def RegisterErrorCallback_def Routes_new_def Let_def

lemma server_routes_simps:
  "get_fn_table (server_routes O1 E env hc) = []"
  "post_fn_table (server_routes O1 E env hc)
     = [(''/score'', Host_HandleRequest env (Enclave_HandleRequest O1 E) RequestType_Score),
        (''/provisionModelKey'', Host_HandleRequest env (Enclave_HandleRequest O1 E) RequestType_ProvisionModelKey)]"
  "on_error (server_routes O1 E env hc) = Some error_callback"
  by (simp_all add: app_ops)

lemma ParseUrl_server_routes:
  assumes "http_lib_ok H"
  shows "ParseUrl (re2_FullMatch H) (server_routes O1 E env hc) v target =
     (if v \<noteq> verb_post then Inl http_method_not_allowed
      else case route_type target of
             None \<Rightarrow> Inl http_not_found
           | Some rt \<Rightarrow> Inr (Host_HandleRequest env (Enclave_HandleRequest O1 E) rt))"
  using assms
  by (cases v) (auto simp: ParseUrl_def server_routes_simps http_lib_ok_def route_type_def Let_def)

definition answered :: "http_status \<times> bytes \<times> 'w \<Rightarrow> (exn + http_response) \<times> 'w \<Rightarrow> bool" where
  "answered a r \<longleftrightarrow> (case (a, r) of
       ((status, body, w), (Inr resp, w')) \<Rightarrow> rs_status resp = status \<and> rs_body resp = body \<and> w' = w
     | _ \<Rightarrow> False)"

text \<open>The routes of the server always answer.\<close>

interpretation server_http: total_routes H "app_routes (server_app O1 E env hc)" for H O1 E env hc
proof
  show "\<exists>s. f (cx, w) = (Inr (), s)"
    if "(p, f) \<in> set (post_fn_table (server_routes O1 E env hc) @ get_fn_table (server_routes O1 E env hc))" for p f cx w
    using that host_backend.handler_returns by (auto simp: server_routes_simps)
  show "\<exists>f. on_error (server_routes O1 E env hc) = Some f \<and> (\<forall>cx w. \<exists>s. f (cx, w) = (Inr (), s))"
    by (simp add: server_routes_simps error_callback_def cmodify_def)
qed

lemma Session_HandleRequest_answered:
  assumes "http_lib_ok H"
  shows "answered (http_answer H O1 E env i req h)
    (Session_HandleRequest H (server_routes O1 E env hc) i req h)"
proof (cases "is_liveness_probe req")
  case True
  with assms show ?thesis
    by (simp add: answered_def http_answer_def is_liveness_probe_def Session_HandleRequest_def cmodify_def
        HttpContext_new_def empty_response_def http_lib_ok_def)
next
  case False
  note P = ParseUrl_server_routes [OF assms]
  show ?thesis
  proof (cases "rq_method req = verb_post \<and> route_type (rq_target req) \<noteq> None")
    case True
    then obtain rt where rt: "rq_method req = verb_post" "route_type (rq_target req) = Some rt" by auto
    from host_backend.handler_answers [of env O1 E rt "request_context i req" h] rt obtain cx' h' where
      "Host_HandleRequest env (Enclave_HandleRequest O1 E) rt (request_context i req, h) = (Inr (), (cx', h'))"
      "http_answer H O1 E env i req h = (rs_status (cx_response cx'), rs_body (cx_response cx'), h')"
      by (auto simp: http_answer_def)
    with False rt assms show ?thesis
      by (simp add: answered_def Session_HandleRequest_def ExecuteUserFunction_eq P cbind_def cthen_def ccatch_def
          cret_def http_lib_ok_def)
  next
    case err: False
    with False assms show ?thesis
      by (auto simp: answered_def Session_HandleRequest_def ExecuteUserFunction_eq P cbind_def cret_def cmodify_def
          http_lib_ok_def http_answer_def is_liveness_probe_def server_routes_simps error_callback_def route_error_def Let_def
          split: option.splits)
  qed
qed

text \<open>
  C10: what a client of the HTTP interface gets, for every request: the liveness probe is answered
  without looking at the enclave; another method than POST gives 405 and another target 404; with
  an authorization key configured, a request without it gives 401; otherwise the request
  goes to the enclave, once, with the type of its route, and the answer is 200 with the enclave's
  output, 400 with its status, or 500 when the SDK fails. The session never ends with an exception.
\<close>

theorem http_dispatch:
  assumes "http_lib_ok H"
  shows "answered (http_answer H O1 E env i req h)
      (Session_HandleRequest H (app_routes (server_app O1 E env hc)) i req h)
    \<and> (\<forall>ev st r h'. session_step H (app_routes (server_app O1 E env hc)) ev (st, h) = Some (r, h') \<longrightarrow> (\<exists>st'. r = Inr st'))"
  using Session_HandleRequest_answered [OF assms] server_http.session_never_throws by blast

section \<open>Authorization\<close>

text \<open>
  C11: with an authorization key configured, a whole session of requests without that key never
  changes the enclave or anything of the host's state, and every answer is an error or the liveness answer.
\<close>

theorem unauthorized_never_reaches_enclave:
  assumes "session_run H (app_routes (server_app O1 E env hc)) h0 reqs resps st h"
    and "http_lib_ok H" and "he_auth_key env \<noteq> []"
    and "\<forall>(i, req) \<in> set reqs. field_of ''Authorization'' (rq_fields req) \<noteq> Some (''Bearer '' @ he_auth_key env)"
  shows "h = h0 \<and> (\<forall>resp \<in> set resps. rs_status resp \<in> {401, 404, 405}
    \<or> rs_status resp = 200 \<and> rs_body resp = bytes_of_string ''Healthy'')"
  using assms
proof (induction rule: session_run.induct)
  case (session_answers reqs resps st w i req resp w')
  then have r: "Session_HandleRequest H (server_routes O1 E env hc) i req w = (Inr resp, w')"
    by (auto simp: session_read_request)
  have "http_answer H O1 E env i req w = (rs_status resp, rs_body resp, w')"
    using Session_HandleRequest_answered [OF assms(2), of O1 E env i req w hc] r
    by (auto simp: answered_def split: prod.splits)
  moreover have "field_of ''Authorization'' (rq_fields req) \<noteq> Some (''Bearer '' @ he_auth_key env)"
    using session_answers.prems by simp
  ultimately have "w' = w \<and> (rs_status resp \<in> {401, 404, 405}
      \<or> rs_status resp = 200 \<and> rs_body resp = bytes_of_string ''Healthy'')"
    using assms(3) by (auto simp: http_answer_def backend_answer_def split: if_splits option.splits)
  with session_answers show ?case by auto
qed (auto simp: session_read_end session_write_end)

section \<open>A score request before the model is there\<close>

definition admitted :: "HostEnvironment \<Rightarrow> http_request \<Rightarrow> bool" where
  "admitted env req \<longleftrightarrow> rq_method req = verb_post \<and> route_type (rq_target req) \<noteq> None
     \<and> (he_auth_key env = [] \<or> field_of ''Authorization'' (rq_fields req) = Some (''Bearer '' @ he_auth_key env))"

lemma http_answer_admitted:
  assumes "admitted env req" and "route_type (rq_target req) = Some rt"
    and "Enclave_HandleRequest O1 E i rt (rq_body req) h = (Inl (EnclaveSDKError t), h')"
  shows "http_answer H O1 E env i req h = (500, bytes_of_string (CreateJsonError (- 1) t), h')"
  using assms by (auto simp: http_answer_def admitted_def backend_answer_def)

lemma Enclave_HandleRequest_sdk:
  "checked_ecall O1 (EnclaveHandleRequest E rt input MAX_OUTPUT_SIZE) h = (Inl e, h')
     \<Longrightarrow> Enclave_HandleRequest O1 E i rt input h = (Inl e, h')"
  by (simp add: Enclave_HandleRequest_def cbind_def)

lemma aborted_gives_500:
  assumes "en_aborted h" and "admitted env req"
  shows "fst (http_answer H O1 E env i req h) = 500"
proof -
  obtain rt where "route_type (rq_target req) = Some rt" using assms(2) by (auto simp: admitted_def)
  note http_answer_admitted [OF assms(2) this Enclave_HandleRequest_sdk [OF checked_ecall_aborted [OF assms(1)]],
      of H O1 E i]
  then show ?thesis by simp
qed

text \<open>An honest client's score request, when no model has been opened.\<close>

lemma premature_score_faults:
  assumes L: "linked Lc (el_libs E)" and c: "client_ready Lc c"
      "client_keyed Lc c (current_key (srv_key_provider s)) (current_key_version (srv_key_provider s))"
    and k: "length (current_key (srv_key_provider s)) = KEY_SIZE"
    and g: "g_server g = Some s" "ew_env (g_world g) = Some env" "env_session env = None"
    and q: "el_pb_parse E data = Some request"
      "SetNameMLValueMap (el_ort E) request True = (Inr (Inr (names, vals)), raw)"
    and m: "Client_MakeRequest Lc data n c = (Inr m, c')"
  shows "\<exists>g'. EnclaveHandleRequest E RequestType_Score m N g = (Inl (Fault ''no session''), g')"
proof -
  note l = linkedD [OF L]
  have C: "crypto_lengths (l_crypto Lc)" "aead_correct (l_crypto Lc)" using l by simp_all
  have h: "HandleRequest E RequestType_Score data (g_world g) = (Inl (Fault ''no session''), g_world g)"
    using g q by (simp add: HandleRequest_def HandleScore_def Predict_def GetSession_def Run_def catch_ort_def Let_def)
  have "m = fb_encode (l_fb (el_libs E)) \<lparr>msg_version = Version_v1, msg_body = Body_Request (Some (client_request Lc c data))\<rparr>"
    using m by (auto simp: Client_MakeRequest_def Client_SealRequest_ok [OF C c] cbind_Inr_iff WriteMessage_Inr_iff l(2))
  moreover have gk: "GetKey (srv_key_provider s) (current_key_version (srv_key_provider s)) = Inr (current_key (srv_key_provider s))"
    and o: "IsKeyOutdated (srv_key_provider s) (current_key_version (srv_key_provider s)) = Inr False"
    by (simp_all add: GetKey_def IsKeyOutdated_def)
  ultimately have "Server_RespondToMessage (el_libs E) (provider_DoRefreshKey E) (HandleRequest E RequestType_Score) m N (s, g_world g)
      = (Inl (Fault ''no session''), (s, g_world g))"
    by (simp add: Server_RespondToMessage_request [OF l(3) l(5) l(7) l(1) c gk k o] h)
  with g show ?thesis
    by (simp add: EnclaveHandleRequest_def on_confmsg_server_def cbind_def ccatch_def cget_def cthrow_def)
qed

text \<open>
  C38: one well-formed score request that arrives before a model key has been provisioned takes the
  service down: it is answered with 500, and so is every admitted request after it, whatever happens in
  between, because the fault in the null session has aborted the enclave for good.
\<close>

theorem premature_score_disables_server:
  assumes L: "linked Lc (el_libs E)" and c: "client_ready Lc c"
      "client_keyed Lc c (current_key (srv_key_provider s)) (current_key_version (srv_key_provider s))"
    and k: "length (current_key (srv_key_provider s)) = KEY_SIZE"
    and g: "g_server (en_enclave h) = Some s" "ew_env (g_world (en_enclave h)) = Some menv" "env_session menv = None"
    and q: "el_pb_parse E data = Some request"
      "SetNameMLValueMap (el_ort E) request True = (Inr (Inr (names, vals)), raw)"
    and m: "Client_MakeRequest Lc data n c = (Inr (rq_body req), c')"
    and oe: "\<not> en_aborted h" "oe_enter O1 (en_calls h) = OE_OK"
    and H: "http_lib_ok H" and req: "admitted env req" "rq_target req = ''/score''"
  shows "\<exists>resp h'. Session_HandleRequest H (app_routes (server_app O1 E env hc)) i req h = (Inr resp, h')
    \<and> rs_status resp = 500
    \<and> (\<forall>h'' j req'. (host_step O1 E)\<^sup>*\<^sup>* h' h'' \<longrightarrow> admitted env req' \<longrightarrow>
         (\<exists>resp' h3. Session_HandleRequest H (app_routes (server_app O1 E env hc)) j req' h'' = (Inr resp', h3)
            \<and> rs_status resp' = 500))"
proof -
  have A: "\<exists>resp h2. Session_HandleRequest H (server_routes O1 E env hc) j r h1 = (Inr resp, h2)
      \<and> http_answer H O1 E env j r h1 = (rs_status resp, rs_body resp, h2)" for j r h1
    using Session_HandleRequest_answered [OF H, of O1 E env j r h1 hc]
    by (auto simp: answered_def split: prod.splits sum.splits)
  obtain g' where f: "EnclaveHandleRequest E RequestType_Score (rq_body req) MAX_OUTPUT_SIZE (en_enclave h)
      = (Inl (Fault ''no session''), g')"
    using premature_score_faults [OF L c k g q m] by blast
  let ?h' = "h\<lparr>en_calls := en_calls h + 1, en_enclave := g', en_aborted := True\<rparr>"
  have "route_type (rq_target req) = Some RequestType_Score" using req(2) by (simp add: route_type_def)
  note http_answer_admitted [OF req(1) this Enclave_HandleRequest_sdk [OF checked_ecall_fault
      [where m = "EnclaveHandleRequest E RequestType_Score (rq_body req) MAX_OUTPUT_SIZE", OF oe f]], of H i]
  with A [of i req h] obtain resp where 1: "Session_HandleRequest H (server_routes O1 E env hc) i req h = (Inr resp, ?h')"
    "rs_status resp = 500" by auto
  have "en_aborted h''" if "(host_step O1 E)\<^sup>*\<^sup>* ?h' h''" for h''
    using that by (induction rule: rtranclp_induct) (auto intro: en_aborted_sticks)
  then have "\<exists>resp' h3. Session_HandleRequest H (server_routes O1 E env hc) j req' h'' = (Inr resp', h3) \<and> rs_status resp' = 500"
    if "(host_step O1 E)\<^sup>*\<^sup>* ?h' h''" "admitted env req'" for h'' j req'
    using aborted_gives_500 [OF _ that(2), of h'' H O1 E j] that(1) A [of j req' h''] by auto
  with 1 show ?thesis by blast
qed

section \<open>When the server serves\<close>

lemma Enclave_Initialize_Inr:
  assumes "Enclave_Initialize O1 F E model_path h = (Inr (), h')"
  shows "\<exists>model g. ReadFile F model_path = Inr model
    \<and> EnclaveInitialize E model (word_of_int (en_key_rollover_interval h)) (en_use_model_key_provisioning h)
        (kvc_url (en_service_kvc h) \<noteq> [])
        \<lparr>akv_app_id = kvc_app_id (en_service_kvc h), akv_app_pwd = kvc_app_pwd (en_service_kvc h),
         akv_vault_url = kvc_url (en_service_kvc h), akv_service_key_name = kvc_key_name (en_service_kvc h),
         akv_model_key_name = kvc_key_name (en_model_kvc h),
         akv_attestation_url = kvc_attestation_url (en_service_kvc h)\<rparr> (en_enclave h) = (Inr SUCCESS, g)
    \<and> h' = h\<lparr>en_calls := en_calls h + 1, en_enclave := g, en_key_refresh_thread := Thread_created\<rparr>"
  using assms
  by (auto simp: Enclave_Initialize_def checked_ecall_def oe_ecall_def cbind_def cthen_def clift_def cget_def cret_def
      cthrow_def cmodify_def EnclaveSDKError_Check_def EnclaveCallError_Check_def status_code_zero_iff
      StartPeriodicKeyRefreshBackgroundThread_def Let_def
      split: sum.splits prod.splits if_splits option.splits)

lemma App_Run_Inr:
  assumes "App_Run acc a w = (Inr (Some n), w')" and "app_on_start a = Some (\<lambda>d. cret ())"
  shows "w' = w \<and> int n = d_threads (app_http_details a) \<and> acc_open acc \<and> acc_bind acc \<and> acc_listen acc"
  using assms
  by (auto simp: App_Run_def Listener_Init_def Listener_Run_def cret_def cthen_def cbind_def cthrow_def Let_def
      split: if_splits)

text \<open>
  C20: when the process gets as far as serving, its configuration was accepted; the enclave
  has been initialised with success, from the contents of the model file, with the key vault exactly
  when a vault URL is configured, whatever the flag for the vault says, and with the rollover interval
  reduced to 32 bits; the refresh thread has been created; and it listens with the configured number of
  threads on the configured port modulo 65536.
\<close>

theorem main_serves:
  assumes "main H progress g0 argv = Serving app n h"
  shows "\<exists>config model g.
      ParseInput (hl_options H) (fs_open (hl_files H)) argv (ServerConfiguration_new (hl_hardware_concurrency H))
        = (ContinueSuccess, config)
    \<and> ReadFile (hl_files H) (cf_model_path config) = Inr model
    \<and> EnclaveInitialize (hl_enclave H) model (word_of_int (cf_key_rollover_interval_seconds config))
        (cf_use_model_key_provisioning config) (cf_akv_vault_url config \<noteq> [])
        \<lparr>akv_app_id = cf_akv_app_id config, akv_app_pwd = cf_akv_app_pwd config, akv_vault_url = cf_akv_vault_url config,
         akv_service_key_name = cf_akv_service_key_name config, akv_model_key_name = cf_akv_model_key_name config,
         akv_attestation_url = cf_akv_attestation_url config\<rparr> g0 = (Inr SUCCESS, g)
    \<and> en_enclave h = g \<and> en_key_refresh_thread h = Thread_created \<and> \<not> en_timer_cancelled h
    \<and> app_routes app = app_routes (server_app (hl_oe H) (hl_enclave H)
         \<lparr>he_auth_key = cf_auth_key config, he_log_level = cf_logging_level config\<rparr> (hl_hardware_concurrency H))
    \<and> int n = cf_num_http_threads config
    \<and> uint (d_port (app_http_details app)) = cf_http_port config mod 65536"
proof -
  obtain config where p: "ParseInput (hl_options H) (fs_open (hl_files H)) argv
      (ServerConfiguration_new (hl_hardware_concurrency H)) = (ContinueSuccess, config)"
    and r: "run_server H progress g0 config = Serving app n h"
    using assms by (auto simp: main_def split: prod.splits ParseResult.splits)
  let ?kvc = "KeyVaultConfig_new (cf_akv_app_id config) (cf_akv_app_pwd config) (cf_akv_vault_url config)"
  let ?app = "server_app (hl_oe H) (hl_enclave H)
     \<lparr>he_auth_key = cf_auth_key config, he_log_level = cf_logging_level config\<rparr> (hl_hardware_concurrency H)"
  obtain h0 where e: "Enclave_new (hl_oe H) g0 (cf_enclave_path config) (cf_debug config) (cf_simulation config)
      (?kvc (cf_akv_service_key_name config) (cf_akv_attestation_url config)) (?kvc (cf_akv_model_key_name config) [])
      (cf_use_model_key_provisioning config) (cf_key_rollover_interval_seconds config)
      (cf_key_sync_interval_seconds config) (cf_key_error_retry_interval_seconds config) = Inr h0"
    using r by (auto simp: run_server_def Let_def split: sum.splits)
  then have h0: "h0 = \<lparr>en_enclave = g0, en_aborted = False, en_calls = 0, en_key_refresh_thread = Thread_none,
      en_timer_cancelled = False, en_key_rollover_interval = cf_key_rollover_interval_seconds config,
      en_key_sync_interval = cf_key_sync_interval_seconds config,
      en_key_error_retry_interval = cf_key_error_retry_interval_seconds config,
      en_service_kvc = ?kvc (cf_akv_service_key_name config) (cf_akv_attestation_url config),
      en_model_kvc = ?kvc (cf_akv_model_key_name config) [],
      en_use_model_key_provisioning = cf_use_model_key_provisioning config\<rparr>"
    by (auto simp: Enclave_new_def rbind_Inr_iff Let_def)
  obtain h1 address where i: "Enclave_Initialize (hl_oe H) (hl_files H) (hl_enclave H) (cf_model_path config) h0 = (Inr (), h1)"
    and app: "app = App_NumThreads (cf_num_http_threads config)
      (App_Bind address (word_of_int (cf_http_port config)) ?app)"
    and run: "App_Run (hl_acceptor H) app h1 = (Inr (Some n), h)"
    using r e
    by (auto simp: run_server_def Let_def cthen_def cbind_def clift_def cret_def unwind_def
        split: sum.splits prod.splits option.splits if_splits)
  have a: "app_on_start app = Some (\<lambda>d. cret ())" "app_routes app = app_routes ?app"
    "d_threads (app_http_details app) = cf_num_http_threads config"
    "uint (d_port (app_http_details app)) = cf_http_port config mod 65536"
    by (simp_all add: app App_NumThreads_def App_Bind_def app_ops uint_word_of_int)
  from Enclave_Initialize_Inr [OF i] p a App_Run_Inr [OF run a(1)] show ?thesis
    by (auto simp: h0 KeyVaultConfig_new_def)
qed

section \<open>A concrete host\<close>

definition sample_oe_host :: oe_host_lib where
  "sample_oe_host = \<lparr>oe_result_str = (\<lambda>r. ''OE error''), oe_create_server_enclave = (\<lambda>path flags. OE_OK), oe_enter = (\<lambda>n. OE_OK),
     oe_terminate_enclave = OE_OK, OE_ENCLAVE_ABORTING = 21\<rparr>"

definition sample_host :: "refresh_thread \<Rightarrow> (unit, unit) enclave_state \<Rightarrow> (unit, unit) HostEnclave" where
  "sample_host t g =
     \<lparr>en_enclave = g, en_aborted = False, en_calls = 0, en_key_refresh_thread = t, en_timer_cancelled = False,
      en_key_rollover_interval = 60, en_key_sync_interval = 10, en_key_error_retry_interval = 5,
      en_service_kvc = KeyVaultConfig_new [] [] [] [] [], en_model_kvc = KeyVaultConfig_new [] [] [] [] [],
      en_use_model_key_provisioning = True\<rparr>"

definition sample_post :: "http_fields \<Rightarrow> bytes \<Rightarrow> http_request" where
  "sample_post fs body =
     \<lparr>rq_method = verb_post, rq_target = ''/score'', rq_fields = fs, rq_body = body, rq_keep_alive = True\<rparr>"

abbreviation sample_host_env :: HostEnvironment where
  "sample_host_env \<equiv> \<lparr>he_auth_key = ''k'', he_log_level = level_info\<rparr>"

lemma sample_http_ok: "http_lib_ok sample_http"
  by (simp add: http_lib_ok_def sample_http_def)

lemma sample_oe_host_ok: "oe_enter sample_oe_host n = OE_OK"
  by (simp add: sample_oe_host_def)

theorem http_dispatch_witness:
  "answered (404, route_error sample_http 404 ((sample_post [] [])\<lparr>rq_target := ''/x''\<rparr>), sample_host Thread_none (sample_state None None))
     (Session_HandleRequest sample_http (app_routes (server_app sample_oe_host sample_E sample_host_env 2)) ''i''
        ((sample_post [] [])\<lparr>rq_target := ''/x''\<rparr>) (sample_host Thread_none (sample_state None None)))"
  using http_dispatch [OF sample_http_ok, of sample_oe_host sample_E sample_host_env "''i''"
      "(sample_post [] [])\<lparr>rq_target := ''/x''\<rparr>" "sample_host Thread_none (sample_state None None)" 2]
  by (simp add: http_answer_def sample_post_def route_type_def)

lemma sample_unauthorized_session:
  "\<exists>resp. session_run sample_http (app_routes (server_app sample_oe_host sample_E sample_host_env 2))
     (sample_host Thread_none (sample_state None None)) [(''i'', sample_post [] [1])] [resp] (Writing resp)
     (sample_host Thread_none (sample_state None None))"
proof -
  let ?h = "sample_host Thread_none (sample_state None None)" and ?r = "sample_post [] [1]"
  have "http_answer sample_http sample_oe_host sample_E sample_host_env ''i'' ?r ?h
      = (401, bytes_of_string (CreateJsonError (- 1) ''Invalid authorization key''), ?h)"
    by (simp add: http_answer_def backend_answer_def sample_post_def route_type_def field_of_def)
  with Session_HandleRequest_answered [OF sample_http_ok, of sample_oe_host sample_E sample_host_env "''i''" ?r ?h 2]
  obtain resp where r: "Session_HandleRequest sample_http (server_routes sample_oe_host sample_E sample_host_env 2) ''i'' ?r ?h
      = (Inr resp, ?h)"
    by (auto simp: answered_def split: prod.splits sum.splits)
  have "session_run sample_http (server_routes sample_oe_host sample_E sample_host_env 2) ?h
      ([] @ [(''i'', ?r)]) ([] @ [resp]) (Writing resp) ?h"
    by (rule session_answers [OF session_starts])
       (simp_all only: session_read_request r event_possible.simps,
        simp_all add: Session_Run_def DoRead_def sample_post_def body_limit_def)
  then show ?thesis by auto
qed

theorem unauthorized_never_reaches_enclave_witness:
  "\<exists>resp. session_run sample_http (app_routes (server_app sample_oe_host sample_E sample_host_env 2))
     (sample_host Thread_none (sample_state None None)) [(''i'', sample_post [] [1])] [resp] (Writing resp)
     (sample_host Thread_none (sample_state None None))
   \<and> (rs_status resp \<in> {401, 404, 405} \<or> rs_status resp = 200 \<and> rs_body resp = bytes_of_string ''Healthy'')"
proof -
  obtain resp where r: "session_run sample_http (app_routes (server_app sample_oe_host sample_E sample_host_env 2))
     (sample_host Thread_none (sample_state None None)) [(''i'', sample_post [] [1])] [resp] (Writing resp)
     (sample_host Thread_none (sample_state None None))"
    using sample_unauthorized_session by blast
  have "field_of ''Authorization'' (rq_fields (sample_post [] [1])) \<noteq> Some (''Bearer '' @ he_auth_key sample_host_env)"
    by (simp add: sample_post_def field_of_def)
  with unauthorized_never_reaches_enclave [OF r sample_http_ok] r show ?thesis by auto
qed

theorem refresh_thread_survives_errors_witness:
  "(host_step sample_oe_host sample_E)\<^sup>*\<^sup>* (sample_host Thread_created (sample_state None None))
     (sample_host (Thread_waiting 10) (sample_state None None))
   \<and> (\<exists>h''. host_step sample_oe_host sample_E (sample_host (Thread_waiting 10) (sample_state None None)) h''
        \<and> thread_alive (en_key_refresh_thread h''))"
proof -
  have "host_step sample_oe_host sample_E (sample_host Thread_created (sample_state None None))
     (sample_host (Thread_waiting 10) (sample_state None None))"
    using step_begin [of "sample_host Thread_created (sample_state None None)" sample_oe_host sample_E]
    by (simp add: sample_host_def thread_begin_def wait_for_def set_thread_def)
  then have s: "(host_step sample_oe_host sample_E)\<^sup>*\<^sup>* (sample_host Thread_created (sample_state None None))
     (sample_host (Thread_waiting 10) (sample_state None None))" by blast
  from refresh_thread_survives_errors [OF this] s show ?thesis by (auto simp: sample_host_def)
qed

theorem cancellation_needs_a_waiting_thread_witness:
  "\<exists>h''. (host_step sample_oe_host sample_E)\<^sup>*\<^sup>* (cancel (sample_host Thread_refreshing (sample_state None None))) h''
     \<and> en_key_refresh_thread h'' = Thread_terminated"
proof -
  let ?h = "sample_host Thread_refreshing (sample_state None None)"
  have "en_key_refresh_thread ?h = Thread_refreshing" by (simp add: sample_host_def)
  with cancellation_needs_a_waiting_thread [of sample_oe_host sample_E ?h "cancel ?h"] show ?thesis by auto
qed

theorem premature_score_disables_server_witness:
  "\<exists>body resp h'. Session_HandleRequest sample_http
       (app_routes (server_app sample_oe_host sample_E (sample_host_env\<lparr>he_auth_key := []\<rparr>) 2)) ''i''
       (sample_post [] body) (sample_host Thread_none (sample_state (Some sample_enclave_server) (Some (sample_model_env [] []))))
     = (Inr resp, h') \<and> rs_status resp = 500"
proof -
  let ?h = "sample_host Thread_none (sample_state (Some sample_enclave_server) (Some (sample_model_env [] [])))"
  have k: "client_keyed sample_host_libs (sample_keyed_client 4) (current_key (srv_key_provider sample_enclave_server))
      (current_key_version (srv_key_provider sample_enclave_server))"
    using sample_client_keyed by (simp add: sample_enclave_server_key)
  note l = linkedD [OF sample_E_linked]
  have C: "crypto_lengths (l_crypto sample_host_libs)" "aead_correct (l_crypto sample_host_libs)" using l by simp_all
  obtain body c' n where m: "Client_MakeRequest sample_host_libs [1] n (sample_keyed_client 4) = (Inr body, c')"
    using Client_MakeRequest_ok [OF C sample_keyed_client_ready k order_refl, of "[1]"] by blast
  obtain names vals raw where q: "SetNameMLValueMap (el_ort sample_E) echo_request True = (Inr (Inr (names, vals)), raw)"
    using echo_inputs by (auto simp: sample_E_def)
  have p: "el_pb_parse sample_E [1] = Some echo_request" by (simp add: sample_E_def)
  have "Client_MakeRequest sample_host_libs [1] n (sample_keyed_client 4) = (Inr (rq_body (sample_post [] body)), c')"
    using m by (simp add: sample_post_def)
  from premature_score_disables_server [OF sample_E_linked sample_keyed_client_ready k _ _ _ _ p q this _ sample_oe_host_ok
      sample_http_ok, of ?h "sample_model_env [] []" "sample_host_env\<lparr>he_auth_key := []\<rparr>" 2 "''i''"]
  show ?thesis
    by (auto simp: sample_host_def sample_state_def sample_enclave_server_key KEY_SIZE_def sample_model_env_def
        ServerEnvironment_new_def admitted_def sample_post_def route_type_def)
qed

definition sample_libs :: "(unit, unit, unit, string, unit) host_libs" where
  "sample_libs =
     \<lparr>hl_options = \<lparr>parse_environment = (\<lambda>f. Inr ()), parse_command_line = (\<lambda>desc args. Inr ()), empty_variables_map = (),
        po_store = (\<lambda>p v. Inr ()), po_count = (\<lambda>v o1. 0),
        po_notify = (\<lambda>v c. (Inr (), c\<lparr>cf_model_path := ''m'', cf_use_model_key_provisioning := True, cf_http_port := 65537\<rparr>))\<rparr>,
      hl_oe = sample_oe_host,
      hl_files = \<lparr>fs_open = (\<lambda>p. True), fs_seek_end = (\<lambda>p. True), fs_tellg = (\<lambda>p. Some 1), fs_seek_beg = (\<lambda>p. True),
        fs_contents = (\<lambda>p. [1]), fs_strerror = (\<lambda>p. [])\<rparr>,
      hl_enclave = sample_E, hl_make_address = (\<lambda>a. Inr a),
      hl_acceptor = \<lparr>acc_open = True, acc_set_option = True, acc_bind = True, acc_listen = True\<rparr>,
      hl_hardware_concurrency = 2\<rparr>"

lemma sample_main_serves: "\<exists>app h. main sample_libs (\<lambda>h. h) (sample_state None None) [] = Serving app 2 h"
proof -
  define g where "g iv a = snd (EnclaveInitialize sample_E [1] iv True False a (sample_state None None))" for iv a
  have "EnclaveInitialize sample_E [1] iv True False a (sample_state None None) = (Inr SUCCESS, g iv a)" for iv a
    by (simp add: g_def prod_eq_iff sample_initialize_local)
  then show ?thesis
    by (simp add: main_def sample_libs_def ParseInput_def store_options_def ValidateOptions_def ServerConfiguration_new_def
        supported_log_levels_def run_server_def Enclave_new_def EnclaveSDKError_Check_def sample_oe_host_def
        Enclave_Initialize_def ReadFile_def CheckError_def checked_ecall_def oe_ecall_def EnclaveCallError_Check_def
        StartPeriodicKeyRefreshBackgroundThread_def KeyVaultConfig_new_def App_Run_def Listener_Init_def Listener_Run_def
        App_NumThreads_def App_Bind_def app_ops cthen_def cbind_def clift_def cget_def cret_def cmodify_def)
qed

theorem main_serves_witness:
  "\<exists>app h. main sample_libs (\<lambda>h. h) (sample_state None None) [] = Serving app 2 h
     \<and> en_key_refresh_thread h = Thread_created
     \<and> (\<exists>config. ParseInput (hl_options sample_libs) (fs_open (hl_files sample_libs)) [] (ServerConfiguration_new 2)
            = (ContinueSuccess, config)
          \<and> uint (d_port (app_http_details app)) = cf_http_port config mod 65536)"
proof -
  obtain app h where m: "main sample_libs (\<lambda>h. h) (sample_state None None) [] = Serving app 2 h"
    using sample_main_serves by blast
  have "hl_hardware_concurrency sample_libs = 2" by (simp add: sample_libs_def)
  note s = main_serves [OF m, unfolded this]
  from s show ?thesis by (elim exE conjE) (intro exI conjI, rule m)
qed

end
