(* ===== verification/Client_Binding.thy ===== *)
theory Client_Binding
  imports Conf_Session Sample_Session
begin

text \<open>
  The client as Python code sees it, \<^verbatim>\<open>client/python/python.cc\<close>: the constructor takes the identity of the
  enclave in hexadecimal, the messages go through buffers of fixed sizes. Byte strings of Python are
  the bytes they hold. The parameters \<open>pv\<close> and \<open>cv\<close> are the key versions a new key provider happens to have.
\<close>

section \<open>The operations\<close>

definition MAX_KEY_REQUEST_SIZE :: nat where "MAX_KEY_REQUEST_SIZE = 100 * 1024"
definition MAX_REQUEST_SIZE :: nat where "MAX_REQUEST_SIZE = 10 * 1024 * 1024"

definition py_client_init ::
    "libs \<Rightarrow> u32 \<Rightarrow> u32 \<Rightarrow> string \<Rightarrow> string \<Rightarrow> string \<Rightarrow> bool \<Rightarrow> 'w world_scheme
       \<Rightarrow> (exn + unit client) \<times> 'w world_scheme" where
  "py_client_init L pv cv enclave_signing_key_pem enclave_hash enclave_service_id allow_debug w =
     (case RandomKeyProvider_Create pv cv KEY_SIZE () w of
        (Inl e, w1) \<Rightarrow> (Inl e, w1)
      | (Inr key_provider, w1) \<Rightarrow>
          (case rbind (Hex2Buffer enclave_hash) (\<lambda>h. rbind (Hex2Buffer enclave_service_id) (\<lambda>i. Inr (h, i))) of
             Inl e \<Rightarrow> (Inl e, w1)
           | Inr (enclave_hash_bytes, enclave_service_id_bytes) \<Rightarrow>
               Client_new L (Some key_provider) enclave_signing_key_pem enclave_hash_bytes
                 enclave_service_id_bytes allow_debug w1))"

definition py_make_key_request :: "libs \<Rightarrow> 'c client \<Rightarrow> exn + bytes" where
  "py_make_key_request L c = Client_MakeKeyRequest L c MAX_KEY_REQUEST_SIZE"

definition py_make_request :: "libs \<Rightarrow> bytes \<Rightarrow> ('c, bytes) cl_comp" where
  "py_make_request L data = Client_MakeRequest L data MAX_REQUEST_SIZE"

definition py_handle_message :: "libs \<Rightarrow> bytes \<Rightarrow> ('c, Result) cl_comp" where
  "py_handle_message L data = Client_HandleMessage L data"

definition py_has_data :: "Result \<Rightarrow> bool" where
  "py_has_data r = IsResponse r"

definition py_get_data :: "Result \<Rightarrow> exn + bytes" where
  "py_get_data r = Result_GetPayload r"

definition py_is_key_outdated :: "Result \<Rightarrow> exn + bool" where
  "py_is_key_outdated r = Result_IsKeyOutdated r"

section \<open>The client it makes\<close>

lemma RandomKeyProvider_Create_ok:
  "\<exists>kp w'. RandomKeyProvider_Create pv cv n d w = (Inr kp, w') \<and> kp_sized n kp"
proof -
  let ?kp = "KeyProvider_new pv cv n Generic d"
  have sz: "kp_sized n ?kp" by (simp add: kp_sized_def KeyProvider_new_def)
  show ?thesis
    using sz
    by (auto simp: RandomKeyProvider_Create_def KeyProvider_Initialize_def KeyProvider_RefreshKey_def
        RandomKeyProvider_DoRefreshKey_def cthen_def cbind_def kp_sized_def KeyProvider_new_def Let_def
        split: prod.splits dest: arg_cong [where f = "\<lambda>p. length (fst p)"] simp: Randomize_length)
qed

text \<open>
  The constructor succeeds on the hexadecimal form of any hash and any identifier; the client is ready for a
  key exchange and expects exactly the identity that was given.
\<close>

lemma py_client_expects_identity:
  assumes "crypto_lengths (l_crypto L)"
  shows "\<exists>c w'. py_client_init L pv cv pem (Buffer2Hex h) (Buffer2Hex i) allow_debug w = (Inr c, w')
    \<and> client_ready L c \<and> cl_expected_enclave_hash c = h \<and> cl_expected_service_identifier c = i
    \<and> cl_expected_enclave_signing_key_pem c = pem \<and> cl_allow_debug c = allow_debug"
proof -
  obtain kp w1 where kp: "RandomKeyProvider_Create pv cv KEY_SIZE () w = (Inr kp, w1)" "kp_sized KEY_SIZE kp"
    using RandomKeyProvider_Create_ok [of pv cv KEY_SIZE "()" w] by (elim exE conjE) (rule that)
  have "length (current_key kp) = KEY_SIZE" using kp(2) by (simp add: kp_sized_def)
  with kp(1) assms show ?thesis
    by (simp add: py_client_init_def confmsg_hex.dec_enc Client_new_def Randomize_eq client_ready_def
        MakePublicKeyCurve25519_ok NONCE_SIZE_def IV_SIZE_def)
qed

lemma py_get_data_iff: "(\<exists>d. py_get_data r = Inr d) \<longleftrightarrow> py_has_data r"
  by (simp add: py_get_data_def py_has_data_def Result_GetPayload_def)

section \<open>Every use of a client\<close>

text \<open>The calls of a program that uses the module; what comes from the network is arbitrary.\<close>

datatype py_call = Py_make_key_request | Py_make_request bytes | Py_handle_message bytes

definition py_step :: "libs \<Rightarrow> py_call \<Rightarrow> 'c client \<Rightarrow> 'c client" where
  "py_step L a c = (case a of Py_make_key_request \<Rightarrow> c
     | Py_make_request data \<Rightarrow> snd (py_make_request L data c)
     | Py_handle_message data \<Rightarrow> snd (py_handle_message L data c))"

definition py_run :: "libs \<Rightarrow> py_call list \<Rightarrow> 'c client \<Rightarrow> 'c client" where
  "py_run L as c = fold (py_step L) as c"

text \<open>The sizes of the buffers: the session keys and the IV are all there or not at all.\<close>

definition client_typed :: "libs \<Rightarrow> 'c client \<Rightarrow> bool" where
  "client_typed L c \<longleftrightarrow> client_ready L c
     \<and> (cl_in_symmetric_key c = [] \<and> cl_out_symmetric_key c = [] \<and> cl_static_iv c = []
        \<or> length (cl_in_symmetric_key c) = SYMMETRIC_KEY_SIZE \<and> length (cl_out_symmetric_key c) = SYMMETRIC_KEY_SIZE
          \<and> length (cl_static_iv c) = IV_SIZE)"

definition client_identity :: "'c client \<Rightarrow> 'c key_provider \<times> bytes \<times> bytes \<times> string \<times> bytes \<times> bytes \<times> bool" where
  "client_identity c = (cl_key_provider c, cl_nonce c, cl_public_key c, cl_expected_enclave_signing_key_pem c,
     cl_expected_enclave_hash c, cl_expected_service_identifier c, cl_allow_debug c)"

abbreviation client_same :: "libs \<Rightarrow> 'c client \<Rightarrow> 'c client \<Rightarrow> bool" where
  "client_same L c0 c \<equiv> client_typed L c \<and> client_identity c = client_identity c0"

lemma shared_secret_value:
  "crypto_lengths C \<Longrightarrow> ComputeSharedSecretCurve25519 C k p [] = Inr s \<Longrightarrow> s = EverCrypt_Curve25519_ecdh C k p \<and> length s = KEY_SIZE"
  by (auto simp: ComputeSharedSecretCurve25519_def crypto_lengths_def split: if_splits)

text \<open>
  What a key response leaves behind: at most another server nonce when it is refused, otherwise both keys and the IV, derived from the
  share that has been verified. No failure leaves a mixture.
\<close>

lemma key_response_cases:
  assumes C: "crypto_lengths (l_crypto L)" and e: "Client_HandleKeyResponse L r c = (x, c')"
  shows "(\<exists>m. c' = c\<lparr>cl_server_nonce := m\<rparr>)
    \<or> (\<exists>spublic n m secret. Client_VerifyKeyResponse L c r = Inr (spublic, n)
        \<and> secret = EverCrypt_Curve25519_ecdh (l_crypto L) (current_key (cl_key_provider c)) spublic
        \<and> c' = c\<lparr>cl_server_nonce := m, cl_in_symmetric_key := derived_key (l_crypto L) True secret,
             cl_out_symmetric_key := derived_key (l_crypto L) False secret,
             cl_static_iv := derived_iv (l_crypto L) False secret, cl_key_version := kres_key_version r\<rparr>)"
proof (cases "Client_VerifyKeyResponse L c r")
  case (Inl y)
  with e have "c' = c\<lparr>cl_server_nonce := cl_server_nonce c\<rparr>" by (simp add: Client_HandleKeyResponse_def cbind_def)
  then show ?thesis by blast
next
  case (Inr p)
  obtain spublic n where p: "p = (spublic, n)" by (cases p)
  show ?thesis
  proof (cases "n = None \<or> (\<exists>y. ComputeSharedSecretCurve25519 (l_crypto L) (current_key (cl_key_provider c)) spublic [] = Inl y)")
    case True
    with Inr p e have "\<exists>m. c' = c\<lparr>cl_server_nonce := m\<rparr>"
      by (cases n) (auto simp: Client_HandleKeyResponse_def cbind_def cthen_def)
    then show ?thesis by blast
  next
    case False
    then obtain m secret where s: "n = Some m"
      "ComputeSharedSecretCurve25519 (l_crypto L) (current_key (cl_key_provider c)) spublic [] = Inr secret"
      by (cases "ComputeSharedSecretCurve25519 (l_crypto L) (current_key (cl_key_provider c)) spublic []") auto
    note v = shared_secret_value [OF C s(2)]
    have "length secret = KEY_SIZE" using v by (rule conjunct2)
    with Inr p e s C have "c' = c\<lparr>cl_server_nonce := m, cl_in_symmetric_key := derived_key (l_crypto L) True secret,
        cl_out_symmetric_key := derived_key (l_crypto L) False secret,
        cl_static_iv := derived_iv (l_crypto L) False secret, cl_key_version := kres_key_version r\<rparr>"
      by (simp add: Client_HandleKeyResponse_def cbind_def cthen_def DeriveSymmetricKey_ok)
    with v Inr p show ?thesis by blast
  qed
qed

lemma key_response_preserves:
  assumes C: "crypto_lengths (l_crypto L)"
  shows "preserves (client_same L c0) (Client_HandleKeyResponse L r)"
proof (rule preservesI)
  fix c assume c: "client_same L c0 c"
  obtain x c' where e: "Client_HandleKeyResponse L r c = (x, c')" by (metis surj_pair)
  from key_response_cases [OF C e] c C show "client_same L c0 (snd (Client_HandleKeyResponse L r c))"
    by (auto simp: e client_typed_def client_ready_def client_identity_def)
qed

lemma handle_message_preserves:
  assumes "crypto_lengths (l_crypto L)"
  shows "preserves (client_same L c0) (py_handle_message L data)"
  unfolding py_handle_message_def Client_HandleMessage_def
  by (auto split: option.splits Body.splits simp: key_response_preserves [OF assms] intro!: preserves_cbind)
     (simp_all add: preserves_def)

lemma make_request_preserves: "preserves (client_same L c0) (py_make_request L data)"
proof (rule preservesI)
  fix c assume c: "client_same L c0 c"
  obtain r c' where m: "py_make_request L data c = (r, c')" by (metis surj_pair)
  have "length (cl_dynamic_iv c) = IV_SIZE" using c by (simp add: client_typed_def client_ready_def)
  from Client_MakeRequest_iv [OF this m [unfolded py_make_request_def]] m c
  show "client_same L c0 (snd (py_make_request L data c))"
    by (auto simp: client_typed_def client_ready_def client_identity_def split: sum.splits)
qed

lemma py_run_same:
  assumes "crypto_lengths (l_crypto L)" and "client_same L c0 c"
  shows "client_same L c0 (py_run L as c)"
  using assms(2)
proof (induction as arbitrary: c)
  case (Cons a as)
  have "client_same L c0 (py_step L a c)"
    using preservesD [OF handle_message_preserves [OF assms(1)] Cons.prems] preservesD [OF make_request_preserves Cons.prems]
      Cons.prems by (cases a) (simp_all add: py_step_def)
  then show ?case using Cons.IH by (simp add: py_run_def)
qed (simp add: py_run_def)

text \<open>What a request can come to, by whether there are session keys.\<close>

lemma typed_request:
  assumes "crypto_correct (l_crypto L)" and "client_typed L c"
  shows "if cl_out_symmetric_key c = []
    then py_make_request L data c = (Inl (RuntimeError ''No or invalid keys; issue a key request first''), c)
    else (\<exists>m iv. py_make_request L data c = (Inr m, c\<lparr>cl_dynamic_iv := iv\<rparr>) \<and> length m \<le> MAX_REQUEST_SIZE)
      \<or> (\<exists>e. py_make_request L data c = (Inl (OutputBufferTooSmallError e), c))"
proof (cases "cl_out_symmetric_key c = []")
  case True
  then show ?thesis
    by (simp add: py_make_request_def Client_MakeRequest_def cbind_def Client_SealRequest_def SYMMETRIC_KEY_SIZE_def)
next
  case False
  have C: "crypto_lengths (l_crypto L)" "aead_correct (l_crypto L)" using assms(1) by (simp_all add: crypto_correct_def)
  have r: "client_ready L c" and k: "length (cl_out_symmetric_key c) = SYMMETRIC_KEY_SIZE" "length (cl_static_iv c) = IV_SIZE"
    using assms(2) False by (auto simp: client_typed_def)
  have pk: "length (cl_public_key c) = KEY_SIZE" and iv: "length (cl_dynamic_iv c) = IV_SIZE"
    using r C(1) by (auto simp: client_ready_def crypto_lengths_def)
  have x: "length (map2 (XOR) (cl_static_iv c) (cl_dynamic_iv c)) = IV_SIZE" using k iv by simp
  obtain iv' where inc: "IncrementIV (cl_dynamic_iv c) = Inr iv'" using iv by (auto simp: IncrementIV_def)
  obtain fb where "Client_SealRequest L c data MAX_REQUEST_SIZE = WriteMessage fb MAX_REQUEST_SIZE"
    using pk k iv by (simp add: Client_SealRequest_def xor_ivs_ok Encrypt_ok [OF C(2) k(1) x])
  then show ?thesis
    using False inc by (auto simp: py_make_request_def Client_MakeRequest_def cbind_def cthen_def WriteMessage_def)
qed

text \<open>
  C22: a client stays well-formed. After any sequence of calls on a new client, with any bytes from the
  network, also malformed ones and ones that make a call fail, its key and its identity are those it was made with, the
  session keys and IVs have their sizes or are all absent, and making a request either succeeds, is
  refused for lack of keys, or fails because the message does not fit; it is never undefined behaviour
  and no crypto call is made with a buffer of the wrong size.
\<close>

theorem client_always_well_formed:
  assumes "crypto_correct (l_crypto L)"
    and "py_client_init L pv cv pem enclave_hash service_id allow_debug w = (Inr c0, w')"
  shows "let c = py_run L as c0
    in client_typed L c \<and> client_identity c = client_identity c0
     \<and> (if cl_out_symmetric_key c = []
        then py_make_request L data c = (Inl (RuntimeError ''No or invalid keys; issue a key request first''), c)
        else (\<exists>m iv. py_make_request L data c = (Inr m, c\<lparr>cl_dynamic_iv := iv\<rparr>) \<and> length m \<le> MAX_REQUEST_SIZE)
          \<or> (\<exists>e. py_make_request L data c = (Inl (OutputBufferTooSmallError e), c)))"
proof -
  have C: "crypto_lengths (l_crypto L)" using assms(1) by (simp add: crypto_correct_def)
  obtain kp w1 where kp: "RandomKeyProvider_Create pv cv KEY_SIZE () w = (Inr kp, w1)" "kp_sized KEY_SIZE kp"
    using RandomKeyProvider_Create_ok [of pv cv KEY_SIZE "()" w] by (elim exE conjE) (rule that)
  obtain h i where n: "Client_new L (Some kp) pem h i allow_debug w1 = (Inr c0, w')"
    using assms(2) kp(1) by (auto simp: py_client_init_def split: sum.splits prod.splits)
  have r: "client_ready L c0" by (rule Client_new_ready [OF C _ n]) (use kp(2) in \<open>simp add: kp_sized_def\<close>)
  have "cl_in_symmetric_key c0 = [] \<and> cl_out_symmetric_key c0 = [] \<and> cl_static_iv c0 = []"
    using n by (auto simp: Client_new_def rbind_Inr_iff split: prod.splits)
  with r have "client_same L c0 c0" by (simp add: client_typed_def)
  from py_run_same [OF C this, of as] typed_request [OF assms(1), of "py_run L as c0" data] show ?thesis
    by (simp add: Let_def)
qed

lemma sample_py_init:
  "\<exists>c w'. py_client_init sample_host_libs 0 0 [] [] [] False sample_world = (Inr c, w')"
  using py_client_expects_identity [of sample_host_libs 0 0 "[]" "[]" "[]" False sample_world]
    sample_linked
  by (auto simp: linked_def crypto_correct_def Buffer2Hex_def)

theorem client_always_well_formed_witness:
  "\<exists>c0 w' c. py_client_init sample_host_libs 0 0 [] [] [] False sample_world = (Inr c0, w')
     \<and> c = py_run sample_host_libs [Py_handle_message [1, 2, 3], Py_make_request [4]] c0 \<and> client_typed sample_host_libs c"
proof -
  obtain c0 w' where i: "py_client_init sample_host_libs 0 0 [] [] [] False sample_world = (Inr c0, w')"
    using sample_py_init by blast
  have C: "crypto_correct (l_crypto sample_host_libs)" using sample_linked by (simp add: linked_def)
  show ?thesis
    using client_always_well_formed [OF C i, of "[Py_handle_message [1, 2, 3], Py_make_request [4]]" "[5]"] i
    by (auto simp: Let_def)
qed

end
