(* ===== verification/Python_Client.thy ===== *)
theory Python_Client
  imports Host_Http Client_Binding
begin

text \<open>
  The client that users run, \<^verbatim>\<open>client/python/confonnx/client.py\<close>, on top of the extension module: it exchanges keys when
  its key is outdated, sends requests over HTTP, and repeats a request once when the server no longer knows its key. The
  request and the response are the bytes that protobuf reads and writes; console output is left out. The network is any function:
  the theory shows what the client can rely on when nobody between it and the enclave is trusted.
\<close>

section \<open>Errors and state\<close>

text \<open>
  The exceptions of the C++ module keep their identity. The error code of a \<open>RequestError\<close> is \<open>None\<close> for \<^verbatim>\<open>"N/A"\<close>.
\<close>

datatype py_error =
    Cpp_error exn
  | RequestError http_status bytes "int option"
  | KeyError
  | IndexError
  | ValueError string
  | AssertionError
  | ConnectionError
  | Py_RuntimeError
  | NotImplementedError
  | UnicodeError
  | DecodeError
  | FileNotFoundError
  | TypeError
  | Parser_error string

record 'c py_client =
  pc_url :: string
  pc_key_outdated :: bool
  pc_key_rollover_count :: int
  pc_key_invalid_count :: int
  pc_client :: "'c client"
  pc_auth :: "string option"

text \<open>
  \<open>py_error_code\<close> is \<^verbatim>\<open>json.loads\<close> with the selection of the two members: \<open>None\<close> when the text is no JSON, \<open>Some None\<close> when it
  lacks them. \<open>py_basic_auth\<close> is the header value of \<^verbatim>\<open>HTTPBasicAuth\<close>.
\<close>

record py_libs =
  py_error_code :: "bytes \<Rightarrow> int option option"
  py_basic_auth :: "string \<Rightarrow> string \<Rightarrow> string"

type_synonym 'w py_net = "string \<Rightarrow> http_fields \<Rightarrow> bytes \<Rightarrow> ('w, py_error, http_status \<times> bytes) comp"
type_synonym ('c, 'w, 'a) py_comp = "('c py_client \<times> 'w, py_error, 'a) comp"

definition REQUEST_HEADERS :: http_fields where
  "REQUEST_HEADERS = [(''Content-Type'', ''application/octet-stream''), (''Accept'', ''application/octet-stream'')]"

definition PREDICT_URL_PATH :: string where "PREDICT_URL_PATH = ''score''"
definition MODEL_KEY_PROVISIONING_URL_PATH :: string where "MODEL_KEY_PROVISIONING_URL_PATH = ''provisionModelKey''"

section \<open>Construction\<close>

definition HTTPBearerKeyAuth :: "string \<Rightarrow> string" where
  "HTTPBearerKeyAuth key = ''Bearer '' @ key"

definition py_auth :: "py_libs \<Rightarrow> str_map \<Rightarrow> py_error + string option" where
  "py_auth P auth =
     (if auth = [] then Inr None
      else case map_of auth ''key'' of
             Some key \<Rightarrow> Inr (Some (HTTPBearerKeyAuth key))
           | None \<Rightarrow>
               (case (map_of auth ''user'', map_of auth ''pass'') of
                  (Some user, Some pass) \<Rightarrow> Inr (Some (py_basic_auth P user pass))
                | _ \<Rightarrow> Inl (ValueError ''unknown auth type'')))"

definition py_Client_new ::
    "py_libs \<Rightarrow> libs \<Rightarrow> u32 \<Rightarrow> u32 \<Rightarrow> string \<Rightarrow> str_map \<Rightarrow> string option \<Rightarrow> string option \<Rightarrow> string option \<Rightarrow> bool
       \<Rightarrow> 'w world_scheme \<Rightarrow> (py_error + unit py_client) \<times> 'w world_scheme" where
  "py_Client_new P L pv cv url auth enclave_signing_key enclave_hash enclave_model_hash enclave_allow_debug w =
     (if url = [] then (Inl IndexError, w)
      else
        let url = (if last url \<noteq> CHR ''/'' then url @ ''/'' else url);
            enclave_service_id = (case enclave_model_hash of Some i \<Rightarrow> i | None \<Rightarrow> []);
            enclave_signing_key = (case enclave_signing_key of Some k \<Rightarrow> k | None \<Rightarrow> []);
            enclave_hash = (case enclave_hash of Some k \<Rightarrow> k | None \<Rightarrow> [])
        in case py_client_init L pv cv enclave_signing_key enclave_hash enclave_service_id enclave_allow_debug w of
             (Inl e, w') \<Rightarrow> (Inl (Cpp_error e), w')
           | (Inr c, w') \<Rightarrow>
               (rbind (py_auth P auth) (\<lambda>a.
                  Inr \<lparr>pc_url = url, pc_key_outdated = True, pc_key_rollover_count = - 1, pc_key_invalid_count = 0,
                       pc_client = c, pc_auth = a\<rparr>), w'))"

section \<open>Requests\<close>

definition RequestError_new :: "py_libs \<Rightarrow> http_status \<Rightarrow> bytes \<Rightarrow> py_error" where
  "RequestError_new P status response_text =
     (case py_error_code P response_text of
        None \<Rightarrow> RequestError status response_text None
      | Some None \<Rightarrow> KeyError
      | Some (Some code) \<Rightarrow> RequestError status response_text (Some code))"

text \<open>\<^verbatim>\<open>raise_for_status\<close> raises for the statuses from 400 to 599.\<close>

definition do_request :: "py_libs \<Rightarrow> 'w py_net \<Rightarrow> string \<Rightarrow> bytes \<Rightarrow> string option \<Rightarrow> ('w, py_error, bytes) comp" where
  "do_request P net url data auth =
     cbind (net url (REQUEST_HEADERS @ (case auth of None \<Rightarrow> [] | Some a \<Rightarrow> [(''Authorization'', a)])) data)
       (\<lambda>(status, content).
         if 400 \<le> status \<and> status < 600 then cthrow (RequestError_new P status content) else cret content)"

definition on_module :: "('c, 'a) cl_comp \<Rightarrow> ('c, 'w, 'a) py_comp" where
  "on_module m = (\<lambda>(k, w). case m (pc_client k) of
       (Inl e, c) \<Rightarrow> (Inl (Cpp_error e), (k\<lparr>pc_client := c\<rparr>, w))
     | (Inr x, c) \<Rightarrow> (Inr x, (k\<lparr>pc_client := c\<rparr>, w)))"

definition send_request :: "py_libs \<Rightarrow> 'w py_net \<Rightarrow> bytes \<Rightarrow> string \<Rightarrow> ('c, 'w, bytes) py_comp" where
  "send_request P net data url_path = (\<lambda>(k, w).
     case do_request P net (pc_url k @ url_path) data (pc_auth k) w of (r, w') \<Rightarrow> (r, (k, w')))"

definition request_key_if_outdated :: "py_libs \<Rightarrow> libs \<Rightarrow> 'w py_net \<Rightarrow> bool \<Rightarrow> ('c, 'w, unit) py_comp" where
  "request_key_if_outdated P L net force =
     cbind (cget (\<lambda>(k, w). pc_key_outdated k)) (\<lambda>key_outdated.
       if key_outdated \<or> force
       then cbind (on_module (\<lambda>c. (py_make_key_request L c, c))) (\<lambda>req_msg.
            cbind (send_request P net req_msg PREDICT_URL_PATH) (\<lambda>resp_msg.
            cthen (on_module (py_handle_message L resp_msg))
              (cmodify (\<lambda>(k, w). (k\<lparr>pc_key_outdated := False, pc_key_rollover_count := pc_key_rollover_count k + 1\<rparr>, w)))))
       else cret ())"

definition request_once :: "py_libs \<Rightarrow> libs \<Rightarrow> 'w py_net \<Rightarrow> bytes \<Rightarrow> ('c, 'w, bytes) py_comp" where
  "request_once P L net req_data =
     cbind (on_module (py_make_request L req_data)) (\<lambda>req_msg. send_request P net req_msg PREDICT_URL_PATH)"

definition predict :: "py_libs \<Rightarrow> libs \<Rightarrow> 'w py_net \<Rightarrow> bytes \<Rightarrow> ('c, 'w, bytes) py_comp" where
  "predict P L net req_data =
     cthen (request_key_if_outdated P L net False)
     (cbind
        (ccatch (request_once P L net req_data)
           (\<lambda>e. case e of
              RequestError status text (Some code) \<Rightarrow>
                if code = 2
                then cthen (request_key_if_outdated P L net True)
                     (cbind (request_once P L net req_data) (\<lambda>resp_msg.
                      cthen (cmodify (\<lambda>(k, w). (k\<lparr>pc_key_invalid_count := pc_key_invalid_count k + 1\<rparr>, w))) (cret resp_msg)))
                else cthrow e
            | _ \<Rightarrow> cthrow e))
        (\<lambda>resp_msg.
           cbind (on_module (py_handle_message L resp_msg)) (\<lambda>resp_obj.
             if \<not> py_has_data resp_obj then cthrow AssertionError
             else
               cbind (on_module (clift (py_get_data resp_obj))) (\<lambda>resp_data.
               cbind (on_module (clift (py_is_key_outdated resp_obj))) (\<lambda>key_outdated.
               cthen (if key_outdated then cmodify (\<lambda>(k, w). (k\<lparr>pc_key_outdated := True\<rparr>, w)) else cret ())
                 (cret resp_data))))))"

text \<open>\<^verbatim>\<open>bytes.fromhex\<close>: pairs of digits, with white space between them.\<close>

fun fromhex :: "string \<Rightarrow> bytes option" where
  "fromhex [] = Some []"
| "fromhex (c # cs) =
     (if isspace c then fromhex cs
      else case cs of
             [] \<Rightarrow> None
           | d # ds \<Rightarrow>
               if is_digit_in 16 c \<and> is_digit_in 16 d
               then map_option ((#) (of_nat (digits_value 16 [c, d]))) (fromhex ds) else None)"

definition provision_model_key :: "py_libs \<Rightarrow> libs \<Rightarrow> 'w py_net \<Rightarrow> string \<Rightarrow> ('c, 'w, unit) py_comp" where
  "provision_model_key P L net key =
     cthen (request_key_if_outdated P L net False)
     (case fromhex key of
        None \<Rightarrow> cthrow (ValueError ''non-hexadecimal number found in fromhex()'')
      | Some model_key \<Rightarrow>
          cbind (on_module (py_make_request L model_key)) (\<lambda>req_msg.
          cbind (send_request P net req_msg MODEL_KEY_PROVISIONING_URL_PATH) (\<lambda>_. cret ())))"

lemma on_module_eq:
  "on_module m (k, w) = (case m (pc_client k) of
       (Inl e, c) \<Rightarrow> (Inl (Cpp_error e), (k\<lparr>pc_client := c\<rparr>, w)) | (Inr x, c) \<Rightarrow> (Inr x, (k\<lparr>pc_client := c\<rparr>, w)))"
  by (simp add: on_module_def)

section \<open>An untrusted network\<close>

text \<open>
  The host between client and enclave is not trusted. The session key of a client is missing or belongs to a key response that it
  has verified, whatever the network delivers.
\<close>

definition key_verified :: "libs \<Rightarrow> 'c client \<Rightarrow> 'c client \<Rightarrow> bool" where
  "key_verified L c0 c \<longleftrightarrow> client_identity c = client_identity c0
     \<and> (cl_in_symmetric_key c = []
        \<or> (\<exists>c1 r spublic n. client_identity c1 = client_identity c0 \<and> Client_VerifyKeyResponse L c1 r = Inr (spublic, n)
             \<and> cl_in_symmetric_key c = derived_key (l_crypto L) True
                 (EverCrypt_Curve25519_ecdh (l_crypto L) (current_key (cl_key_provider c0)) spublic)))"

lemma key_response_verified:
  assumes C: "crypto_lengths (l_crypto L)"
  shows "preserves (key_verified L c0) (Client_HandleKeyResponse L r)"
proof (rule preservesI)
  fix c assume c: "key_verified L c0 c"
  then have i: "client_identity c = client_identity c0" by (simp add: key_verified_def)
  obtain x c' where e: "Client_HandleKeyResponse L r c = (x, c')" by (metis surj_pair)
  from key_response_cases [OF C e] show "key_verified L c0 (snd (Client_HandleKeyResponse L r c))"
  proof (elim disjE exE conjE)
    fix m assume "c' = c\<lparr>cl_server_nonce := m\<rparr>"
    with c show ?thesis by (simp add: e key_verified_def client_identity_def)
  next
    fix spublic n m secret
    assume v: "Client_VerifyKeyResponse L c r = Inr (spublic, n)"
      and s: "secret = EverCrypt_Curve25519_ecdh (l_crypto L) (current_key (cl_key_provider c)) spublic"
      and c': "c' = c\<lparr>cl_server_nonce := m, cl_in_symmetric_key := derived_key (l_crypto L) True secret,
             cl_out_symmetric_key := derived_key (l_crypto L) False secret,
             cl_static_iv := derived_iv (l_crypto L) False secret, cl_key_version := kres_key_version r\<rparr>"
    have "cl_key_provider c = cl_key_provider c0" using i by (simp add: client_identity_def)
    then have "cl_in_symmetric_key c' = derived_key (l_crypto L) True
        (EverCrypt_Curve25519_ecdh (l_crypto L) (current_key (cl_key_provider c0)) spublic)" by (simp add: c' s)
    moreover have "client_identity c' = client_identity c0" using i by (simp add: c' client_identity_def)
    ultimately show ?thesis using v i unfolding key_verified_def e snd_conv by blast
  qed
qed

lemma module_verified:
  assumes "crypto_lengths (l_crypto L)"
  shows "preserves (key_verified L c0) (py_handle_message L m)" "preserves (key_verified L c0) (py_make_request L d)"
proof -
  show "preserves (key_verified L c0) (py_handle_message L m)"
    unfolding py_handle_message_def Client_HandleMessage_def
    by (auto split: option.splits Body.splits simp: key_response_verified [OF assms] intro!: preserves_cbind)
       (simp_all add: preserves_def)
  show "preserves (key_verified L c0) (py_make_request L d)"
    unfolding py_make_request_def Client_MakeRequest_def
    by (intro preserves_cbind preserves_cthen preserves_cmodify preserves_basic)
       (auto simp: preserves_def key_verified_def client_identity_def)
qed

definition client_prop :: "('c client \<Rightarrow> bool) \<Rightarrow> 'c py_client \<times> 'w \<Rightarrow> bool" where
  "client_prop I s = I (pc_client (fst s))"

lemma on_module_preserves:
  assumes "preserves I m"
  shows "preserves (client_prop I) (on_module m)"
proof (rule preservesI)
  fix s assume s: "client_prop I s"
  obtain k w where kw: "s = (k, w)" by (cases s)
  obtain x c where m: "m (pc_client k) = (x, c)" by (metis surj_pair)
  have "I c" using preservesD [OF assms, of "pc_client k"] s kw m by (simp add: client_prop_def)
  then show "client_prop I (snd (on_module m s))" by (cases x) (simp_all add: kw m on_module_def client_prop_def)
qed

lemma send_preserves: "preserves (client_prop I) (send_request P net data path)"
  by (auto simp: preserves_def send_request_def client_prop_def split: prod.splits)

lemma counters_preserve:
  "preserves (client_prop I) (cmodify (\<lambda>(k, w). (k\<lparr>pc_key_outdated := b\<rparr>, w)))"
  "preserves (client_prop I) (cmodify (\<lambda>(k, w). (k\<lparr>pc_key_outdated := b, pc_key_rollover_count := pc_key_rollover_count k + 1\<rparr>, w)))"
  "preserves (client_prop I) (cmodify (\<lambda>(k, w). (k\<lparr>pc_key_invalid_count := pc_key_invalid_count k + 1\<rparr>, w)))"
  by (auto simp: client_prop_def intro!: preserves_cmodify)

lemma requests_preserve:
  assumes "\<And>m. preserves I (py_handle_message L m)" and "\<And>d. preserves I (py_make_request L d)"
  shows "preserves (client_prop I) (request_key_if_outdated P L net force)"
    and "preserves (client_prop I) (request_once P L net data)"
proof -
  have k: "preserves I (\<lambda>c. (py_make_key_request L c, c))" by (simp add: preserves_def)
  show "preserves (client_prop I) (request_key_if_outdated P L net force)"
    unfolding request_key_if_outdated_def
    by (intro preserves_cbind preserves_cthen preserves_if preserves_basic on_module_preserves assms k send_preserves counters_preserve)
  show "preserves (client_prop I) (request_once P L net data)"
    unfolding request_once_def by (intro preserves_cbind on_module_preserves assms send_preserves)
qed

text \<open>Data come only from a response that decrypts.\<close>

lemma key_response_result: "Client_HandleKeyResponse L r c = (Inr x, c') \<Longrightarrow> x = Result_KeyResponse"
  by (auto simp: Client_HandleKeyResponse_def cbind_Inr_iff cthen_Inr_iff cret_def Result_CreateKeyResponse_def)

lemma response_decrypted:
  assumes "py_handle_message L m c = (Inr (Result_Response out o1), c2)"
  shows "\<exists>iv tag ct ad. c2 = c \<and> Decrypt (l_crypto L) (cl_in_symmetric_key c) iv tag ct ad (replicate (length ct) 0) = Inr out"
proof -
  obtain msg where m: "fb_decode (l_fb L) m = Some msg" and v: "msg_version msg = Version_v1"
    using assms by (auto simp: py_handle_message_def Client_HandleMessage_def cthrow_def split: option.splits if_splits)
  show ?thesis
  proof (cases "msg_body msg")
    case (Body_KeyResponse r)
    with assms m v show ?thesis
      by (auto simp: py_handle_message_def Client_HandleMessage_def cbind_Inr_iff dest: key_response_result)
  next
    case (Body_Response r)
    with assms m v have e: "rbind (deref r) (\<lambda>q. Client_HandleResponse L c q) = Inr (Result_Response out o1) \<and> c = c2"
      by (auto simp: py_handle_message_def Client_HandleMessage_def)
    then obtain q where "Client_HandleResponse L c q = Inr (Result_Response out o1)" by (auto simp only: rbind_Inr_iff)
    then have "\<exists>iv tag ct ad. Decrypt (l_crypto L) (cl_in_symmetric_key c) iv tag ct ad (replicate (length ct) 0) = Inr out"
      unfolding Client_HandleResponse_def Result_CreateResponse_def Let_def rbind_Inr_iff
      by (elim exE conjE) (auto simp: rbind_Inr_iff split: if_splits)
    with e show ?thesis by blast
  qed (use assms m v in \<open>auto simp: py_handle_message_def Client_HandleMessage_def cthrow_def\<close>)
qed

lemma predict_last_step:
  assumes "\<And>m. preserves I (py_handle_message L m)" and "\<And>d. preserves I (py_make_request L d)" and "I (pc_client k)"
    and p: "predict P L net data (k, w) = (Inr out, (k', w'))"
  shows "\<exists>m c o1. I c \<and> py_handle_message L m c = (Inr (Result_Response out o1), pc_client k')"
proof -
  let ?retry = "\<lambda>e. case e of RequestError status text (Some code) \<Rightarrow>
        if code = 2
        then cthen (request_key_if_outdated P L net True)
             (cbind (request_once P L net data) (\<lambda>resp_msg.
              cthen (cmodify (\<lambda>(k, w). (k\<lparr>pc_key_invalid_count := pc_key_invalid_count k + 1\<rparr>, w))) (cret resp_msg)))
        else cthrow e
      | _ \<Rightarrow> cthrow e"
  note r = requests_preserve [OF assms(1,2)]
  have retry: "preserves (client_prop I) (?retry e)" for e
    by (auto intro!: r preserves_cbind preserves_cthen counters_preserve split: py_error.splits option.splits)
  have pre: "preserves (client_prop I) (cthen (request_key_if_outdated P L net False) (ccatch (request_once P L net data) ?retry))"
    by (intro preserves_cthen preserves_ccatch r retry)
  obtain m k1 w1 where q: "cthen (request_key_if_outdated P L net False) (ccatch (request_once P L net data) ?retry) (k, w) = (Inr m, (k1, w1))"
    and rest: "cbind (on_module (py_handle_message L m)) (\<lambda>resp_obj.
         if \<not> py_has_data resp_obj then cthrow AssertionError
         else
           cbind (on_module (clift (py_get_data resp_obj))) (\<lambda>resp_data.
           cbind (on_module (clift (py_is_key_outdated resp_obj))) (\<lambda>key_outdated.
           cthen (if key_outdated then cmodify (\<lambda>(k, w). (k\<lparr>pc_key_outdated := True\<rparr>, w)) else cret ())
             (cret resp_data)))) (k1, w1) = (Inr out, (k', w'))"
    using p unfolding predict_def by (auto simp: cthen_Inr_iff cbind_Inr_iff)
  have I1: "I (pc_client k1)" using preservesD [OF pre, of "(k, w)"] assms(3) q by (simp add: client_prop_def)
  obtain obj c2 where h: "py_handle_message L m (pc_client k1) = (Inr obj, c2)"
    using rest by (auto simp: cbind_Inr_iff on_module_eq split: prod.splits sum.splits)
  show ?thesis
  proof (cases obj)
    case Result_KeyResponse
    with h rest show ?thesis by (simp add: cbind_def on_module_eq py_has_data_def cthrow_def)
  next
    case (Result_Response d o1)
    then have "d = out" "pc_client k' = c2"
      using h rest by (auto simp: cbind_def cthen_def on_module_eq py_has_data_def clift_def cret_def cmodify_def py_get_data_def
          py_is_key_outdated_def Result_GetPayload_def Result_IsKeyOutdated_def split: if_splits)
    with h I1 Result_Response show ?thesis by blast
  qed
qed

text \<open>
  C6: the network and the host need not be trusted for the answer. Whatever they deliver, when \<^verbatim>\<open>predict\<close> of a new client returns data,
  the client has verified a key response (signature, evidence and identifier, against the identity it was made with), its
  session key is derived from the share of that response, and the data are the authenticated decryption of the answer under this key.
\<close>

theorem predict_answer_authentic:
  assumes C: "crypto_lengths (l_crypto L)" and fresh: "cl_in_symmetric_key (pc_client k) = []"
    and p: "predict P L net data (k, w) = (Inr out, (k', w'))"
  shows "\<exists>c1 r spublic n iv tag ct ad. client_identity c1 = client_identity (pc_client k)
    \<and> Client_VerifyKeyResponse L c1 r = Inr (spublic, n)
    \<and> cl_in_symmetric_key (pc_client k') = derived_key (l_crypto L) True
        (EverCrypt_Curve25519_ecdh (l_crypto L) (current_key (cl_key_provider (pc_client k))) spublic)
    \<and> Decrypt (l_crypto L) (cl_in_symmetric_key (pc_client k')) iv tag ct ad (replicate (length ct) 0) = Inr out"
proof -
  let ?I = "key_verified L (pc_client k)"
  note pres = module_verified [OF C, of "pc_client k"]
  have "?I (pc_client k)" using fresh by (simp add: key_verified_def)
  from predict_last_step [where I = ?I, OF pres this p] obtain m c o1 where kv: "?I c"
    and h: "py_handle_message L m c = (Inr (Result_Response out o1), pc_client k')" by blast
  obtain iv tag ct ad where d: "pc_client k' = c"
    "Decrypt (l_crypto L) (cl_in_symmetric_key c) iv tag ct ad (replicate (length ct) 0) = Inr out"
    using response_decrypted [OF h] by blast
  have "cl_in_symmetric_key c \<noteq> []"
    using Decrypt_key_size [OF d(2)] by (auto simp: SYMMETRIC_KEY_SIZE_def)
  with kv d show ?thesis unfolding key_verified_def by blast
qed

text \<open>
  \<^verbatim>\<open>provision_model_key\<close> never looks at the answer: with keys in place, whoever answers the HTTP request with any status below 400
  makes it return without an error, although the enclave seals an acknowledgement that the client could check.
\<close>

theorem provisioning_not_acknowledged:
  assumes "\<not> pc_key_outdated k" and "fromhex key = Some model_key"
    and "py_make_request L model_key (pc_client k) = (Inr m, c')"
    and "net (pc_url k @ ''provisionModelKey'') (REQUEST_HEADERS @ (case pc_auth k of None \<Rightarrow> [] | Some a \<Rightarrow> [(''Authorization'', a)])) m w
      = (Inr (status, anything), w')" and "status < 400"
  shows "provision_model_key P L net key (k, w) = (Inr (), (k\<lparr>pc_client := c'\<rparr>, w'))"
  using assms
  by (simp add: provision_model_key_def request_key_if_outdated_def cthen_def cbind_def cget_def cret_def on_module_eq
      send_request_def do_request_def MODEL_KEY_PROVISIONING_URL_PATH_def)

end
