(* ===== verification/Numpy_Helper.thy ===== *)
theory Numpy_Helper
  imports Executor Python_Client "HOL-Library.Multiset"
begin

text \<open>
  The conversion between numpy arrays and tensors in the Python client,
  \<^verbatim>\<open>client/python/confonnx/numpy_helper.py\<close> and \<^verbatim>\<open>mapping.py\<close>, and \<^verbatim>\<open>Client.predict\<close> with both
  conversions around it. numpy is a parameter; UTF-8 is written out.
\<close>

section \<open>UTF-8\<close>

text \<open>A Python string is a list of code points; the bytes are numbers below 256.\<close>

definition utf8_bytes :: "nat \<Rightarrow> nat list option" where
  "utf8_bytes c =
     (if c < 0x80 then Some [c]
      else if c < 0x800 then Some [0xC0 + c div 0x40, 0x80 + c mod 0x40]
      else if c < 0x10000 then
        (if 0xD800 \<le> c \<and> c < 0xE000 then None
         else Some [0xE0 + c div 0x1000, 0x80 + c div 0x40 mod 0x40, 0x80 + c mod 0x40])
      else if c < 0x110000
      then Some [0xF0 + c div 0x40000, 0x80 + c div 0x1000 mod 0x40, 0x80 + c div 0x40 mod 0x40, 0x80 + c mod 0x40]
      else None)"

definition is_continuation :: "nat \<Rightarrow> bool" where
  "is_continuation b \<longleftrightarrow> 0x80 \<le> b \<and> b < 0xC0"

fun utf8_points :: "nat list \<Rightarrow> nat list option" where
  "utf8_points [] = Some []"
| "utf8_points (b # bs) =
     (if b < 0x80 then map_option ((#) b) (utf8_points bs)
      else case bs of
        [] \<Rightarrow> None
      | b1 # bs1 \<Rightarrow>
          if \<not> is_continuation b1 then None
          else if 0xC2 \<le> b \<and> b < 0xE0
          then map_option ((#) (0x40 * (b - 0xC0) + (b1 - 0x80))) (utf8_points bs1)
          else (case bs1 of
            [] \<Rightarrow> None
          | b2 # bs2 \<Rightarrow>
              if \<not> is_continuation b2 then None
              else if 0xE0 \<le> b \<and> b < 0xF0
              then let c = 0x1000 * (b - 0xE0) + 0x40 * (b1 - 0x80) + (b2 - 0x80)
                   in if c < 0x800 \<or> 0xD800 \<le> c \<and> c < 0xE000 then None else map_option ((#) c) (utf8_points bs2)
              else (case bs2 of
                [] \<Rightarrow> None
              | b3 # bs3 \<Rightarrow>
                  if \<not> is_continuation b3 \<or> \<not> (0xF0 \<le> b \<and> b < 0xF5) then None
                  else let c = 0x40000 * (b - 0xF0) + 0x1000 * (b1 - 0x80) + 0x40 * (b2 - 0x80) + (b3 - 0x80)
                       in if c < 0x10000 \<or> 0x110000 \<le> c then None else map_option ((#) c) (utf8_points bs3))))"

definition utf8_encode :: "nat list \<Rightarrow> string option" where
  "utf8_encode s = map_option (\<lambda>bs. map char_of (concat bs)) (those (map utf8_bytes s))"

definition utf8_decode :: "string \<Rightarrow> nat list option" where
  "utf8_decode s = utf8_points (map of_char s)"

lemma utf8_points_bytes:
  assumes "utf8_bytes c = Some bs"
  shows "utf8_points (bs @ rest) = map_option ((#) c) (utf8_points rest)" and "list_all (\<lambda>b. b < 256) bs"
proof -
  have m: "x mod 0x40 < 0x40" and div_mod: "x = 0x40 * (x div 0x40) + x mod 0x40" for x :: nat by simp_all
  consider "c < 0x80" "bs = [c]"
    | "0x80 \<le> c" "c < 0x800" "bs = [0xC0 + c div 0x40, 0x80 + c mod 0x40]"
    | "0x800 \<le> c" "c < 0x10000" "\<not> (0xD800 \<le> c \<and> c < 0xE000)"
        "bs = [0xE0 + c div 0x1000, 0x80 + c div 0x40 mod 0x40, 0x80 + c mod 0x40]"
    | "0x10000 \<le> c" "c < 0x110000"
        "bs = [0xF0 + c div 0x40000, 0x80 + c div 0x1000 mod 0x40, 0x80 + c div 0x40 mod 0x40, 0x80 + c mod 0x40]"
    using assms unfolding utf8_bytes_def by (auto split: if_splits simp: not_less)
  then show "utf8_points (bs @ rest) = map_option ((#) c) (utf8_points rest)"
  proof cases
    case 2
    have "0x40 * (c div 0x40) + c mod 0x40 = c" "2 \<le> c div 0x40" "c div 0x40 < 0x20" using 2 by auto
    with 2 m [of c] show ?thesis by (simp add: is_continuation_def)
  next
    case 3
    have "c div 0x1000 = c div 0x40 div 0x40" by (simp flip: div_mult2_eq)
    then have "0x1000 * (c div 0x1000) + 0x40 * (c div 0x40 mod 0x40) + c mod 0x40 = c" "c div 0x1000 < 0x10"
      using 3 div_mod [of c] div_mod [of "c div 0x40"] by linarith+
    with 3 m [of c] m [of "c div 0x40"] show ?thesis by (auto simp: is_continuation_def)
  next
    case 4
    have "c div 0x1000 = c div 0x40 div 0x40" "c div 0x40000 = c div 0x1000 div 0x40"
      by (simp_all flip: div_mult2_eq)
    then have "0x40000 * (c div 0x40000) + 0x1000 * (c div 0x1000 mod 0x40) + 0x40 * (c div 0x40 mod 0x40) + c mod 0x40 = c"
      "c div 0x40000 < 5"
      using 4 div_mod [of c] div_mod [of "c div 0x40"] div_mod [of "c div 0x1000"] by linarith+
    with 4 m [of c] m [of "c div 0x40"] m [of "c div 0x1000"] show ?thesis by (simp add: is_continuation_def)
  qed simp
  show "list_all (\<lambda>b. b < 256) bs"
    using assms m [of c] m [of "c div 0x40"] m [of "c div 0x1000"] unfolding utf8_bytes_def
    by (auto split: if_splits simp: less_mult_imp_div_less)
qed

lemma utf8_decode_encode: "utf8_encode s = Some e \<Longrightarrow> utf8_decode e = Some s"
proof (induction s arbitrary: e)
  case Nil
  then show ?case by (simp add: utf8_encode_def utf8_decode_def)
next
  case (Cons c s)
  obtain bs e1 where c: "utf8_bytes c = Some bs" and e1: "utf8_encode s = Some e1" and e: "e = map char_of bs @ e1"
    using Cons.prems by (auto simp: utf8_encode_def split: option.splits)
  have "map (\<lambda>b. of_char (char_of b :: char)) bs = bs"
    using utf8_points_bytes(2) [OF c] by (auto simp: list_all_iff intro!: map_idI)
  with e Cons.IH [OF e1] utf8_points_bytes(1) [OF c] show ?case by (simp add: utf8_decode_def comp_def)
qed


section \<open>Types and storage (mapping.py)\<close>

datatype np_dtype =
    NP_float32 | NP_uint8 | NP_int8 | NP_uint16 | NP_int16 | NP_int32 | NP_int64 | NP_bool | NP_float16
  | NP_float64 | NP_complex64 | NP_complex128 | NP_uint32 | NP_uint64 | NP_object
  | NP_other string

definition TENSOR_TYPE_TO_NP_TYPE :: "(DataType \<times> np_dtype) list" where
  "TENSOR_TYPE_TO_NP_TYPE =
     [(FLOAT, NP_float32), (UINT8, NP_uint8), (INT8, NP_int8), (UINT16, NP_uint16), (INT16, NP_int16),
      (INT32, NP_int32), (INT64, NP_int64), (BOOL, NP_bool), (FLOAT16, NP_float16), (DOUBLE, NP_float64),
      (COMPLEX64, NP_complex64), (COMPLEX128, NP_complex128), (UINT32, NP_uint32), (UINT64, NP_uint64),
      (STRING, NP_object)]"

definition NP_TYPE_TO_TENSOR_TYPE :: "(np_dtype \<times> DataType) list" where
  "NP_TYPE_TO_TENSOR_TYPE = map (\<lambda>(k, v). (v, k)) TENSOR_TYPE_TO_NP_TYPE"

definition TENSOR_TYPE_TO_STORAGE_TENSOR_TYPE :: "(DataType \<times> DataType) list" where
  "TENSOR_TYPE_TO_STORAGE_TENSOR_TYPE =
     [(FLOAT, FLOAT), (UINT8, INT32), (INT8, INT32), (UINT16, INT32), (INT16, INT32), (INT32, INT32), (INT64, INT64),
      (BOOL, INT32), (FLOAT16, UINT16), (BFLOAT16, UINT16), (DOUBLE, DOUBLE), (COMPLEX64, FLOAT),
      (COMPLEX128, DOUBLE), (UINT32, UINT32), (UINT64, UINT64), (STRING, STRING)]"

definition STORAGE_TENSOR_TYPE_TO_FIELD :: "(DataType \<times> string) list" where
  "STORAGE_TENSOR_TYPE_TO_FIELD =
     [(FLOAT, ''float_data''), (INT32, ''int32_data''), (INT64, ''int64_data''), (UINT16, ''int32_data''),
      (DOUBLE, ''double_data''), (COMPLEX64, ''float_data''), (COMPLEX128, ''double_data''), (UINT32, ''uint64_data''),
      (UINT64, ''uint64_data''), (STRING, ''string_data''), (BOOL, ''int32_data'')]"

definition lookup :: "('k \<times> 'v) list \<Rightarrow> 'k \<Rightarrow> py_error + 'v" where
  "lookup d k = opt_or KeyError (map_of d k)"

section \<open>numpy\<close>

text \<open>
  The elements of an object array, the numbers of a repeated field (floating-point ones as bit patterns), and what
  \<^verbatim>\<open>np.asarray\<close> is given: a tuple of fields, or pairs of fields from \<^verbatim>\<open>combine_pairs_to_complex\<close>.
\<close>

datatype py_object = Py_str "nat list" | Py_ndarray "py_object list" | Py_other

datatype py_number = Py_int int | Py_float u32 | Py_double u64

datatype np_input = Fields "py_number list list" | Complex_pairs "(py_number list \<times> py_number list) list"

record 'a np_lib =
  np_dtype_of :: "'a \<Rightarrow> np_dtype"
  np_shape :: "'a \<Rightarrow> nat list"
  np_tobytes :: "'a \<Rightarrow> bytes"
  np_flatten :: "'a \<Rightarrow> py_object list"
  np_frombuffer :: "bytes \<Rightarrow> np_dtype \<Rightarrow> py_error + 'a"
  np_asarray :: "np_input \<Rightarrow> np_dtype \<Rightarrow> py_error + 'a"
  np_asarray_strings :: "nat list list \<Rightarrow> 'a"
  np_astype :: "'a \<Rightarrow> np_dtype \<Rightarrow> 'a"
  np_reshape :: "'a \<Rightarrow> int list \<Rightarrow> py_error + 'a"

section \<open>From a tensor\<close>

definition combine_pairs_to_complex :: "'x list \<Rightarrow> ('x \<times> 'x) list" where
  "combine_pairs_to_complex fa = map (\<lambda>i. (fa ! (i * 2), fa ! (i * 2 + 1))) [0..<length fa div 2]"

definition getattr :: "TensorProto \<Rightarrow> string \<Rightarrow> py_number list" where
  "getattr t storage_field =
     (if storage_field = ''float_data'' then map Py_float (tp_float_data t)
      else if storage_field = ''double_data'' then map Py_double (tp_double_data t)
      else if storage_field = ''int64_data'' then map (\<lambda>w. Py_int (sint w)) (tp_int64_data t)
      else if storage_field = ''uint64_data'' then map (\<lambda>w. Py_int (uint w)) (tp_uint64_data t)
      else map (\<lambda>w. Py_int (sint w)) (tp_int32_data t))"

definition decode_strings :: "string list \<Rightarrow> py_error + nat list list" where
  "decode_strings ss = opt_or UnicodeError (those (map utf8_decode ss))"

text \<open>
  \<^verbatim>\<open>data = getattr(tensor, storage_field),\<close> with its trailing comma makes a tuple of one field, which is what
  \<^verbatim>\<open>combine_pairs_to_complex\<close> is given, too.
\<close>

definition to_array :: "'a np_lib \<Rightarrow> TensorProto \<Rightarrow> py_error + 'a" where
  "to_array N tensor =
     (if tp_segment tensor then Inl (ValueError ''Currently not supporting loading segments.'')
      else if tp_data_type tensor = UNDEFINED then Inl (ValueError ''The data type is not defined.'')
      else
        rbind (lookup TENSOR_TYPE_TO_NP_TYPE (tp_data_type tensor)) (\<lambda>np_dtype.
        rbind (lookup TENSOR_TYPE_TO_STORAGE_TENSOR_TYPE (tp_data_type tensor)) (\<lambda>storage_type.
        rbind (lookup TENSOR_TYPE_TO_NP_TYPE storage_type) (\<lambda>storage_np_dtype.
        rbind (lookup STORAGE_TENSOR_TYPE_TO_FIELD storage_type) (\<lambda>storage_field.
          if tp_data_type tensor = STRING
          then rbind (decode_strings (tp_string_data tensor)) (\<lambda>ss.
                 np_reshape N (np_astype N (np_asarray_strings N ss) np_dtype) (tp_dims tensor))
          else if tp_raw_data tensor \<noteq> None \<and> tp_raw_data tensor \<noteq> Some []
          then rbind (np_frombuffer N (the (tp_raw_data tensor)) np_dtype) (\<lambda>a. np_reshape N a (tp_dims tensor))
          else
            let fields = [getattr tensor storage_field];
                data = (if tp_data_type tensor = COMPLEX64 \<or> tp_data_type tensor = COMPLEX128
                        then Complex_pairs (combine_pairs_to_complex fields) else Fields fields)
            in rbind (np_asarray N data storage_np_dtype) (\<lambda>a.
                 np_reshape N (np_astype N a np_dtype) (tp_dims tensor)))))))"

section \<open>From an array\<close>

definition append_string :: "nat list \<Rightarrow> TensorProto \<Rightarrow> py_error + TensorProto" where
  "append_string s t =
     rbind (opt_or UnicodeError (utf8_encode s)) (\<lambda>e. Inr (t\<lparr>tp_string_data := tp_string_data t @ [e]\<rparr>))"

fun append_nested :: "py_object list \<Rightarrow> TensorProto \<Rightarrow> py_error + TensorProto" where
  "append_nested [] t = Inr t"
| "append_nested (Py_str s # es) t = rbind (append_string s t) (append_nested es)"
| "append_nested (_ # es) t = append_nested es t"

fun append_objects :: "py_object list \<Rightarrow> TensorProto \<Rightarrow> py_error + TensorProto" where
  "append_objects [] t = Inr t"
| "append_objects (Py_str s # es) t = rbind (append_string s t) (append_objects es)"
| "append_objects (Py_ndarray ss # es) t = rbind (append_nested ss t) (append_objects es)"
| "append_objects (Py_other # es) t = Inl NotImplementedError"

definition from_array :: "'a np_lib \<Rightarrow> 'a \<Rightarrow> string \<Rightarrow> py_error + TensorProto" where
  "from_array N arr name =
     (let t = empty_TensorProto\<lparr>tp_dims := map int (np_shape N arr), tp_name := name\<rparr>
      in if np_dtype_of N arr = NP_object
         then rbind (lookup NP_TYPE_TO_TENSOR_TYPE (np_dtype_of N arr)) (\<lambda>ty.
                append_objects (np_flatten N arr) (t\<lparr>tp_data_type := ty\<rparr>))
         else case map_of NP_TYPE_TO_TENSOR_TYPE (np_dtype_of N arr) of
                None \<Rightarrow> Inl Py_RuntimeError
              | Some dtype \<Rightarrow> Inr (t\<lparr>tp_data_type := dtype, tp_raw_data := Some (np_tobytes N arr)\<rparr>))"

lemmas np_tables = TENSOR_TYPE_TO_NP_TYPE_def NP_TYPE_TO_TENSOR_TYPE_def TENSOR_TYPE_TO_STORAGE_TENSOR_TYPE_def
  STORAGE_TENSOR_TYPE_TO_FIELD_def lookup_def

section \<open>What the client relies on of numpy\<close>

fun np_itemsize :: "np_dtype \<Rightarrow> nat option" where
  "np_itemsize NP_float32 = Some 4"
| "np_itemsize NP_uint8 = Some 1"
| "np_itemsize NP_int8 = Some 1"
| "np_itemsize NP_uint16 = Some 2"
| "np_itemsize NP_int16 = Some 2"
| "np_itemsize NP_int32 = Some 4"
| "np_itemsize NP_int64 = Some 8"
| "np_itemsize NP_bool = Some 1"
| "np_itemsize NP_float16 = Some 2"
| "np_itemsize NP_float64 = Some 8"
| "np_itemsize NP_complex64 = Some 8"
| "np_itemsize NP_complex128 = Some 16"
| "np_itemsize NP_uint32 = Some 4"
| "np_itemsize NP_uint64 = Some 8"
| "np_itemsize _ = None"

text \<open>The numbers of an array, from the elements its bytes hold.\<close>

definition signed_of :: "nat \<Rightarrow> nat \<Rightarrow> int" where
  "signed_of k e = (if e < 2 ^ (8 * k - 1) then int e else int e - 2 ^ (8 * k))"

fun np_number :: "np_dtype \<Rightarrow> nat \<Rightarrow> py_number" where
  "np_number NP_float32 e = Py_float (word_of_nat e)"
| "np_number NP_float64 e = Py_double (word_of_nat e)"
| "np_number NP_int8 e = Py_int (signed_of 1 e)"
| "np_number NP_int16 e = Py_int (signed_of 2 e)"
| "np_number NP_int32 e = Py_int (signed_of 4 e)"
| "np_number NP_int64 e = Py_int (signed_of 8 e)"
| "np_number _ e = Py_int (int e)"

definition np_elements :: "'a np_lib \<Rightarrow> 'a \<Rightarrow> nat list" where
  "np_elements N a = elements (the (np_itemsize (np_dtype_of N a))) (prod_list (np_shape N a)) (np_tobytes N a)"

definition np_numbers :: "'a np_lib \<Rightarrow> 'a \<Rightarrow> py_number list" where
  "np_numbers N a = map (np_number (np_dtype_of N a)) (np_elements N a)"

text \<open>
  The numbers that an array of a type can hold without a change: integers in the range of the type, and floating-point numbers of its
  own precision. A conversion makes a quiet NaN of a signalling one. Of half precision, and of complex numbers, nothing is said.
\<close>

fun np_range :: "np_dtype \<Rightarrow> (int \<times> int) option" where
  "np_range NP_bool = Some (0, 1)"
| "np_range NP_uint8 = Some (0, 2 ^ 8 - 1)"
| "np_range NP_uint16 = Some (0, 2 ^ 16 - 1)"
| "np_range NP_uint32 = Some (0, 2 ^ 32 - 1)"
| "np_range NP_uint64 = Some (0, 2 ^ 64 - 1)"
| "np_range NP_int8 = Some (- (2 ^ 7), 2 ^ 7 - 1)"
| "np_range NP_int16 = Some (- (2 ^ 15), 2 ^ 15 - 1)"
| "np_range NP_int32 = Some (- (2 ^ 31), 2 ^ 31 - 1)"
| "np_range NP_int64 = Some (- (2 ^ 63), 2 ^ 63 - 1)"
| "np_range _ = None"

definition signalling :: "nat \<Rightarrow> nat \<Rightarrow> nat \<Rightarrow> bool" where
  "signalling exponent_bits mantissa_bits w \<longleftrightarrow>
     (w div 2 ^ mantissa_bits) mod 2 ^ exponent_bits = 2 ^ exponent_bits - 1
   \<and> 0 < w mod 2 ^ mantissa_bits \<and> w mod 2 ^ mantissa_bits < 2 ^ (mantissa_bits - 1)"

fun np_holds :: "np_dtype \<Rightarrow> py_number \<Rightarrow> bool" where
  "np_holds d (Py_int i) = (case np_range d of None \<Rightarrow> False | Some (lo, hi) \<Rightarrow> lo \<le> i \<and> i \<le> hi)"
| "np_holds d (Py_float w) = (d = NP_float32 \<and> \<not> signalling 8 23 (unat w))"
| "np_holds d (Py_double w) = (d = NP_float64 \<and> \<not> signalling 11 52 (unat w))"

text \<open>
  What the functions of numpy do, of an array of numbers in terms of its type, its shape and its bytes, which make up the array: \<^verbatim>\<open>reshape\<close>
  keeps the contents when the sizes agree, \<^verbatim>\<open>frombuffer\<close> takes the bytes as they are, \<^verbatim>\<open>asarray\<close> of a
  tuple of one list is a matrix of one row with its numbers when the given type can hold them, and so is \<^verbatim>\<open>astype\<close>. Of an array
  of objects, its shape and its elements make up the array. The type that \<^verbatim>\<open>np.asarray\<close> gives to a list of strings
  has a fixed width and pads with the null character, so a string that ends in one is excepted.
\<close>

definition numpy_ok :: "'a np_lib \<Rightarrow> bool" where
  "numpy_ok N \<longleftrightarrow>
     (\<forall>a k. np_itemsize (np_dtype_of N a) = Some k \<longrightarrow> length (np_tobytes N a) = k * prod_list (np_shape N a))
   \<and> (\<forall>a. np_dtype_of N a = NP_object \<longrightarrow> length (np_flatten N a) = prod_list (np_shape N a))
   \<and> (\<forall>a b. np_itemsize (np_dtype_of N a) \<noteq> None \<and> np_dtype_of N b = np_dtype_of N a \<and> np_shape N b = np_shape N a
        \<and> np_tobytes N b = np_tobytes N a \<longrightarrow> b = a)
   \<and> (\<forall>a b. np_dtype_of N a = NP_object \<and> np_dtype_of N b = NP_object \<and> np_shape N b = np_shape N a
        \<and> np_flatten N b = np_flatten N a \<longrightarrow> b = a)
   \<and> (\<forall>a dims. prod_list dims = prod_list (np_shape N a) \<longrightarrow> (\<exists>b. np_reshape N a (map int dims) = Inr b \<and> np_shape N b = dims
        \<and> np_dtype_of N b = np_dtype_of N a \<and> np_tobytes N b = np_tobytes N a \<and> np_flatten N b = np_flatten N a))
   \<and> (\<forall>bs d k n. np_itemsize d = Some k \<and> bs \<noteq> [] \<and> length bs = k * n \<longrightarrow>
        (\<exists>b. np_frombuffer N bs d = Inr b \<and> np_dtype_of N b = d \<and> np_shape N b = [n] \<and> np_tobytes N b = bs))
   \<and> (\<forall>xs d. np_itemsize d \<noteq> None \<and> list_all (np_holds d) xs \<longrightarrow>
        (\<exists>b. np_asarray N (Fields [xs]) d = Inr b \<and> np_dtype_of N b = d \<and> np_shape N b = [1, length xs] \<and> np_numbers N b = xs))
   \<and> (\<forall>a d. np_itemsize (np_dtype_of N a) \<noteq> None \<and> np_itemsize d \<noteq> None
        \<and> list_all (np_holds (np_dtype_of N a)) (np_numbers N a) \<and> list_all (np_holds d) (np_numbers N a) \<longrightarrow>
        np_dtype_of N (np_astype N a d) = d \<and> np_shape N (np_astype N a d) = np_shape N a
        \<and> np_numbers N (np_astype N a d) = np_numbers N a)
   \<and> (\<forall>ss. list_all (\<lambda>s. s = [] \<or> last s \<noteq> 0) ss \<longrightarrow>
        np_dtype_of N (np_astype N (np_asarray_strings N ss) NP_object) = NP_object
        \<and> np_shape N (np_astype N (np_asarray_strings N ss) NP_object) = [length ss]
        \<and> np_flatten N (np_astype N (np_asarray_strings N ss) NP_object) = map Py_str ss)"

lemma numpy_okD:
  assumes "numpy_ok N"
  shows "np_itemsize (np_dtype_of N a) = Some k \<Longrightarrow> length (np_tobytes N a) = k * prod_list (np_shape N a)"
    and "np_dtype_of N a = NP_object \<Longrightarrow> length (np_flatten N a) = prod_list (np_shape N a)"
    and "np_itemsize (np_dtype_of N a) \<noteq> None \<Longrightarrow> np_dtype_of N b = np_dtype_of N a \<Longrightarrow> np_shape N b = np_shape N a
        \<Longrightarrow> np_tobytes N b = np_tobytes N a \<Longrightarrow> b = a"
    and "np_dtype_of N a = NP_object \<Longrightarrow> np_dtype_of N b = NP_object \<Longrightarrow> np_shape N b = np_shape N a
        \<Longrightarrow> np_flatten N b = np_flatten N a \<Longrightarrow> b = a"
    and "prod_list dims = prod_list (np_shape N a) \<Longrightarrow> \<exists>b. np_reshape N a (map int dims) = Inr b \<and> np_shape N b = dims
        \<and> np_dtype_of N b = np_dtype_of N a \<and> np_tobytes N b = np_tobytes N a \<and> np_flatten N b = np_flatten N a"
    and "np_itemsize d = Some k \<Longrightarrow> bs \<noteq> [] \<Longrightarrow> length bs = k * n \<Longrightarrow>
        \<exists>b. np_frombuffer N bs d = Inr b \<and> np_dtype_of N b = d \<and> np_shape N b = [n] \<and> np_tobytes N b = bs"
    and "np_itemsize d \<noteq> None \<Longrightarrow> list_all (np_holds d) xs \<Longrightarrow>
        \<exists>b. np_asarray N (Fields [xs]) d = Inr b \<and> np_dtype_of N b = d \<and> np_shape N b = [1, length xs] \<and> np_numbers N b = xs"
    and "np_itemsize (np_dtype_of N a) \<noteq> None \<Longrightarrow> np_itemsize d \<noteq> None
        \<Longrightarrow> list_all (np_holds (np_dtype_of N a)) (np_numbers N a) \<Longrightarrow> list_all (np_holds d) (np_numbers N a) \<Longrightarrow>
        np_dtype_of N (np_astype N a d) = d \<and> np_shape N (np_astype N a d) = np_shape N a
        \<and> np_numbers N (np_astype N a d) = np_numbers N a"
    and "list_all (\<lambda>s. s = [] \<or> last s \<noteq> 0) ss \<Longrightarrow>
        np_dtype_of N (np_astype N (np_asarray_strings N ss) NP_object) = NP_object
        \<and> np_shape N (np_astype N (np_asarray_strings N ss) NP_object) = [length ss]
        \<and> np_flatten N (np_astype N (np_asarray_strings N ss) NP_object) = map Py_str ss"
  using assms unfolding numpy_ok_def by blast+

section \<open>Arrays of numbers\<close>

lemma signed_of_mod: "e < 256 ^ k \<Longrightarrow> signed_of k e mod 256 ^ k = int e"
proof -
  assume e: "e < 256 ^ k"
  have p: "(256 :: int) ^ k = 2 ^ (8 * k)" by (simp add: power_mult)
  have "int e < int (256 ^ k)" using e by (simp only: of_nat_less_iff)
  then have m: "int e mod 256 ^ k = int e" by (intro mod_pos_pos_trivial) simp_all
  show "signed_of k e mod 256 ^ k = int e"
  proof (cases "e < 2 ^ (8 * k - 1)")
    case True
    with m show ?thesis by (simp only: signed_of_def if_True)
  next
    case False
    then have "signed_of k e = int e - 256 ^ k" by (simp only: signed_of_def if_False p)
    then show ?thesis by (simp only: minus_mod_self2 m)
  qed
qed

lemma signed_of_inj: "e < 256 ^ k \<Longrightarrow> e' < 256 ^ k \<Longrightarrow> signed_of k e = signed_of k e' \<Longrightarrow> e = e'"
  by (metis signed_of_mod of_nat_eq_iff)

lemma np_number_inj:
  assumes "np_itemsize d = Some k" and "e < 256 ^ k" and "e' < 256 ^ k" and "np_number d e = np_number d e'"
  shows "e = e'"
proof -
  have w: "e = e'" if "(word_of_nat e :: 'n::len word) = word_of_nat e'" "(256 :: nat) ^ k \<le> 2 ^ LENGTH('n)"
  proof -
    have "e < 2 ^ LENGTH('n)" "e' < 2 ^ LENGTH('n)" using that(2) assms(2,3) by linarith+
    then have "unat (word_of_nat e :: 'n word) = e" "unat (word_of_nat e' :: 'n word) = e'"
      by (simp_all add: unsigned_of_nat take_bit_nat_eq_self)
    with that(1) show ?thesis by metis
  qed
  show ?thesis
    using assms signed_of_inj [of e 1 e'] signed_of_inj [of e 2 e'] signed_of_inj [of e 4 e'] signed_of_inj [of e 8 e']
    by (cases d) (auto intro: w [where 'n = 32] w [where 'n = 64])
qed

text \<open>An array is determined by its type, its shape and its numbers.\<close>

lemma array_eqI:
  assumes N: "numpy_ok N" and k: "np_itemsize (np_dtype_of N a) = Some k"
    and b: "np_dtype_of N b = np_dtype_of N a" "np_shape N b = np_shape N a" "np_numbers N b = np_numbers N a"
  shows "b = a"
proof -
  have l: "length (np_tobytes N a) = k * prod_list (np_shape N a)" "length (np_tobytes N b) = k * prod_list (np_shape N a)"
    using numpy_okD(1) [OF N] k b by simp_all
  have e: "np_elements N a = elements k (prod_list (np_shape N a)) (np_tobytes N a)"
    "np_elements N b = elements k (prod_list (np_shape N a)) (np_tobytes N b)"
    using k b by (simp_all add: np_elements_def)
  have "inj_on (np_number (np_dtype_of N a)) (set (np_elements N b) \<union> set (np_elements N a))"
    by (intro inj_onI, rule np_number_inj [OF k])
       (use elements_bound [OF l(1)] elements_bound [OF l(2)] e in auto)
  with b(1,3) have "np_elements N b = np_elements N a" by (simp add: np_numbers_def inj_on_map_eq_map)
  with e concat_elements [OF l(1)] concat_elements [OF l(2)] have "np_tobytes N b = np_tobytes N a" by metis
  with numpy_okD(3) [OF N] k b show ?thesis by simp
qed

lemma array_from_bytes:
  assumes N: "numpy_ok N" and k: "np_itemsize (np_dtype_of N a) = Some k" and bs: "np_tobytes N a \<noteq> []"
  shows "rbind (np_frombuffer N (np_tobytes N a) (np_dtype_of N a)) (\<lambda>b. np_reshape N b (map int (np_shape N a))) = Inr a"
proof -
  obtain b where b: "np_frombuffer N (np_tobytes N a) (np_dtype_of N a) = Inr b" "np_dtype_of N b = np_dtype_of N a"
    "np_shape N b = [prod_list (np_shape N a)]" "np_tobytes N b = np_tobytes N a"
    using numpy_okD(6) [OF N k bs numpy_okD(1) [OF N k]] by blast
  moreover obtain c where "np_reshape N b (map int (np_shape N a)) = Inr c" "np_shape N c = np_shape N a"
    "np_dtype_of N c = np_dtype_of N b" "np_tobytes N c = np_tobytes N b"
    using numpy_okD(5) [OF N, of "np_shape N a" b] b(3) by auto
  ultimately show ?thesis using numpy_okD(3) [OF N, of a c] k by simp
qed

text \<open>A list of numbers, stored as one type and converted to another.\<close>

lemma array_from_numbers:
  assumes N: "numpy_ok N" and k: "np_itemsize (np_dtype_of N a) = Some k" and st: "np_itemsize st \<noteq> None"
    and h: "list_all (np_holds st) (np_numbers N a)" "list_all (np_holds (np_dtype_of N a)) (np_numbers N a)"
  shows "rbind (np_asarray N (Fields [np_numbers N a]) st)
    (\<lambda>b. np_reshape N (np_astype N b (np_dtype_of N a)) (map int (np_shape N a))) = Inr a"
proof -
  obtain b where b: "np_asarray N (Fields [np_numbers N a]) st = Inr b" "np_dtype_of N b = st"
    "np_shape N b = [1, length (np_numbers N a)]" "np_numbers N b = np_numbers N a"
    using numpy_okD(7) [OF N st h(1)] by blast
  let ?c = "np_astype N b (np_dtype_of N a)"
  have c: "np_dtype_of N ?c = np_dtype_of N a" "np_shape N ?c = np_shape N b" "np_numbers N ?c = np_numbers N a"
    using numpy_okD(8) [OF N, of b "np_dtype_of N a"] b st k h by simp_all
  have len: "length (np_numbers N a) = prod_list (np_shape N a)" by (simp add: np_numbers_def np_elements_def)
  obtain x where x: "np_reshape N ?c (map int (np_shape N a)) = Inr x" "np_shape N x = np_shape N a"
    "np_dtype_of N x = np_dtype_of N ?c" "np_tobytes N x = np_tobytes N ?c"
    using numpy_okD(5) [OF N, of "np_shape N a" ?c] b(3) c(2) len by auto
  have "np_numbers N x = np_numbers N ?c"
    using x(2-4) b(3) c(2) len by (simp add: np_numbers_def np_elements_def)
  with array_eqI [OF N k, of x] x c b(1) show ?thesis by simp
qed

text \<open>The numeric types that the server unpacks, all but the complex ones.\<close>

definition served_dtype :: "np_dtype \<Rightarrow> bool" where
  "served_dtype d \<longleftrightarrow> np_itemsize d \<noteq> None \<and> d \<noteq> NP_complex64 \<and> d \<noteq> NP_complex128"

definition tensor_type :: "np_dtype \<Rightarrow> DataType" where
  "tensor_type d = the (map_of NP_TYPE_TO_TENSOR_TYPE d)"

definition storage_type :: "np_dtype \<Rightarrow> DataType" where
  "storage_type d = the (map_of TENSOR_TYPE_TO_STORAGE_TENSOR_TYPE (tensor_type d))"

lemma served_dtype_tables:
  assumes "served_dtype d"
  shows "map_of NP_TYPE_TO_TENSOR_TYPE d = Some (tensor_type d)" and "d \<noteq> NP_object"
    and "map_of TENSOR_TYPE_TO_NP_TYPE (tensor_type d) = Some d"
    and "type_size T (tensor_type d) = np_itemsize d"
    and "MLDataTypeToTensorProtoDataType (CApiElementTypeFromProtoType (tensor_type d)) = tensor_type d"
    and "tensor_type d \<noteq> STRING" and "tensor_type d \<noteq> UNDEFINED"
    and "tensor_type d \<noteq> COMPLEX64 \<and> tensor_type d \<noteq> COMPLEX128"
    and "map_of TENSOR_TYPE_TO_STORAGE_TENSOR_TYPE (tensor_type d) = Some (storage_type d)"
    and "\<exists>st. map_of TENSOR_TYPE_TO_NP_TYPE (storage_type d) = Some st \<and> np_itemsize st \<noteq> None"
    and "\<exists>f. map_of STORAGE_TENSOR_TYPE_TO_FIELD (storage_type d) = Some f"
    and "CApiElementTypeFromProtoType (tensor_type d) = ET_BOOL \<longleftrightarrow> d = NP_bool"
    and "CApiElementTypeFromProtoType (tensor_type d) \<noteq> ET_STRING"
  using assms by (cases d; simp add: served_dtype_def tensor_type_def storage_type_def np_tables)+

text \<open>The type of the field in which the server puts the numbers of a type can hold them.\<close>

lemma storage_holds:
  assumes "served_dtype d" and "map_of TENSOR_TYPE_TO_NP_TYPE (storage_type d) = Some st" and "np_holds d x"
  shows "np_holds st x"
proof (cases x)
  case (Py_int i)
  with assms show ?thesis by (cases d) (auto simp: served_dtype_def tensor_type_def storage_type_def np_tables)
next
  case (Py_float w)
  then have d: "d = NP_float32" using assms(3) by simp
  with assms(2) have "st = NP_float32" by (simp add: tensor_type_def storage_type_def np_tables)
  with d assms(3) show ?thesis by simp
next
  case (Py_double w)
  then have d: "d = NP_float64" using assms(3) by simp
  with assms(2) have "st = NP_float64" by (simp add: tensor_type_def storage_type_def np_tables)
  with d assms(3) show ?thesis by simp
qed

section \<open>Arrays as runtime values\<close>

text \<open>
  The client's protobuf code is of version 3 and does not send an empty byte string: the server sees no raw data then.
\<close>

definition proto3_view :: "TensorProto \<Rightarrow> TensorProto" where
  "proto3_view t = (if tp_raw_data t = Some [] then t\<lparr>tp_raw_data := None\<rparr> else t)"

definition encoded_strings :: "'a np_lib \<Rightarrow> 'a \<Rightarrow> string list" where
  "encoded_strings N a = map (\<lambda>e. case e of Py_str s \<Rightarrow> the (utf8_encode s) | _ \<Rightarrow> []) (np_flatten N a)"

definition array_value :: "'a np_lib \<Rightarrow> 'a \<Rightarrow> OrtValue" where
  "array_value N a = \<lparr>ov_type = CApiElementTypeFromProtoType (tensor_type (np_dtype_of N a)),
     ov_shape = map int (np_shape N a),
     ov_data = (if np_dtype_of N a = NP_object then Strings (encoded_strings N a) else Raw (np_tobytes N a))\<rparr>"

text \<open>
  Arrays that the client can send: of a size that the server computes, of truth values with the bytes 0 and 1, and of strings that UTF-8
  can encode.
\<close>

fun sendable :: "py_object \<Rightarrow> bool" where
  "sendable (Py_str s) \<longleftrightarrow> (s = [] \<or> last s \<noteq> 0) \<and> utf8_encode s \<noteq> None"
| "sendable _ \<longleftrightarrow> False"

definition array_ok :: "'a np_lib \<Rightarrow> 'a \<Rightarrow> bool" where
  "array_ok N a \<longleftrightarrow> shape_ok (map int (np_shape N a))
     \<and> (if np_dtype_of N a = NP_object
        then np_flatten N a \<noteq> [] \<and> list_all sendable (np_flatten N a)
        else served_dtype (np_dtype_of N a)
          \<and> (np_dtype_of N a = NP_bool \<longrightarrow> list_all (\<lambda>b. b = 0 \<or> b = 1) (np_tobytes N a)))"

text \<open>Arrays that can be read from a typed field: every number is one that a conversion keeps.\<close>

definition typed_ok :: "'a np_lib \<Rightarrow> 'a \<Rightarrow> bool" where
  "typed_ok N a \<longleftrightarrow> np_dtype_of N a = NP_object \<or> list_all (np_holds (np_dtype_of N a)) (np_numbers N a)"

lemma array_ok_numeric: "array_ok N a \<Longrightarrow> np_dtype_of N a \<noteq> NP_object \<Longrightarrow> served_dtype (np_dtype_of N a)"
  by (simp add: array_ok_def)

lemma array_ok_strings:
  assumes "array_ok N a" and "np_dtype_of N a = NP_object"
  obtains ss where "np_flatten N a = map Py_str ss" "ss \<noteq> []" "list_all (\<lambda>s. s = [] \<or> last s \<noteq> 0) ss"
    "list_all (\<lambda>s. utf8_encode s \<noteq> None) ss" "encoded_strings N a = map (\<lambda>s. the (utf8_encode s)) ss"
proof -
  define ss where "ss = map (\<lambda>e. case e of Py_str s \<Rightarrow> s | _ \<Rightarrow> []) (np_flatten N a)"
  have l: "list_all sendable (np_flatten N a)" "np_flatten N a \<noteq> []" using assms by (simp_all add: array_ok_def)
  have e: "Py_str (case e of Py_str s \<Rightarrow> s | _ \<Rightarrow> []) = e" if "sendable e" for e using that by (cases e) auto
  have f: "np_flatten N a = map Py_str ss"
    unfolding ss_def map_map comp_def by (rule sym, rule map_idI) (use l(1) e in \<open>auto simp: list_all_iff\<close>)
  with l have "list_all (\<lambda>s. sendable (Py_str s)) ss" by (simp add: list_all_iff)
  with f l(2) show thesis
    by (intro that [of ss]) (auto simp: encoded_strings_def list_all_iff)
qed

lemma elem_count_array: "elem_count (array_value N a) = prod_list (np_shape N a)"
proof -
  have "prod_list (map int xs) = int (prod_list xs)" for xs by (induction xs) auto
  then show ?thesis by (simp add: elem_count_def array_value_def)
qed

lemma array_value_ok:
  assumes N: "numpy_ok N" and a: "array_ok N a"
  shows "value_ok T (array_value N a)"
proof (cases "np_dtype_of N a = NP_object")
  case True
  obtain ss where ss: "np_flatten N a = map Py_str ss" "ss \<noteq> []" "encoded_strings N a = map (\<lambda>s. the (utf8_encode s)) ss"
    using array_ok_strings [OF a True] by metis
  have "length ss = elem_count (array_value N a)"
    unfolding elem_count_array using numpy_okD(2) [OF N True] ss(1) by simp
  moreover have "ov_type (array_value N a) = ET_STRING"
    using True by (simp add: array_value_def tensor_type_def np_tables)
  ultimately show ?thesis
    using a ss True unfolding value_ok_def array_ok_def by (simp add: array_value_def)
next
  case False
  note d = array_ok_numeric [OF a False]
  obtain k where k: "np_itemsize (np_dtype_of N a) = Some k" using d by (auto simp: served_dtype_def)
  note tb = served_dtype_tables [OF d]
  have "length (np_tobytes N a) = k * elem_count (array_value N a)"
    unfolding elem_count_array by (rule numpy_okD(1) [OF N k])
  moreover have "type_size T (MLDataTypeToTensorProtoDataType (ov_type (array_value N a))) = Some k"
    using tb(4,5) k by (simp add: array_value_def)
  ultimately show ?thesis
    using a False tb(12,13) unfolding value_ok_def array_ok_def by (simp add: array_value_def)
qed

section \<open>There and back\<close>

lemma from_array_numeric:
  assumes "served_dtype (np_dtype_of N a)"
  shows "from_array N a [] = Inr (num_proto (array_value N a) (tensor_type (np_dtype_of N a)) True k (np_tobytes N a))"
  using served_dtype_tables(1,2) [OF assms]
  by (simp add: from_array_def num_proto_def array_value_def empty_TensorProto_def Let_def)

lemma append_objects_strings:
  "list_all (\<lambda>s. utf8_encode s \<noteq> None) ss \<Longrightarrow>
     append_objects (map Py_str ss) t = Inr (t\<lparr>tp_string_data := tp_string_data t @ map (\<lambda>s. the (utf8_encode s)) ss\<rparr>)"
  by (induction ss arbitrary: t) (auto simp: append_string_def)

lemma from_array_strings:
  assumes "array_ok N a" and "np_dtype_of N a = NP_object"
  shows "from_array N a [] = Inr (string_proto (map int (np_shape N a)) (encoded_strings N a))"
proof -
  obtain ss where ss: "np_flatten N a = map Py_str ss" "list_all (\<lambda>s. utf8_encode s \<noteq> None) ss"
    "encoded_strings N a = map (\<lambda>s. the (utf8_encode s)) ss"
    using array_ok_strings [OF assms] by metis
  show ?thesis
    unfolding from_array_def ss(1) append_objects_strings [OF ss(2)] assms(2)
    by (simp add: string_proto_def empty_TensorProto_def np_tables ss(3))
qed

lemma proto3_num_proto:
  assumes "length d = k * elem_count v" and "type_size T ty = Some k" and "ty \<noteq> STRING"
  shows "proto3_view (num_proto v ty u k d) = num_proto v ty (u \<and> d \<noteq> []) k d"
proof (cases "d = []")
  case True
  have "0 < k" using assms(2,3) by (cases ty) auto
  with True assms(1) have "elem_count v = 0" by simp
  with True assms(2,3) show ?thesis
    by (cases ty) (simp_all add: proto3_view_def num_proto_def emit_typed_def empty_TensorProto_def Let_def)
qed (simp add: proto3_view_def)

lemma sint_range:
  "- (2 ^ 31) \<le> x \<Longrightarrow> x < 2 ^ 31 \<Longrightarrow> sint (word_of_int x :: u32) = x"
  "- (2 ^ 63) \<le> x \<Longrightarrow> x < 2 ^ 63 \<Longrightarrow> sint (word_of_int x :: u64) = x"
  by (simp_all add: signed_of_int signed_take_bit_int_eq_self)

lemma word_of_nat_wrap:
  "(word_of_nat e :: u32) = word_of_int (int e - 2 ^ 32)" "(word_of_nat e :: u64) = word_of_int (int e - 2 ^ 64)"
  by simp_all

lemma sint_word_of_nat:
  shows "e < 2 ^ 31 \<Longrightarrow> sint (word_of_nat e :: u32) = int e"
    and "e < 256 ^ 4 \<Longrightarrow> sint (word_of_nat e :: u32) = signed_of 4 e"
    and "e < 256 ^ 8 \<Longrightarrow> sint (word_of_nat e :: u64) = signed_of 8 e"
proof -
  show a: "sint (word_of_nat e :: u32) = int e" if "e < 2 ^ 31" for e
    using sint_range(1) [of "int e"] that by simp
  have b: "sint (word_of_nat e :: u64) = int e" if "e < 2 ^ 63"
    using sint_range(2) [of "int e"] that by simp
  show "sint (word_of_nat e :: u32) = signed_of 4 e" if "e < 256 ^ 4"
  proof (cases "e < 2 ^ 31")
    case False
    with that show ?thesis unfolding word_of_nat_wrap(1) by (subst sint_range(1)) (simp_all add: signed_of_def)
  qed (simp add: a signed_of_def)
  show "sint (word_of_nat e :: u64) = signed_of 8 e" if "e < 256 ^ 8"
  proof (cases "e < 2 ^ 63")
    case False
    with that show ?thesis unfolding word_of_nat_wrap(2) by (subst sint_range(2)) (simp_all add: signed_of_def)
  qed (simp add: b signed_of_def)
qed

lemma sint_sign_extend:
  "k = 1 \<or> k = 2 \<Longrightarrow> e < 256 ^ k \<Longrightarrow> sint (sign_extend k e) = signed_of k e"
  unfolding sign_extend_def signed_of_def by (subst sint_range(1)) auto

lemma getattr_typed:
  assumes d: "served_dtype d" and k: "np_itemsize d = Some k" and es: "\<And>e. e \<in> set es \<Longrightarrow> e < 256 ^ k"
    and f: "map_of STORAGE_TENSOR_TYPE_TO_FIELD (storage_type d) = Some field"
  shows "getattr (emit_typed (tensor_type d) es (empty_TensorProto\<lparr>tp_dims := ds, tp_data_type := ty, tp_external := x\<rparr>)) field
    = map (np_number d) es"
proof -
  have small: "sint (word_of_nat e :: u32) = int e" if "e \<in> set es" "k \<le> 2" for e
  proof -
    have "(256 :: nat) ^ k \<le> 256 ^ 2" using that(2) by (intro power_increasing) auto
    with es [OF that(1)] show ?thesis by (intro sint_word_of_nat(1)) simp
  qed
  have big: "uint (word_of_nat e :: u64) = int e" if "e \<in> set es" "k \<le> 8" for e
  proof -
    have "(256 :: nat) ^ k \<le> 256 ^ 8" using that(2) by (intro power_increasing) auto
    with es [OF that(1)] show ?thesis by (simp add: unsigned_of_nat take_bit_nat_eq_self)
  qed
  note ints = sint_word_of_nat sint_sign_extend small big
  show ?thesis
    using d k f es ints
    by (cases d) (auto simp: served_dtype_def tensor_type_def storage_type_def np_tables getattr_def emit_typed_def
        empty_TensorProto_def)
qed

lemma to_array_num_proto:
  assumes N: "numpy_ok N" and d: "served_dtype (np_dtype_of N a)" and k: "np_itemsize (np_dtype_of N a) = Some k"
    and typed_ok: "\<not> u \<Longrightarrow> typed_ok N a"
  shows "to_array N (num_proto (array_value N a) (tensor_type (np_dtype_of N a)) (u \<and> np_tobytes N a \<noteq> []) k (np_tobytes N a))
    = Inr a"
proof -
  let ?d = "np_dtype_of N a" and ?u = "u \<and> np_tobytes N a \<noteq> []" and ?v = "array_value N a" and ?bs = "np_tobytes N a"
  let ?t = "num_proto ?v (tensor_type ?d) ?u k ?bs"
  note tb = served_dtype_tables [OF d]
  obtain st f where st: "map_of TENSOR_TYPE_TO_NP_TYPE (storage_type ?d) = Some st"
      "map_of STORAGE_TENSOR_TYPE_TO_FIELD (storage_type ?d) = Some f" "np_itemsize st \<noteq> None"
    using tb(10,11) by blast
  have t: "tp_dims ?t = map int (np_shape N a)" "tp_raw_data ?t = (if ?u then Some ?bs else None)"
    by (simp_all add: array_value_def)
  have seg: "\<not> tp_segment ?t"
    using tb(4) k by (cases "tensor_type ?d") (auto simp: num_proto_def emit_typed_def empty_TensorProto_def Let_def)
  have typed: "getattr ?t f = np_numbers N a" if "\<not> ?u"
  proof -
    have l: "length ?bs = k * prod_list (np_shape N a)" by (rule numpy_okD(1) [OF N k])
    have "?t = emit_typed (tensor_type ?d) (np_elements N a)
        (empty_TensorProto\<lparr>tp_dims := ov_shape ?v, tp_data_type := tensor_type ?d, tp_external := False\<rparr>)"
      using that k by (auto simp: num_proto_def Let_def elem_count_array np_elements_def)
    moreover have "e < 256 ^ k" if "e \<in> set (np_elements N a)" for e
      using elements_bound [OF l] that k by (simp add: np_elements_def)
    ultimately show ?thesis unfolding np_numbers_def using getattr_typed [OF d k _ st(2)] by metis
  qed
  show ?thesis
  proof (cases ?u)
    case True
    then show ?thesis
      using t seg st tb(3,6-9) array_from_bytes [OF N k] by (simp add: to_array_def lookup_def)
  next
    case False
    have "list_all (np_holds ?d) (np_numbers N a)"
    proof (cases "np_tobytes N a = []")
      case True
      with numpy_okD(1) [OF N k] k d have "prod_list (np_shape N a) = 0" by (cases ?d) auto
      then show ?thesis by (simp add: np_numbers_def np_elements_def)
    qed (use typed_ok False tb(2) in \<open>auto simp: typed_ok_def\<close>)
    moreover from this have "list_all (np_holds st) (np_numbers N a)"
      using storage_holds [OF d st(1)] by (auto simp: list_all_iff)
    ultimately show ?thesis
      using False t seg st tb(3,6-9) typed [OF False] array_from_numbers [OF N k st(3)] by (simp add: to_array_def lookup_def)
  qed
qed

lemma to_array_string_proto:
  assumes N: "numpy_ok N" and a: "array_ok N a" "np_dtype_of N a = NP_object"
  shows "to_array N (string_proto (map int (np_shape N a)) (encoded_strings N a)) = Inr a"
proof -
  obtain ss where ss: "np_flatten N a = map Py_str ss" "list_all (\<lambda>s. s = [] \<or> last s \<noteq> 0) ss"
    "list_all (\<lambda>s. utf8_encode s \<noteq> None) ss" "encoded_strings N a = map (\<lambda>s. the (utf8_encode s)) ss"
    by (rule array_ok_strings [OF a])
  have "those (map utf8_decode (map (\<lambda>s. the (utf8_encode s)) ss)) = Some ss"
    using ss(3) by (induction ss) (auto simp: utf8_decode_encode)
  then have dec: "decode_strings (encoded_strings N a) = Inr ss" by (simp add: decode_strings_def ss(4))
  let ?b = "np_astype N (np_asarray_strings N ss) NP_object"
  have b: "np_dtype_of N ?b = NP_object" "np_shape N ?b = [length ss]" "np_flatten N ?b = map Py_str ss"
    using numpy_okD(9) [OF N ss(2)] by simp_all
  obtain c where c: "np_reshape N ?b (map int (np_shape N a)) = Inr c" "np_shape N c = np_shape N a"
    "np_dtype_of N c = NP_object" "np_flatten N c = map Py_str ss"
    using numpy_okD(5) [OF N, of "np_shape N a" ?b] numpy_okD(2) [OF N a(2)] b ss(1) by auto
  have "c = a" by (rule numpy_okD(4) [OF N a(2) c(3,2)]) (simp add: c(4) ss(1))
  with c(1) dec show ?thesis
    by (simp add: to_array_def string_proto_def empty_TensorProto_def np_tables)
qed

text \<open>On its way to the server, an array becomes the runtime value with its bytes or strings.\<close>

lemma array_sent:
  assumes N: "numpy_ok N" and T: "ort_types_ok T" "sizeof_string T \<le> 32" and a: "array_ok N a"
  obtains t where "from_array N a [] = Inr t" "SetMLValue T (proto3_view t) = Inr (Inr (array_value N a))"
    "tp_raw_data (proto3_view t) \<noteq> None \<longleftrightarrow> np_dtype_of N a \<noteq> NP_object \<and> np_tobytes N a \<noteq> []"
proof (cases "np_dtype_of N a = NP_object")
  case True
  let ?t = "string_proto (map int (np_shape N a)) (encoded_strings N a)"
  have p: "proto3_view ?t = ?t" "tp_raw_data ?t = None" by (simp_all add: proto3_view_def string_proto_def empty_TensorProto_def)
  have "ov_data (array_value N a) = Strings (encoded_strings N a)" "ov_shape (array_value N a) = map int (np_shape N a)"
    using True by (simp_all add: array_value_def)
  with string_proto_read(2) [OF T array_value_ok [OF N a]] have "SetMLValue T ?t = Inr (Inr (array_value N a))"
    using SetMLValue_fresh by metis
  with that [OF from_array_strings [OF a True]] p True show thesis by simp
next
  case False
  note d = array_ok_numeric [OF a False]
  note tb = served_dtype_tables [OF d]
  have raw: "ov_data (array_value N a) = Raw (np_tobytes N a)" using False by (simp add: array_value_def)
  have ty: "MLDataTypeToTensorProtoDataType (ov_type (array_value N a)) = tensor_type (np_dtype_of N a)"
    using tb(5) by (simp add: array_value_def)
  obtain k where k: "type_size T (tensor_type (np_dtype_of N a)) = Some k"
      "length (np_tobytes N a) = k * elem_count (array_value N a)" "tensor_type (np_dtype_of N a) \<noteq> STRING"
    and r: "\<And>u. SetMLValue T (num_proto (array_value N a) (tensor_type (np_dtype_of N a)) u k (np_tobytes N a)) = Inr (Inr (array_value N a))"
    using num_proto_read [OF T(1) array_value_ok [OF N a] raw, unfolded ty] SetMLValue_fresh by metis
  show thesis
    using that [OF from_array_numeric [OF d, of k]] r False unfolding proto3_num_proto [OF k(2,1,3)] by simp
qed

text \<open>
  On its way back, in either representation, it becomes the array again, in the typed one only if conversions keep its numbers.
\<close>

lemma array_received:
  assumes N: "numpy_ok N" and T: "ort_types_ok T" "sizeof_string T \<le> 32" and a: "array_ok N a"
    and typed: "\<not> u \<Longrightarrow> typed_ok N a"
  obtains t where "MLValueToTensorProto T True (array_value N a) u empty_TensorProto = Inr t" "to_array N (proto3_view t) = Inr a"
proof (cases "np_dtype_of N a = NP_object")
  case True
  let ?t = "string_proto (map int (np_shape N a)) (encoded_strings N a)"
  have p: "proto3_view ?t = ?t" by (simp add: proto3_view_def string_proto_def empty_TensorProto_def)
  have v: "ov_data (array_value N a) = Strings (encoded_strings N a)" "ov_shape (array_value N a) = map int (np_shape N a)"
    using True by (simp_all add: array_value_def)
  from that [of ?t] string_proto_read(1) [OF T array_value_ok [OF N a] v(1)] v(2) p to_array_string_proto [OF N a True]
  show thesis by simp
next
  case False
  note d = array_ok_numeric [OF a False]
  note tb = served_dtype_tables [OF d]
  have raw: "ov_data (array_value N a) = Raw (np_tobytes N a)" using False by (simp add: array_value_def)
  obtain k where k: "np_itemsize (np_dtype_of N a) = Some k" using d by (auto simp: served_dtype_def)
  have l: "length (np_tobytes N a) = k * elem_count (array_value N a)"
    unfolding elem_count_array by (rule numpy_okD(1) [OF N k])
  have sz: "type_size T (tensor_type (np_dtype_of N a)) = Some k" using tb(4) k by simp
  have "MLValueToTensorProto T True (array_value N a) u empty_TensorProto
      = Inr (num_proto (array_value N a) (tensor_type (np_dtype_of N a)) u k (np_tobytes N a))"
    by (rule MLValueToTensorProto_num [OF raw _ sz tb(6) l]) (use tb(5) in \<open>simp add: array_value_def\<close>)
  from that [OF this] show thesis
    using to_array_num_proto [OF N d k typed] unfolding proto3_num_proto [OF l sz tb(6)] by simp
qed

section \<open>Predictions on arrays\<close>

text \<open>
  \<^verbatim>\<open>Client.predict\<close> with its conversions; protobuf's serialisation in Python is a parameter. The inputs are a dictionary,
  the list of its items.
\<close>

record py_protobuf =
  py_SerializeToString :: "PredictRequest \<Rightarrow> bytes"
  py_ParseFromString :: "bytes \<Rightarrow> PredictResponse option"

definition array_inputs :: "'a np_lib \<Rightarrow> (string \<times> 'a) list \<Rightarrow> py_error + (string \<times> TensorProto) list" where
  "array_inputs N data = map_result (\<lambda>(input_name, arr). rbind (from_array N arr []) (\<lambda>tensor. Inr (input_name, tensor))) data"

definition array_outputs :: "'a np_lib \<Rightarrow> PredictResponse \<Rightarrow> py_error + (string \<times> 'a) list" where
  "array_outputs N outputs = map_result (\<lambda>(output_name, tensor). rbind (to_array N tensor) (\<lambda>arr. Inr (output_name, arr))) outputs"

definition predict_arrays ::
    "'a np_lib \<Rightarrow> py_protobuf \<Rightarrow> py_libs \<Rightarrow> libs \<Rightarrow> 'w py_net \<Rightarrow> (string \<times> 'a) list \<Rightarrow> ('c, 'w, (string \<times> 'a) list) py_comp" where
  "predict_arrays N B P L net data =
     cbind (clift (array_inputs N data)) (\<lambda>inputs.
     cbind (predict P L net (py_SerializeToString B \<lparr>pr_inputs = inputs, pr_output_filter = []\<rparr>)) (\<lambda>resp_data.
       case py_ParseFromString B resp_data of
         None \<Rightarrow> cthrow DecodeError
       | Some outputs \<Rightarrow> clift (array_outputs N outputs)))"

section \<open>The executor on arrays\<close>

text \<open>Every input is sent as raw data: none is empty and none holds strings.\<close>

definition all_raw :: "'a np_lib \<Rightarrow> (string \<times> 'a) list \<Rightarrow> bool" where
  "all_raw N ins \<longleftrightarrow> list_all (\<lambda>(n, a). np_dtype_of N a \<noteq> NP_object \<and> np_tobytes N a \<noteq> []) ins"

lemma array_inputs_ok:
  assumes N: "numpy_ok N" and T: "ort_types_ok T" "sizeof_string T \<le> 32" and ins: "list_all (\<lambda>(n, a). array_ok N a) ins"
  obtains ts where "array_inputs N ins = Inr ts" "map fst ts = map fst ins"
    "list_all2 (\<lambda>(n, t) v. SetMLValue T t = Inr (Inr v)) (map (apsnd proto3_view) ts) (map (\<lambda>(n, a). array_value N a) ins)"
    "list_all (\<lambda>(n, t). tp_raw_data t \<noteq> None) (map (apsnd proto3_view) ts) \<longleftrightarrow> all_raw N ins"
  using ins
proof (induction ins arbitrary: thesis)
  case Nil
  then show ?case by (simp add: array_inputs_def all_raw_def)
next
  case (Cons x ins)
  obtain n a where x: "x = (n, a)" by (cases x)
  then have a: "array_ok N a" and i: "list_all (\<lambda>(n, a). array_ok N a) ins" using Cons.prems(2) by simp_all
  obtain t where t: "from_array N a [] = Inr t" "SetMLValue T (proto3_view t) = Inr (Inr (array_value N a))"
    "tp_raw_data (proto3_view t) \<noteq> None \<longleftrightarrow> np_dtype_of N a \<noteq> NP_object \<and> np_tobytes N a \<noteq> []"
    by (rule array_sent [OF N T a])
  obtain ts where ts: "array_inputs N ins = Inr ts" "map fst ts = map fst ins"
    "list_all2 (\<lambda>(n, t) v. SetMLValue T t = Inr (Inr v)) (map (apsnd proto3_view) ts) (map (\<lambda>(n, a). array_value N a) ins)"
    "list_all (\<lambda>(n, t). tp_raw_data t \<noteq> None) (map (apsnd proto3_view) ts) \<longleftrightarrow> all_raw N ins"
    using Cons.IH [OF _ i] by blast
  show ?case
    by (rule Cons.prems(1) [of "(n, t) # ts"]) (use x t ts in \<open>auto simp: array_inputs_def all_raw_def\<close>)
qed

lemma array_outputs_ok:
  assumes N: "numpy_ok N" and T: "ort_types_ok T" "sizeof_string T \<le> 32" and outs: "list_all (array_ok N) outs"
    and typed: "\<not> u \<Longrightarrow> list_all (typed_ok N) outs"
    and len: "length names = length outs"
  obtains ts where "list_all2 (\<lambda>(b, v) t. MLValueToTensorProto T b v u empty_TensorProto = Inr t)
      (map (\<lambda>b. (True, array_value N b)) outs) ts"
    "array_outputs N (map (apsnd proto3_view) (zip names ts)) = Inr (zip names outs)"
  using outs typed len
proof (induction outs arbitrary: names thesis)
  case Nil
  then show ?case by (simp add: array_outputs_def)
next
  case (Cons b outs)
  obtain n ns where ns: "names = n # ns" "length ns = length outs" using Cons.prems(4) by (cases names) auto
  have b: "array_ok N b" "\<not> u \<Longrightarrow> typed_ok N b"
    using Cons.prems(2,3) by simp_all
  obtain t where t: "MLValueToTensorProto T True (array_value N b) u empty_TensorProto = Inr t" "to_array N (proto3_view t) = Inr b"
    by (rule array_received [OF N T b])
  obtain ts where ts: "list_all2 (\<lambda>(b, v) t. MLValueToTensorProto T b v u empty_TensorProto = Inr t)
      (map (\<lambda>b. (True, array_value N b)) outs) ts"
    "array_outputs N (map (apsnd proto3_view) (zip ns ts)) = Inr (zip ns outs)"
    using Cons.IH [OF _ _ _ ns(2)] Cons.prems(2,3) by auto
  show ?case
    by (rule Cons.prems(1) [of "t # ts"]) (use ns t ts in \<open>auto simp: array_outputs_def\<close>)
qed

lemma Predict_arrays:
  assumes N: "numpy_ok N" and T: "ort_types_ok (o_types O')" "sizeof_string (o_types O') \<le> 32" "CreateCpuMemoryInfo O'"
    and ins: "list_all (\<lambda>(n, a). array_ok N a) ins" and outs: "list_all (array_ok N) outs"
    and run: "ort_run O' m (map fst ins) (map (\<lambda>(n, a). array_value N a) ins) names = Inr (map (\<lambda>b. (True, array_value N b)) outs)"
    and names: "length names = length outs" "distinct names"
    and typed: "\<not> all_raw N ins \<Longrightarrow> list_all (typed_ok N) outs"
  obtains ts resp where "array_inputs N ins = Inr ts"
    "Predict O' (Some m) names \<lparr>pr_inputs = map (apsnd proto3_view) ts, pr_output_filter = []\<rparr> = (Inr Status_OK, resp)"
    "array_outputs N (map (apsnd proto3_view) resp) = Inr (zip names outs)"
proof -
  obtain ts where ts: "array_inputs N ins = Inr ts" "map fst ts = map fst ins"
    "list_all2 (\<lambda>(n, t) v. SetMLValue (o_types O') t = Inr (Inr v)) (map (apsnd proto3_view) ts) (map (\<lambda>(n, a). array_value N a) ins)"
    "list_all (\<lambda>(n, t). tp_raw_data t \<noteq> None) (map (apsnd proto3_view) ts) \<longleftrightarrow> all_raw N ins"
    by (rule array_inputs_ok [OF N T(1,2) ins])
  obtain us where us: "list_all2 (\<lambda>(b, v) t. MLValueToTensorProto (o_types O') b v (all_raw N ins) empty_TensorProto = Inr t)
      (map (\<lambda>b. (True, array_value N b)) outs) us"
    "array_outputs N (map (apsnd proto3_view) (zip names us)) = Inr (zip names outs)"
    by (rule array_outputs_ok [OF N T(1,2) outs typed names(1)])
  have fsts: "map fst (map (apsnd proto3_view) ts) = map fst ins" using ts(2) by (simp add: comp_def)
  have "SetNameMLValueMap O' \<lparr>pr_inputs = map (apsnd proto3_view) ts, pr_output_filter = []\<rparr> True
      = (Inr (Inr (map fst ins, map (\<lambda>(n, a). array_value N a) ins)), all_raw N ins)"
    using SetNameMLValueMap_loop_all [OF ts(3), of True "[]" "[]"] T(3) ts(4) fsts by (simp add: SetNameMLValueMap_def)
  then have "Predict O' (Some m) names \<lparr>pr_inputs = map (apsnd proto3_view) ts, pr_output_filter = []\<rparr>
      = (Inr Status_OK, zip names us)"
    using build_response_all [OF us(1), of names "[]"] names run
    by (simp add: Predict_def Run_def catch_ort_def)
  with ts(1) us(2) that show thesis by blast
qed

section \<open>Dictionaries\<close>

text \<open>Protobuf keeps no order of the entries of a map: results are determined up to a permutation.\<close>

lemma map_permuted:
  "mset ys = mset (map f xs) \<Longrightarrow> \<exists>xs'. mset xs' = mset xs \<and> ys = map f xs'"
proof (induction ys arbitrary: xs)
  case (Cons y ys)
  have "y \<in># mset (y # ys)" by simp
  then have "y \<in># mset (map f xs)" unfolding Cons.prems .
  then obtain x where x: "x \<in> set xs" "y = f x" by auto
  have "mset ys = mset (map f xs) - {#y#}" unfolding Cons.prems [symmetric] by simp
  also have "\<dots> = mset (map f (remove1 x xs))" using x by (simp add: image_mset_Diff)
  finally obtain zs where "mset zs = mset (remove1 x xs)" "ys = map f zs" using Cons.IH by blast
  with x show ?case by (intro exI [of _ "x # zs"]) simp
qed simp

lemma map_result_map: "map_result f xs = Inr ys \<Longrightarrow> list_all (\<lambda>x. f x = Inr (projr (f x))) xs \<and> ys = map (\<lambda>x. projr (f x)) xs"
  by (induction xs arbitrary: ys) (auto simp: rbind_Inr_iff)

lemma map_result_permuted:
  assumes "map_result f xs = Inr ys" and "mset xs' = mset xs"
  shows "\<exists>ys'. map_result f xs' = Inr ys' \<and> mset ys' = mset ys"
proof -
  note r = map_result_map [OF assms(1)]
  have "set xs' = set xs" by (metis assms(2) set_mset_mset)
  then have "map_result f xs' = Inr (map (\<lambda>x. projr (f x)) xs')"
    using r by (intro map_result_Inr) (auto simp: list_all_iff)
  moreover have "mset (map (\<lambda>x. projr (f x)) xs') = mset ys" using r assms(2) by simp
  ultimately show ?thesis by blast
qed

lemma array_inputs_permuted:
  assumes "array_inputs N ins = Inr ts" and "mset ys = mset (map (apsnd proto3_view) ts)"
  obtains ins' ts' where "mset ins' = mset ins" "array_inputs N ins' = Inr ts'" "ys = map (apsnd proto3_view) ts'"
proof -
  let ?f = "\<lambda>(input_name, arr). rbind (from_array N arr []) (\<lambda>tensor. Inr (input_name, tensor))"
  note r = map_result_map [OF assms(1) [unfolded array_inputs_def]]
  have "mset ys = mset (map (\<lambda>x. apsnd proto3_view (projr (?f x))) ins)" using r assms(2) by (simp add: comp_def)
  then obtain ins' where i: "mset ins' = mset ins" "ys = map (\<lambda>x. apsnd proto3_view (projr (?f x))) ins'"
    using map_permuted by blast
  have "set ins' = set ins" by (metis i(1) set_mset_mset)
  then have "array_inputs N ins' = Inr (map (\<lambda>x. projr (?f x)) ins')"
    unfolding array_inputs_def using r by (intro map_result_Inr) (auto simp: list_all_iff)
  then show thesis using that [OF i(1)] i(2) by (simp add: comp_def)
qed

section \<open>Properties\<close>

lemma np_holds_number:
  assumes "served_dtype d" and "np_itemsize d = Some k" and "e < 256 ^ k" and "d = NP_bool \<longrightarrow> e \<le> 1"
  shows "np_holds d (np_number d e) \<longleftrightarrow> d \<noteq> NP_float16 \<and> (d = NP_float32 \<longrightarrow> \<not> signalling 8 23 e)
    \<and> (d = NP_float64 \<longrightarrow> \<not> signalling 11 52 e)"
proof -
  have w: "e < 2 ^ 32 \<Longrightarrow> unat (word_of_nat e :: u32) = e" "e < 2 ^ 64 \<Longrightarrow> unat (word_of_nat e :: u64) = e"
    by (simp_all add: unsigned_of_nat take_bit_nat_eq_self)
  show ?thesis
    using assms w by (cases d) (auto simp: served_dtype_def signed_of_def)
qed

lemma bool_elements: "list_all (\<lambda>b. b = 0 \<or> b = 1) bs \<Longrightarrow> length bs = n \<Longrightarrow> e \<in> set (elements 1 n bs) \<Longrightarrow> e \<le> 1"
proof (induction bs arbitrary: n)
  case (Cons b bs)
  then show ?case by (cases n) auto
qed simp

text \<open>
  Of the types the server knows, all arrays of integers and truth values can be read from typed fields; of single and double precision those
  without a signalling NaN; of half precision only the empty ones.
\<close>

lemma typed_ok_iff:
  assumes N: "numpy_ok N" and a: "array_ok N a"
  shows "typed_ok N a \<longleftrightarrow>
    (np_dtype_of N a = NP_float16 \<longrightarrow> np_tobytes N a = [])
  \<and> (np_dtype_of N a = NP_float32 \<longrightarrow> list_all (\<lambda>e. \<not> signalling 8 23 e) (np_elements N a))
  \<and> (np_dtype_of N a = NP_float64 \<longrightarrow> list_all (\<lambda>e. \<not> signalling 11 52 e) (np_elements N a))"
proof (cases "np_dtype_of N a = NP_object")
  case False
  note d = array_ok_numeric [OF a False]
  obtain k where k: "np_itemsize (np_dtype_of N a) = Some k" using d by (auto simp: served_dtype_def)
  have l: "length (np_tobytes N a) = k * prod_list (np_shape N a)" by (rule numpy_okD(1) [OF N k])
  have e: "np_elements N a = elements k (prod_list (np_shape N a)) (np_tobytes N a)" using k by (simp add: np_elements_def)
  have "0 < k" using k by (cases "np_dtype_of N a") auto
  with l have empty: "np_elements N a = [] \<longleftrightarrow> np_tobytes N a = []"
    by (simp add: e flip: length_0_conv)
  have "np_holds (np_dtype_of N a) (np_number (np_dtype_of N a) x) \<longleftrightarrow> np_dtype_of N a \<noteq> NP_float16
      \<and> (np_dtype_of N a = NP_float32 \<longrightarrow> \<not> signalling 8 23 x) \<and> (np_dtype_of N a = NP_float64 \<longrightarrow> \<not> signalling 11 52 x)"
    if "x \<in> set (np_elements N a)" for x
  proof (rule np_holds_number [OF d k])
    show "x < 256 ^ k" using elements_bound [OF l] that e by simp
    show "np_dtype_of N a = NP_bool \<longrightarrow> x \<le> 1"
      using bool_elements [of "np_tobytes N a" "prod_list (np_shape N a)" x] a k l that e by (auto simp: array_ok_def)
  qed
  with False empty show ?thesis by (auto simp: typed_ok_def np_numbers_def list_all_iff)
qed (simp add: typed_ok_def)

text \<open>
  C14: arrays survive the way to the server and back. What the client sends for an array the server unpacks into a runtime value with
  exactly the bytes, shape and type of the array, or its strings; and what the server writes for such a value the client reads as
  the same array, for every numeric type the server knows and for strings, with empty arrays included. In the typed representation the
  numbers pass through the type of the field, by \<^verbatim>\<open>np.asarray\<close> and \<^verbatim>\<open>astype\<close>, which keep the numbers that both types can
  hold; half precision and signalling NaNs are excepted there.
\<close>

theorem arrays_survive:
  assumes "numpy_ok N" and "ort_types_ok T" and "sizeof_string T \<le> 32" and "array_ok N a"
    and "using_raw \<or> typed_ok N a"
  shows "\<exists>t t'. from_array N a [] = Inr t \<and> SetMLValue T (proto3_view t) = Inr (Inr (array_value N a))
    \<and> MLValueToTensorProto T True (array_value N a) using_raw empty_TensorProto = Inr t' \<and> to_array N (proto3_view t') = Inr a"
proof -
  have "\<exists>t. from_array N a [] = Inr t \<and> SetMLValue T (proto3_view t) = Inr (Inr (array_value N a))"
    by (rule array_sent [OF assms(1-4)]) blast
  moreover have "\<exists>t. MLValueToTensorProto T True (array_value N a) using_raw empty_TensorProto = Inr t \<and> to_array N (proto3_view t) = Inr a"
    by (rule array_received [OF assms(1-4), of using_raw]) (use assms(5) in blast)+
  ultimately show ?thesis by blast
qed

text \<open>
  A half-precision output in the typed representation, which the server uses as soon as one input is empty or holds strings, is
  misread: the client converts the bit patterns as if they were numbers.
\<close>

theorem half_precision_misread:
  assumes N: "numpy_ok N" and d: "np_dtype_of N a = NP_float16"
  shows "\<exists>t. MLValueToTensorProto T True (array_value N a) False empty_TensorProto = Inr t
    \<and> to_array N t = rbind (np_asarray N (Fields [map (\<lambda>e. Py_int (int e)) (np_elements N a)]) NP_uint16)
        (\<lambda>b. np_reshape N (np_astype N b NP_float16) (map int (np_shape N a)))"
proof -
  have s: "served_dtype NP_float16" "np_itemsize NP_float16 = Some 2" "tensor_type NP_float16 = FLOAT16"
    by (simp_all add: served_dtype_def tensor_type_def np_tables)
  have l: "length (np_tobytes N a) = 2 * prod_list (np_shape N a)" using numpy_okD(1) [OF N, of a 2] d by simp
  let ?t = "num_proto (array_value N a) FLOAT16 False 2 (np_tobytes N a)"
  have "MLValueToTensorProto T True (array_value N a) False empty_TensorProto = Inr ?t"
    by (rule MLValueToTensorProto_num) (use d s l in \<open>simp_all add: elem_count_array\<close>, simp_all add: array_value_def)
  moreover have "?t = emit_typed FLOAT16 (np_elements N a)
      (empty_TensorProto\<lparr>tp_dims := map int (np_shape N a), tp_data_type := FLOAT16, tp_external := False\<rparr>)"
    using d unfolding num_proto_def elem_count_array by (simp add: np_elements_def array_value_def)
  moreover have "np_number NP_float16 = (\<lambda>e. Py_int (int e))" by (rule ext) simp
  moreover have "e < 256 ^ 2" if "e \<in> set (np_elements N a)" for e
    using elements_bound [OF l] that d by (simp add: np_elements_def)
  ultimately show ?thesis
    using getattr_typed [OF s(1,2), where es = "np_elements N a" and field = "''int32_data''" and ds = "map int (np_shape N a)"
        and ty = FLOAT16 and x = False] s(3)
    by (simp add: to_array_def np_tables storage_type_def emit_typed_def empty_TensorProto_def)
qed

text \<open>Typed complex data are lost: the pairs are taken from a tuple of one field, so there are none.\<close>

lemma complex_fields_dropped: "combine_pairs_to_complex [getattr t field] = []"
  by (simp add: combine_pairs_to_complex_def)

section \<open>A small numpy\<close>

text \<open>
  Arrays with all types and shapes: type, shape, and the bytes of numbers or the elements of other types. A conversion of integers wraps,
  and one to half precision cuts the mantissa.
\<close>

fun array_wf :: "np_dtype \<times> nat list \<times> bytes \<times> py_object list \<Rightarrow> bool" where
  "array_wf (d, s, bs, os) = (case np_itemsize d of
     Some k \<Rightarrow> length bs = k * prod_list s \<and> os = []
   | None \<Rightarrow> bs = [] \<and> length os = prod_list s)"

typedef sample_array = "{a. array_wf a}"
  by (intro exI [of _ "(NP_uint8, [0], [], [])"]) simp

fun log2 :: "nat \<Rightarrow> nat" where
  "log2 n = (if n < 2 then 0 else Suc (log2 (n div 2)))"

declare log2.simps [simp del]

definition half_of :: "int \<Rightarrow> nat" where
  "half_of i = (let n = nat i; e = log2 n in if n = 0 then 0 else (e + 15) * 1024 + (n * 1024 div 2 ^ e - 1024))"

definition np_code :: "np_dtype \<Rightarrow> py_number \<Rightarrow> nat" where
  "np_code d x = (case x of
     Py_int i \<Rightarrow> if d = NP_bool then (if i = 0 then 0 else 1) else if d = NP_float16 then half_of i else nat (i mod 2 ^ 64)
   | Py_float w \<Rightarrow> unat w
   | Py_double w \<Rightarrow> unat w)"

definition number_array :: "np_dtype \<Rightarrow> nat list \<Rightarrow> py_number list \<Rightarrow> sample_array" where
  "number_array d s xs = Abs_sample_array (d, s, concat (map (le_bytes (the (np_itemsize d))) (map (np_code d) xs)), [])"

definition sample_dtype :: "sample_array \<Rightarrow> np_dtype" where "sample_dtype a = fst (Rep_sample_array a)"
definition sample_shape :: "sample_array \<Rightarrow> nat list" where "sample_shape a = fst (snd (Rep_sample_array a))"
definition sample_bytes :: "sample_array \<Rightarrow> bytes" where "sample_bytes a = fst (snd (snd (Rep_sample_array a)))"
definition sample_objects :: "sample_array \<Rightarrow> py_object list" where "sample_objects a = snd (snd (snd (Rep_sample_array a)))"

definition sample_numbers :: "sample_array \<Rightarrow> py_number list" where
  "sample_numbers a = map (np_number (sample_dtype a))
     (elements (the (np_itemsize (sample_dtype a))) (prod_list (sample_shape a)) (sample_bytes a))"

definition strip_nulls :: "nat list \<Rightarrow> nat list" where
  "strip_nulls s = rev (dropWhile ((=) 0) (rev s))"

definition sample_numpy :: "sample_array np_lib" where
  "sample_numpy = \<lparr>np_dtype_of = sample_dtype, np_shape = sample_shape, np_tobytes = sample_bytes, np_flatten = sample_objects,
     np_frombuffer = (\<lambda>bs d. case np_itemsize d of
          Some k \<Rightarrow> if length bs mod k = 0 then Inr (Abs_sample_array (d, [length bs div k], bs, [])) else Inl (ValueError [])
        | None \<Rightarrow> Inl (ValueError [])),
     np_asarray = (\<lambda>x d. case x of
          Fields [xs] \<Rightarrow> if np_itemsize d \<noteq> None then Inr (number_array d [1, length xs] xs) else Inl TypeError
        | _ \<Rightarrow> Inl TypeError),
     np_asarray_strings = (\<lambda>ss. Abs_sample_array (NP_other ''str'', [length ss], [], map (\<lambda>s. Py_str (strip_nulls s)) ss)),
     np_astype = (\<lambda>a d. if np_itemsize (sample_dtype a) \<noteq> None \<and> np_itemsize d \<noteq> None then number_array d (sample_shape a) (sample_numbers a)
        else Abs_sample_array (d, sample_shape a, [], sample_objects a)),
     np_reshape = (\<lambda>a dims. if list_all (\<lambda>i. 0 \<le> i) dims \<and> prod_list (map nat dims) = prod_list (sample_shape a)
        then Inr (Abs_sample_array (sample_dtype a, map nat dims, sample_bytes a, sample_objects a)) else Inl (ValueError []))\<rparr>"

lemma sample_numpy_simps [simp]:
  "np_dtype_of sample_numpy = sample_dtype" "np_shape sample_numpy = sample_shape" "np_tobytes sample_numpy = sample_bytes"
  "np_flatten sample_numpy = sample_objects" "np_numbers sample_numpy = sample_numbers"
  by (simp_all add: sample_numpy_def np_numbers_def np_elements_def sample_numbers_def fun_eq_iff)

lemma sample_parts:
  assumes "array_wf (d, s, bs, os)"
  shows "sample_dtype (Abs_sample_array (d, s, bs, os)) = d" "sample_shape (Abs_sample_array (d, s, bs, os)) = s"
    "sample_bytes (Abs_sample_array (d, s, bs, os)) = bs" "sample_objects (Abs_sample_array (d, s, bs, os)) = os"
  using Abs_sample_array_inverse [of "(d, s, bs, os)"] assms
  by (simp_all add: sample_dtype_def sample_shape_def sample_bytes_def sample_objects_def del: array_wf.simps)

lemma sample_wf: "array_wf (sample_dtype a, sample_shape a, sample_bytes a, sample_objects a)"
  using Rep_sample_array [of a]
  by (simp add: sample_dtype_def sample_shape_def sample_bytes_def sample_objects_def del: array_wf.simps)

lemma sample_eqI:
  "sample_dtype a = sample_dtype b \<Longrightarrow> sample_shape a = sample_shape b \<Longrightarrow> sample_bytes a = sample_bytes b
    \<Longrightarrow> sample_objects a = sample_objects b \<Longrightarrow> a = b"
  by (metis Rep_sample_array_inject prod.collapse sample_bytes_def sample_dtype_def sample_objects_def sample_shape_def)

lemma le_value_bytes: "le_value (le_bytes n v) = v mod 256 ^ n"
  by (induction n arbitrary: v) (simp_all add: unat_byte_of_nat mod_mult2_eq del: unsigned_of_nat)

lemma elements_concat: "elements k (length vs) (concat (map (le_bytes k) vs)) = map (\<lambda>v. v mod 256 ^ k) vs"
  by (induction vs) (simp_all add: le_value_bytes)

lemma number_array_parts:
  assumes "np_itemsize d = Some k" and "prod_list s = length xs"
  shows "sample_dtype (number_array d s xs) = d" "sample_shape (number_array d s xs) = s" "sample_objects (number_array d s xs) = []"
    "sample_bytes (number_array d s xs) = concat (map (\<lambda>x. le_bytes k (np_code d x)) xs)"
    "sample_numbers (number_array d s xs) = map (\<lambda>x. np_number d (np_code d x mod 256 ^ k)) xs"
proof -
  have "array_wf (d, s, concat (map (le_bytes k) (map (np_code d) xs)), [])"
    using assms by (simp add: length_concat_le_bytes del: map_map)
  note p = sample_parts [OF this]
  have n: "number_array d s xs = Abs_sample_array (d, s, concat (map (le_bytes k) (map (np_code d) xs)), [])"
    using assms(1) by (simp add: number_array_def del: map_map)
  show "sample_dtype (number_array d s xs) = d" "sample_shape (number_array d s xs) = s" "sample_objects (number_array d s xs) = []"
    by (simp_all add: n p del: map_map)
  show "sample_bytes (number_array d s xs) = concat (map (\<lambda>x. le_bytes k (np_code d x)) xs)" unfolding n p by (simp add: comp_def)
  show "sample_numbers (number_array d s xs) = map (\<lambda>x. np_number d (np_code d x mod 256 ^ k)) xs"
    using elements_concat [of k "map (np_code d) xs"] assms by (simp add: sample_numbers_def n p comp_def del: map_map) (simp add: comp_def)
qed

lemma np_code_unsigned:
  "0 \<le> i \<Longrightarrow> i < 256 ^ k \<Longrightarrow> k \<le> 8 \<Longrightarrow> int (nat (i mod 2 ^ 64) mod 256 ^ k) = i"
proof -
  assume i: "0 \<le> i" "i < 256 ^ k" "k \<le> 8"
  have "(256 :: int) ^ k \<le> 256 ^ 8" by (rule power_increasing) (use i in simp_all)
  with i have "i mod 2 ^ 64 = i" by (intro mod_pos_pos_trivial) simp_all
  then show ?thesis using i by (simp add: zmod_int)
qed

lemma np_code_signed:
  assumes "- (256 ^ k) \<le> 2 * i" and "2 * i < 256 ^ k" and "k = 1 \<or> k = 2 \<or> k = 4 \<or> k = 8"
  shows "signed_of k (nat (i mod 2 ^ 64) mod 256 ^ k) = i"
proof -
  have "int (nat (i mod 2 ^ 64) mod 256 ^ k) = (i mod 2 ^ 64) mod 256 ^ k" by (simp add: zmod_int)
  also have "\<dots> = i mod 256 ^ k" using assms(3) by (auto intro!: mod_mod_cancel)
  also have "\<dots> = (if 0 \<le> i then i else i + 256 ^ k)"
  proof (cases "0 \<le> i")
    case True
    with assms(2) show ?thesis by (simp add: mod_pos_pos_trivial)
  next
    case False
    have "i mod 256 ^ k = (i + 256 ^ k) mod 256 ^ k" by simp
    also have "\<dots> = i + 256 ^ k" using assms(1) False by (intro mod_pos_pos_trivial) linarith+
    finally show ?thesis using False by simp
  qed
  finally show ?thesis using assms by (auto simp: signed_of_def split: if_splits)
qed

lemma np_code_holds:
  assumes "np_itemsize d = Some k" and "np_holds d x"
  shows "np_number d (np_code d x mod 256 ^ k) = x"
proof (cases x)
  case (Py_int i)
  consider (bool) "d = NP_bool" "k = 1" "0 \<le> i" "i \<le> 1"
    | (unsigned) "d \<noteq> NP_bool" "d \<noteq> NP_float16" "\<And>e. np_number d e = Py_int (int e)" "0 \<le> i" "i < 256 ^ k" "k \<le> 8"
    | (signed) "d \<noteq> NP_bool" "d \<noteq> NP_float16" "\<And>e. np_number d e = Py_int (signed_of k e)"
        "- (256 ^ k) \<le> 2 * i" "2 * i < 256 ^ k" "k = 1 \<or> k = 2 \<or> k = 4 \<or> k = 8"
    using assms Py_int by (cases d) (auto split: option.splits)
  then show ?thesis
  proof cases
    case unsigned
    with np_code_unsigned [OF unsigned(4-6)] Py_int show ?thesis by (simp only: np_code_def py_number.case if_False)
  next
    case signed
    with np_code_signed [OF signed(4-6)] Py_int show ?thesis by (simp only: np_code_def py_number.case if_False)
  next
    case bool
    then have "i = 0 \<or> i = 1" by linarith
    with bool Py_int show ?thesis by (auto simp: np_code_def)
  qed
next
  case (Py_float w)
  have "unat w < 2 ^ LENGTH(32)" by (rule unsigned_less)
  with Py_float assms show ?thesis by (cases d) (simp_all add: np_code_def)
next
  case (Py_double w)
  have "unat w < 2 ^ LENGTH(64)" by (rule unsigned_less)
  with Py_double assms show ?thesis by (cases d) (simp_all add: np_code_def)
qed

lemma number_array_holds:
  assumes "np_itemsize d = Some k" and "prod_list s = length xs" and "list_all (np_holds d) xs"
  shows "sample_numbers (number_array d s xs) = xs"
  unfolding number_array_parts [OF assms(1,2)]
  by (rule map_idI) (use np_code_holds [OF assms(1)] assms(3) in \<open>auto simp: list_all_iff\<close>)

lemma strip_nulls_id: "s = [] \<or> last s \<noteq> 0 \<Longrightarrow> strip_nulls s = s"
  by (cases s rule: rev_cases) (auto simp: strip_nulls_def)

lemma sample_numpy_ok: "numpy_ok sample_numpy"
  unfolding numpy_ok_def sample_numpy_simps
proof (intro conjI allI impI)
  fix a k
  assume "np_itemsize (sample_dtype a) = Some k"
  then show "length (sample_bytes a) = k * prod_list (sample_shape a)" using sample_wf [of a] by simp
next
  fix a
  assume "sample_dtype a = NP_object"
  then show "length (sample_objects a) = prod_list (sample_shape a)" using sample_wf [of a] by simp
next
  fix a b
  assume "np_itemsize (sample_dtype a) \<noteq> None \<and> sample_dtype b = sample_dtype a \<and> sample_shape b = sample_shape a
    \<and> sample_bytes b = sample_bytes a"
  then show "b = a" using sample_wf [of a] sample_wf [of b] by (intro sample_eqI) auto
next
  fix a b
  assume "sample_dtype a = NP_object \<and> sample_dtype b = NP_object \<and> sample_shape b = sample_shape a
    \<and> sample_objects b = sample_objects a"
  then show "b = a" using sample_wf [of a] sample_wf [of b] by (intro sample_eqI) auto
next
  fix a dims
  assume p: "prod_list dims = prod_list (sample_shape a)"
  then have "array_wf (sample_dtype a, dims, sample_bytes a, sample_objects a)" using sample_wf [of a] by (simp split: option.splits)
  from sample_parts [OF this] p
  show "\<exists>b. np_reshape sample_numpy a (map int dims) = Inr b \<and> sample_shape b = dims \<and> sample_dtype b = sample_dtype a
      \<and> sample_bytes b = sample_bytes a \<and> sample_objects b = sample_objects a"
    by (simp add: sample_numpy_def list_all_iff comp_def)
next
  fix bs :: bytes and d k n
  assume b: "np_itemsize d = Some k \<and> bs \<noteq> [] \<and> length bs = k * n"
  then have k: "k \<noteq> 0" by (metis length_0_conv mult_0)
  from b have "array_wf (d, [n], bs, [])" by simp
  from sample_parts [OF this] b k
  show "\<exists>b. np_frombuffer sample_numpy bs d = Inr b \<and> sample_dtype b = d \<and> sample_shape b = [n] \<and> sample_bytes b = bs"
    by (simp add: sample_numpy_def)
next
  fix xs d
  assume "np_itemsize d \<noteq> None \<and> list_all (np_holds d) xs"
  then show "\<exists>b. np_asarray sample_numpy (Fields [xs]) d = Inr b \<and> sample_dtype b = d \<and> sample_shape b = [1, length xs]
      \<and> sample_numbers b = xs"
    using number_array_parts [of d _ "[1, length xs]" xs] number_array_holds [of d _ "[1, length xs]" xs]
    by (auto simp: sample_numpy_def)
next
  fix a d
  assume "np_itemsize (sample_dtype a) \<noteq> None \<and> np_itemsize d \<noteq> None
    \<and> list_all (np_holds (sample_dtype a)) (sample_numbers a) \<and> list_all (np_holds d) (sample_numbers a)"
  moreover from this obtain k where "np_itemsize d = Some k" by auto
  moreover have "prod_list (sample_shape a) = length (sample_numbers a)" by (simp add: sample_numbers_def)
  ultimately show "sample_dtype (np_astype sample_numpy a d) = d" "sample_shape (np_astype sample_numpy a d) = sample_shape a"
    "sample_numbers (np_astype sample_numpy a d) = sample_numbers a"
    using number_array_parts [of d k "sample_shape a" "sample_numbers a"] number_array_holds [of d k "sample_shape a" "sample_numbers a"]
    by (simp_all add: sample_numpy_def)
next
  fix ss :: "nat list list"
  assume "list_all (\<lambda>s. s = [] \<or> last s \<noteq> 0) ss"
  then have m: "map (\<lambda>s. Py_str (strip_nulls s)) ss = map Py_str ss"
    by (intro map_cong) (auto simp: list_all_iff intro: strip_nulls_id)
  have "array_wf (NP_other ''str'', [length ss], [], map Py_str ss)" "array_wf (NP_object, [length ss], [], map Py_str ss)" by simp_all
  note p = sample_parts [OF this(1)] sample_parts [OF this(2)]
  have "np_astype sample_numpy (np_asarray_strings sample_numpy ss) NP_object = Abs_sample_array (NP_object, [length ss], [], map Py_str ss)"
    by (simp add: sample_numpy_def m p)
  with p show "sample_dtype (np_astype sample_numpy (np_asarray_strings sample_numpy ss) NP_object) = NP_object"
    "sample_shape (np_astype sample_numpy (np_asarray_strings sample_numpy ss) NP_object) = [length ss]"
    "sample_objects (np_astype sample_numpy (np_asarray_strings sample_numpy ss) NP_object) = map Py_str ss"
    by simp_all
qed

text \<open>Two signed numbers, minus one and three hundred, through a field of 32-bit integers.\<close>

definition sample_shorts :: sample_array where
  "sample_shorts = Abs_sample_array (NP_int16, [2], [255, 255, 44, 1], [])"

lemma two_elements: "elements 2 2 [a, b, c, d] = [unat a + 256 * unat b, unat c + 256 * unat d]"
  by (simp add: numeral_2_eq_2)

lemma sample_shorts_parts [simp]:
  "sample_dtype sample_shorts = NP_int16" "sample_shape sample_shorts = [2]" "sample_bytes sample_shorts = [255, 255, 44, 1]"
  "sample_numbers sample_shorts = [Py_int (- 1), Py_int 300]"
  by (simp_all add: sample_shorts_def sample_parts sample_numbers_def two_elements signed_of_def)

theorem arrays_survive_witness:
  "\<exists>t t'. from_array sample_numpy sample_shorts [] = Inr t
    \<and> SetMLValue sample_types (proto3_view t) = Inr (Inr (array_value sample_numpy sample_shorts))
    \<and> MLValueToTensorProto sample_types True (array_value sample_numpy sample_shorts) False empty_TensorProto = Inr t'
    \<and> to_array sample_numpy (proto3_view t') = Inr sample_shorts"
  by (rule arrays_survive [OF sample_numpy_ok sample_types_ok])
     (simp_all add: sample_types_def array_ok_def shape_ok_def served_dtype_def typed_ok_def)

text \<open>One, with the bit pattern \<^verbatim>\<open>3C00\<close>, comes back as 15360, with the bit pattern \<^verbatim>\<open>7380\<close>.\<close>

definition sample_half :: "nat \<Rightarrow> sample_array" where
  "sample_half bits = Abs_sample_array (NP_float16, [1], le_bytes 2 bits, [])"

lemma sample_half_parts:
  "sample_dtype (sample_half bits) = NP_float16" "sample_shape (sample_half bits) = [1]" "sample_bytes (sample_half bits) = le_bytes 2 bits"
  "sample_objects (sample_half bits) = []"
  by (simp_all add: sample_half_def sample_parts)

theorem half_precision_misread_witness:
  "\<exists>t. MLValueToTensorProto sample_types True (array_value sample_numpy (sample_half 0x3C00)) False empty_TensorProto = Inr t
     \<and> to_array sample_numpy t = Inr (sample_half 0x7380)"
proof -
  have "half_of 15360 = 0x7380" by (simp add: half_of_def Let_def log2.simps)
  moreover have "np_elements sample_numpy (sample_half 0x3C00) = [15360]"
    using elements_concat [of 2 "[15360]"] by (simp add: np_elements_def sample_half_parts del: le_bytes.simps)
  moreover note number_array_parts [of NP_uint16 2 "[1, 1]" "[Py_int 15360]"] number_array_parts [of NP_float16 2 "[1, 1]" "[Py_int 15360]"]
  ultimately show ?thesis
    using half_precision_misread [OF sample_numpy_ok, of "sample_half 0x3C00" sample_types]
    by (simp add: sample_numpy_def sample_half_parts np_code_def) (simp add: sample_half_def)
qed

end
