(* ===== verification/End_To_End.thy ===== *)
theory End_To_End
  imports Host_Main Numpy_Helper
begin

text \<open>
  A prediction through all components: the client of \<^verbatim>\<open>client.py\<close>, the extension module and the protocol client, the HTTP session with the
  routes of the host, the enclave object, the entry points of the enclave, the protocol server, the executor and the session of the model.
\<close>

section \<open>The client against the server\<close>

text \<open>
  A request to a URL below \<open>base\<close> reaches the routes of the server as a POST to the rest of the URL; \<open>i\<close> is the identifier
  the server gives it.
\<close>

definition host_net ::
    "http_lib \<Rightarrow> ('v, 'm) HostEnclave Routes \<Rightarrow> string \<Rightarrow> string \<Rightarrow> ('v, 'm) HostEnclave py_net" where
  "host_net H routes i base url fs body h =
     (if take (length base) url \<noteq> base then (Inl ConnectionError, h)
      else case Session_HandleRequest H routes i
             \<lparr>rq_method = verb_post, rq_target = ''/'' @ drop (length base) url, rq_fields = fs, rq_body = body, rq_keep_alive = True\<rparr> h of
        (Inl e, h') \<Rightarrow> (Inl ConnectionError, h')
      | (Inr resp, h') \<Rightarrow> (Inr (rs_status resp, rs_body resp), h'))"

text \<open>What a request of the client is answered, from what the enclave answers.\<close>

definition answer_of :: "EnclaveCallStatus \<Rightarrow> bytes option \<Rightarrow> http_status \<times> bytes" where
  "answer_of status out =
     (if status = SUCCESS then (200, the out)
      else (400, bytes_of_string (CreateJsonError (status_code status) (''Code: '' @ to_string (status_code status)))))"

definition client_admitted :: "HostEnvironment \<Rightarrow> 'c py_client \<Rightarrow> bool" where
  "client_admitted env k \<longleftrightarrow> he_auth_key env = [] \<or> pc_auth k = Some (''Bearer '' @ he_auth_key env)"

definition serving :: "oe_host_lib \<Rightarrow> ('v, 'm) HostEnclave \<Rightarrow> bool" where
  "serving O1 h \<longleftrightarrow> \<not> en_aborted h \<and> (\<forall>n. oe_enter O1 n = OE_OK)"

definition call_done :: "('v, 'm) enclave_state \<Rightarrow> ('v, 'm) HostEnclave \<Rightarrow> ('v, 'm) HostEnclave" where
  "call_done g h = h\<lparr>en_calls := en_calls h + 1, en_enclave := g\<rparr>"

lemma call_done_simps [simp]:
  "en_enclave (call_done g h) = g" "serving O1 (call_done g h) = serving O1 h"
  by (simp_all add: call_done_def serving_def)

lemma Enclave_HandleRequest_ok:
  assumes "serving O1 h" and "EnclaveHandleRequest E rt m MAX_OUTPUT_SIZE (en_enclave h) = (Inr (status, out), g)"
    and "status = SUCCESS \<Longrightarrow> out \<noteq> None"
  shows "Enclave_HandleRequest O1 E i rt m h =
    (if status = SUCCESS then Inr (the out) else Inl (EnclaveCallError (status_code status)), call_done g h)"
proof -
  have "checked_ecall O1 (EnclaveHandleRequest E rt m MAX_OUTPUT_SIZE) h = (Inr (status, out), call_done g h)"
    unfolding call_done_def
    by (rule checked_ecall_ok [where m = "EnclaveHandleRequest E rt m MAX_OUTPUT_SIZE", OF _ _ assms(2)])
       (use assms(1) in \<open>simp_all add: serving_def\<close>)
  with assms(3) show ?thesis
    by (auto simp: Enclave_HandleRequest_def cbind_def cthen_def clift_def cret_def EnclaveCallError_Check_def
        status_code_zero_iff split: option.splits)
qed

lemma auth_field:
  "field_of ''Authorization'' (REQUEST_HEADERS @ (case a of None \<Rightarrow> [] | Some x \<Rightarrow> [(''Authorization'', x)])) = a"
  by (cases a) (simp_all add: field_of_def REQUEST_HEADERS_def same_field_def tolower_def)

lemma send_request_ok:
  assumes H: "http_lib_ok H" and a: "client_admitted env k" and rt: "route_type (''/'' @ path) = Some rt"
    and h: "serving O1 h" and e: "EnclaveHandleRequest E rt m MAX_OUTPUT_SIZE (en_enclave h) = (Inr (status, out), g)"
    and s: "status = SUCCESS \<Longrightarrow> out \<noteq> None"
  shows "send_request P (host_net H (app_routes (server_app O1 E env hc)) i (pc_url k)) m path (k, h) =
    (if status = SUCCESS then Inr (the out) else Inl (RequestError_new P 400 (snd (answer_of status out))),
     (k, call_done g h))"
proof -
  define fs where "fs = REQUEST_HEADERS @ (case pc_auth k of None \<Rightarrow> [] | Some x \<Rightarrow> [(''Authorization'', x)])"
  define req where "req = \<lparr>rq_method = verb_post, rq_target = ''/'' @ path, rq_fields = fs, rq_body = m, rq_keep_alive = True\<rparr>"
  have f: "field_of ''Authorization'' fs = pc_auth k" unfolding fs_def by (rule auth_field)
  have "http_answer H O1 E env i req h = (fst (answer_of status out), snd (answer_of status out), call_done g h)"
    using a f rt Enclave_HandleRequest_ok [OF h e s]
    by (auto simp: http_answer_def backend_answer_def req_def client_admitted_def answer_of_def)
  moreover obtain r h' where r: "Session_HandleRequest H (app_routes (server_app O1 E env hc)) i req h = (r, h')"
    by (metis surj_pair)
  ultimately obtain resp where "r = Inr resp" "h' = call_done g h"
    "rs_status resp = fst (answer_of status out)" "rs_body resp = snd (answer_of status out)"
    using Session_HandleRequest_answered [OF H, of O1 E env i req h hc] by (cases r) (auto simp: answered_def)
  with r show ?thesis
    by (auto simp: send_request_def do_request_def host_net_def cbind_def req_def fs_def answer_of_def)
qed

text \<open>
  The messages fit into the buffers: \<^verbatim>\<open>MAX_KEY_REQUEST_SIZE\<close> and \<^verbatim>\<open>MAX_REQUEST_SIZE\<close> in the module,
  \<^verbatim>\<open>max_output_size\<close> in the host.
\<close>

definition key_exchange_fits :: "libs \<Rightarrow> 'd server \<Rightarrow> bool" where
  "key_exchange_fits L s \<longleftrightarrow> (\<forall>nonce. length nonce = NONCE_SIZE \<longrightarrow>
     length (fb_encode (l_fb L) \<lparr>msg_version = Version_v1,
       msg_body = Body_KeyRequest (Some \<lparr>kreq_nonce = Some nonce\<rparr>)\<rparr>) \<le> MAX_KEY_REQUEST_SIZE
   \<and> length (fb_encode (l_fb L) \<lparr>msg_version = Version_v1,
       msg_body = Body_KeyResponse (Some (server_key_response L s nonce))\<rparr>) \<le> MAX_OUTPUT_SIZE)"

definition request_fits :: "libs \<Rightarrow> bytes \<Rightarrow> bool" where
  "request_fits L p \<longleftrightarrow> (\<forall>v iv tag pk ad ct.
     length iv = IV_SIZE \<longrightarrow> length tag = TAG_SIZE \<longrightarrow> length pk = KEY_SIZE \<longrightarrow> length ad = NONCE_SIZE \<longrightarrow> length ct = length p \<longrightarrow>
     length (fb_encode (l_fb L) \<lparr>msg_version = Version_v1, msg_body = Body_Request (Some
       \<lparr>req_key_version = v, req_iv = Some iv, req_tag = Some tag,
        req_client_share = Some \<lparr>ec_point_format = PointFormat_Compressed, ec_xy = Some pk\<rparr>,
        req_additional_data = Some ad, req_ciphertext = Some ct\<rparr>)\<rparr>) \<le> MAX_REQUEST_SIZE)"

definition response_fits :: "libs \<Rightarrow> bytes \<Rightarrow> bool" where
  "response_fits L p \<longleftrightarrow> (\<forall>b iv tag ad ct.
     length iv = IV_SIZE \<longrightarrow> length tag = TAG_SIZE \<longrightarrow> length ad = NONCE_SIZE \<longrightarrow> length ct = length p \<longrightarrow>
     length (fb_encode (l_fb L) \<lparr>msg_version = Version_v1, msg_body = Body_Response (Some
       \<lparr>res_key_outdated = b, res_iv = Some iv, res_tag = Some tag, res_additional_data = Some ad,
        res_ciphertext = Some ct\<rparr>)\<rparr>) \<le> MAX_OUTPUT_SIZE)"

text \<open>A server in the enclave, with a model that is open.\<close>

definition enclave_serves :: "('v, 'j, 'm) enclave_libs \<Rightarrow> provider_state server \<Rightarrow> ('v, 'm) enclave_state \<Rightarrow> bool" where
  "enclave_serves E s g \<longleftrightarrow> g_server g = Some s \<and> server_keyed (el_libs E) s
     \<and> length (current_key (srv_key_provider s)) = KEY_SIZE \<and> ew_env (g_world g) \<noteq> None"

lemma enclave_responds:
  assumes "enclave_serves E s g"
    and "Server_RespondToMessage (el_libs E) (provider_DoRefreshKey E) (HandleRequest E rt) m n (s, g_world g) = (r, (s, g_world g))"
  shows "EnclaveHandleRequest E rt m n g =
    (case r of Inl e \<Rightarrow> if is_Fault e then (Inl e, g) else (Inr (request_error_status e, None), g) | Inr out \<Rightarrow> (Inr (SUCCESS, Some out), g))"
proof -
  have "g\<lparr>g_server := Some s, g_world := g_world g\<rparr> = g" using assms(1) by (cases g) (simp add: enclave_serves_def)
  then show ?thesis
    using assms
    by (auto simp: enclave_serves_def EnclaveHandleRequest_def on_confmsg_server_def cbind_def ccatch_def cget_def cret_def cthrow_def
        split: sum.splits)
qed

lemma key_step:
  assumes L: "linked Lc (el_libs E)" and H: "http_lib_ok H" and a: "client_admitted env k" and h: "serving O1 h"
    and s: "enclave_serves E s (en_enclave h)" and fits: "key_exchange_fits (el_libs E) s"
    and c: "client_ready Lc (pc_client k)" "client_accepts Lc (pc_client k) s"
    and force: "pc_key_outdated k \<or> force"
  shows "\<exists>c'. request_key_if_outdated P Lc (host_net H (app_routes (server_app O1 E env hc)) i (pc_url k)) force (k, h)
      = (Inr (), (k\<lparr>pc_client := c', pc_key_outdated := False, pc_key_rollover_count := pc_key_rollover_count k + 1\<rparr>,
           call_done (en_enclave h) h))
    \<and> client_ready Lc c'
    \<and> client_keyed Lc c' (current_key (srv_key_provider s)) (current_key_version (srv_key_provider s))
    \<and> cl_server_nonce c' = srv_nonce s"
proof -
  note l = linkedD [OF L]
  let ?c = "pc_client k" and ?g = "en_enclave h"
  let ?m1 = "fb_encode (l_fb (el_libs E)) \<lparr>msg_version = Version_v1,
     msg_body = Body_KeyRequest (Some \<lparr>kreq_nonce = Some (cl_nonce ?c)\<rparr>)\<rparr>"
  let ?r = "server_key_response (el_libs E) s (cl_nonce ?c)"
  let ?m2 = "fb_encode (l_fb (el_libs E)) \<lparr>msg_version = Version_v1, msg_body = Body_KeyResponse (Some ?r)\<rparr>"
  have nl: "length (cl_nonce ?c) = NONCE_SIZE" using c(1) by (simp add: client_ready_def)
  have k: "length (current_key (srv_key_provider s)) = KEY_SIZE" and sk: "server_keyed (el_libs E) s"
    using s by (simp_all add: enclave_serves_def)
  have f: "length ?m1 \<le> MAX_KEY_REQUEST_SIZE" "length ?m2 \<le> MAX_OUTPUT_SIZE"
    using fits nl by (auto simp: key_exchange_fits_def)
  have v: "Client_VerifyKeyResponse Lc ?c ?r
    = Inr (EverCrypt_Curve25519_secret_to_public (l_crypto Lc) (current_key (srv_key_provider s)), Some (srv_nonce s))"
    using Client_VerifyKeyResponse_honest [OF l(3) l(6) l(1) k sk c(2)] sk l(1) by (simp add: server_keyed_def)
  from Client_HandleKeyResponse_ok [OF _ _ c(1) k v] l obtain c' where
    hk: "Client_HandleKeyResponse Lc ?r ?c = (Inr Result_KeyResponse, c')" and c': "client_ready Lc c'"
      "client_keyed Lc c' (current_key (srv_key_provider s)) (kres_key_version ?r)" "cl_server_nonce c' = srv_nonce s" by auto
  have "Server_RespondToMessage (el_libs E) (provider_DoRefreshKey E) (HandleRequest E RequestType_Score) ?m1 MAX_OUTPUT_SIZE
      (s, g_world ?g) = (Inr ?m2, (s, g_world ?g))"
    using f(2) by (simp add: Server_RespondToMessage_def l(8) Server_HandleKeyRequest_ok [OF l(3) k nl] WriteMessage_def)
  from enclave_responds [OF s this]
  have e: "EnclaveHandleRequest E RequestType_Score ?m1 MAX_OUTPUT_SIZE ?g = (Inr (SUCCESS, Some ?m2), ?g)" by simp
  have rt: "route_type (''/'' @ PREDICT_URL_PATH) = Some RequestType_Score" by (simp add: route_type_def PREDICT_URL_PATH_def)
  have h1: "py_make_key_request Lc ?c = Inr ?m1"
    using f(1) l(2) by (simp add: py_make_key_request_def Client_MakeKeyRequest_def WriteMessage_def)
  have h2: "py_handle_message Lc ?m2 ?c = (Inr Result_KeyResponse, c')"
    using hk l(2,8) by (simp add: py_handle_message_def Client_HandleMessage_def)
  have self: "k\<lparr>pc_client := ?c\<rparr> = k" by simp
  have "request_key_if_outdated P Lc (host_net H (app_routes (server_app O1 E env hc)) i (pc_url k)) force (k, h)
      = (Inr (), (k\<lparr>pc_client := c', pc_key_outdated := False, pc_key_rollover_count := pc_key_rollover_count k + 1\<rparr>,
           call_done ?g h))"
    using force h1 h2 send_request_ok [OF H a rt h e, of P hc i]
    by (auto simp: request_key_if_outdated_def cbind_def cthen_def on_module_eq self cmodify_def)
  moreover have "kres_key_version ?r = current_key_version (srv_key_provider s)" by (simp add: server_key_response_def)
  ultimately show ?thesis using c' by metis
qed

text \<open>A request of a client whose server share the server still holds, and of one whose key is gone.\<close>

lemma request_message:
  assumes L: "linked Lc (el_libs E)" and c: "client_ready Lc (pc_client k)" "client_keyed Lc (pc_client k) key v"
    and fits: "request_fits (el_libs E) data" and n: "length (cl_server_nonce (pc_client k)) = NONCE_SIZE"
  shows "\<exists>iv. py_make_request Lc data (pc_client k)
      = (Inr (fb_encode (l_fb (el_libs E)) \<lparr>msg_version = Version_v1,
           msg_body = Body_Request (Some (client_request Lc (pc_client k) data))\<rparr>), (pc_client k)\<lparr>cl_dynamic_iv := iv\<rparr>)
    \<and> length iv = IV_SIZE"
proof -
  note l = linkedD [OF L]
  have C: "crypto_lengths (l_crypto Lc)" "aead_correct (l_crypto Lc)" using l by simp_all
  note len = client_keyed_lengths [OF C(1) c]
  have x: "length (map2 (XOR) (cl_static_iv (pc_client k)) (cl_dynamic_iv (pc_client k))) = IV_SIZE" using len by simp
  have "length (fb_encode (l_fb Lc) \<lparr>msg_version = Version_v1,
       msg_body = Body_Request (Some (client_request Lc (pc_client k) data))\<rparr>) \<le> MAX_REQUEST_SIZE"
    using fits n len aead_correctD(3,4) [OF C(2) len(2) x] l(2) unfolding request_fits_def client_request_def Let_def by simp
  from Client_MakeRequest_ok [OF C c this] l(2) IncrementIV_value [OF len(5)] show ?thesis
    by (auto simp: py_make_request_def)
qed

lemma score_unchanged:
  assumes "ew_env w = Some env" and "el_pb_parse E data = Some request"
    and "Predict (el_ort E) (env_session env) (env_model_output_names env) request = (Inr st, response)"
    and "st_code st = OK_CODE" and "el_pb_serialize E response = Some out"
  shows "HandleRequest E RequestType_Score data w = (Inr out, w)"
  using assms by (simp add: HandleRequest_def HandleScore_def GetSession_def GetModelOutputNames_def)

lemma request_step:
  assumes L: "linked Lc (el_libs E)" and H: "http_lib_ok H" and a: "client_admitted env k" and h: "serving O1 h"
    and s: "enclave_serves E s (en_enclave h)"
    and c: "client_ready Lc (pc_client k)"
      "client_keyed Lc (pc_client k) (current_key (srv_key_provider s)) (current_key_version (srv_key_provider s))"
    and n: "length (cl_server_nonce (pc_client k)) = NONCE_SIZE"
    and fits: "request_fits (el_libs E) data" "response_fits (el_libs E) out"
    and score: "HandleRequest E RequestType_Score data (g_world (en_enclave h)) = (Inr out, g_world (en_enclave h))"
  shows "\<exists>c' m. request_once P Lc (host_net H (app_routes (server_app O1 E env hc)) i (pc_url k)) data (k, h)
      = (Inr m, (k\<lparr>pc_client := c'\<rparr>, call_done (en_enclave h) h))
    \<and> py_handle_message Lc m c' = (Inr (Result_Response out False), c')
    \<and> client_ready Lc c'
    \<and> client_keyed Lc c' (current_key (srv_key_provider s)) (current_key_version (srv_key_provider s))"
proof -
  note l = linkedD [OF L]
  let ?c = "pc_client k" and ?g = "en_enclave h" and ?key = "current_key (srv_key_provider s)"
  let ?v = "current_key_version (srv_key_provider s)"
  obtain iv where m: "py_make_request Lc data ?c
      = (Inr (fb_encode (l_fb (el_libs E)) \<lparr>msg_version = Version_v1,
           msg_body = Body_Request (Some (client_request Lc ?c data))\<rparr>), ?c\<lparr>cl_dynamic_iv := iv\<rparr>)" "length iv = IV_SIZE"
    using request_message [OF L c fits(1) n] by blast
  let ?m1 = "fb_encode (l_fb (el_libs E)) \<lparr>msg_version = Version_v1, msg_body = Body_Request (Some (client_request Lc ?c data))\<rparr>"
  let ?c' = "?c\<lparr>cl_dynamic_iv := iv\<rparr>"
  let ?sec = "EverCrypt_Curve25519_ecdh (l_crypto (el_libs E)) ?key (cl_public_key ?c)"
  let ?r = "server_response (el_libs E) s ?sec out False"
  let ?m2 = "fb_encode (l_fb (el_libs E)) \<lparr>msg_version = Version_v1, msg_body = Body_Response (Some ?r)\<rparr>"
  have k: "length ?key = KEY_SIZE" and sn: "length (srv_nonce s) = NONCE_SIZE"
    using s by (simp_all add: enclave_serves_def server_keyed_def)
  have gk: "GetKey (srv_key_provider s) ?v = Inr ?key" and o: "IsKeyOutdated (srv_key_provider s) ?v = Inr False"
    by (simp_all add: GetKey_def IsKeyOutdated_def)
  have "length ?m2 \<le> MAX_OUTPUT_SIZE"
    using fits(2) sn aead_correctD(3,4) [OF l(5) derived_lengths [OF l(3)], of True ?sec True ?sec "srv_nonce s" out]
      derived_lengths(2) [OF l(3)]
    unfolding response_fits_def server_response_def Let_def by simp
  then have "Server_RespondToMessage (el_libs E) (provider_DoRefreshKey E) (HandleRequest E RequestType_Score) ?m1 MAX_OUTPUT_SIZE
      (s, g_world ?g) = (Inr ?m2, (s, g_world ?g))"
    by (simp add: Server_RespondToMessage_request [OF l(3) l(5) l(7) l(1) c gk k o] score WriteMessage_def)
  from enclave_responds [OF s this]
  have e: "EnclaveHandleRequest E RequestType_Score ?m1 MAX_OUTPUT_SIZE ?g = (Inr (SUCCESS, Some ?m2), ?g)" by simp
  have rt: "route_type (''/'' @ PREDICT_URL_PATH) = Some RequestType_Score" by (simp add: route_type_def PREDICT_URL_PATH_def)
  have a': "client_admitted env (k\<lparr>pc_client := ?c'\<rparr>)" using a by (simp add: client_admitted_def)
  have 1: "request_once P Lc (host_net H (app_routes (server_app O1 E env hc)) i (pc_url k)) data (k, h)
      = (Inr ?m2, (k\<lparr>pc_client := ?c'\<rparr>, call_done ?g h))"
    using m send_request_ok [OF H a' rt h e, of P hc i] by (simp add: request_once_def cbind_def on_module_eq)
  have kc': "client_keyed Lc ?c' ?key ?v" using c(2) by (simp add: client_keyed_def)
  have cpk: "cl_public_key ?c' = cl_public_key ?c" by simp
  have "Client_HandleResponse Lc ?c' ?r = Inr (Result_Response out False)"
    using Client_HandleResponse_ok [OF l(3) l(5) l(1) kc'] unfolding cpk .
  then have "py_handle_message Lc ?m2 ?c' = (Inr (Result_Response out False), ?c')"
    using l(2,8) by (simp add: py_handle_message_def Client_HandleMessage_def)
  moreover have "client_ready Lc ?c'" using c(1) m(2) by (simp add: client_ready_def)
  ultimately show ?thesis using 1 kc' by blast
qed

definition reads_error_bodies :: "py_libs \<Rightarrow> bool" where
  "reads_error_bodies P \<longleftrightarrow> (\<forall>status. py_error_code P
     (bytes_of_string (CreateJsonError (status_code status) (''Code: '' @ to_string (status_code status))))
       = Some (Some (status_code status)))"

lemma refused_step:
  assumes L: "linked Lc (el_libs E)" and H: "http_lib_ok H" and a: "client_admitted env k" and h: "serving O1 h"
    and s: "enclave_serves E s (en_enclave h)" and P: "reads_error_bodies P"
    and c: "client_ready Lc (pc_client k)" "client_keyed Lc (pc_client k) key v"
    and n: "length (cl_server_nonce (pc_client k)) = NONCE_SIZE"
    and v: "\<not> v > current_key_version (srv_key_provider s)" and gk: "GetKey (srv_key_provider s) v = Inl (CryptoError msg)"
    and fits: "request_fits (el_libs E) data"
  shows "\<exists>iv text. request_once P Lc (host_net H (app_routes (server_app O1 E env hc)) i (pc_url k)) data (k, h)
      = (Inl (RequestError 400 text (Some 2)), (k\<lparr>pc_client := (pc_client k)\<lparr>cl_dynamic_iv := iv\<rparr>\<rparr>, call_done (en_enclave h) h))
    \<and> length iv = IV_SIZE"
proof -
  note l = linkedD [OF L]
  let ?c = "pc_client k" and ?g = "en_enclave h"
  have C: "crypto_lengths (l_crypto Lc)" "aead_correct (l_crypto Lc)" using l by simp_all
  obtain iv where m: "py_make_request Lc data ?c
      = (Inr (fb_encode (l_fb (el_libs E)) \<lparr>msg_version = Version_v1,
           msg_body = Body_Request (Some (client_request Lc ?c data))\<rparr>), ?c\<lparr>cl_dynamic_iv := iv\<rparr>)" "length iv = IV_SIZE"
    using request_message [OF L c fits n] by blast
  let ?m1 = "fb_encode (l_fb (el_libs E)) \<lparr>msg_version = Version_v1, msg_body = Body_Request (Some (client_request Lc ?c data))\<rparr>"
  have "req_key_version (client_request Lc ?c data) = v" using c(2) by (simp add: client_request_def client_keyed_def Let_def)
  then have "Server_RespondToMessage (el_libs E) (provider_DoRefreshKey E) (HandleRequest E RequestType_Score) ?m1 MAX_OUTPUT_SIZE
      (s, g_world ?g) = (Inl (CryptoError msg), (s, g_world ?g))"
    using v by (simp add: Server_RespondToMessage_def l(8) Server_HandleRequest_def Server_SyncForClient_def cbind_def cthen_def
        Server_OpenRequest_no_key [OF C c gk])
  from enclave_responds [OF s this]
  have e: "EnclaveHandleRequest E RequestType_Score ?m1 MAX_OUTPUT_SIZE ?g = (Inr (CRYPTO_ERROR, None), ?g)" by simp
  have rt: "route_type (''/'' @ PREDICT_URL_PATH) = Some RequestType_Score" by (simp add: route_type_def PREDICT_URL_PATH_def)
  have a': "client_admitted env (k\<lparr>pc_client := ?c\<lparr>cl_dynamic_iv := iv\<rparr>\<rparr>)" using a by (simp add: client_admitted_def)
  have "RequestError_new P 400 (snd (answer_of CRYPTO_ERROR None)) = RequestError 400 (snd (answer_of CRYPTO_ERROR None)) (Some 2)"
    using spec [OF P [unfolded reads_error_bodies_def], of CRYPTO_ERROR] by (simp add: RequestError_new_def answer_of_def)
  then have "request_once P Lc (host_net H (app_routes (server_app O1 E env hc)) i (pc_url k)) data (k, h)
      = (Inl (RequestError 400 (snd (answer_of CRYPTO_ERROR None)) (Some 2)),
         (k\<lparr>pc_client := ?c\<lparr>cl_dynamic_iv := iv\<rparr>\<rparr>, call_done ?g h))"
    using m(1) send_request_ok [OF H a' rt h e, of P hc i] by (simp add: request_once_def cbind_def on_module_eq)
  with m(2) show ?thesis by blast
qed

text \<open>Whether a client accepts a server depends on the identity it expects, not on its session.\<close>

definition client_expects :: "'d client \<Rightarrow> string \<times> bytes \<times> bytes \<times> bool" where
  "client_expects c = (cl_expected_enclave_signing_key_pem c, cl_expected_enclave_hash c, cl_expected_service_identifier c, cl_allow_debug c)"

lemma checks_cong:
  assumes "client_expects c' = client_expects c"
  shows "Client_CheckEnclaveHash L c' r = Client_CheckEnclaveHash L c r" "Client_CheckSigner L c' r = Client_CheckSigner L c r"
    "Client_CheckIdentityFields L c' r = Client_CheckIdentityFields L c r"
    "Client_CheckServiceIdentifier c' i = Client_CheckServiceIdentifier c i"
  using assms by (simp_all add: client_expects_def Client_CheckEnclaveHash_def Client_CheckSigner_def Client_CheckIdentityFields_def
      Client_CheckServiceIdentifier_def)

lemma client_accepts_cong:
  assumes "client_expects c' = client_expects c"
  shows "client_accepts L c' s = client_accepts L c s"
proof -
  have q: "Client_VerifyQuote L c' q d p i = Client_VerifyQuote L c q d p i" for q d p i
    unfolding Client_VerifyQuote_def checks_cong [OF assms] by (rule refl)
  have "cl_expected_enclave_signing_key_pem c' = cl_expected_enclave_signing_key_pem c"
    "cl_expected_enclave_hash c' = cl_expected_enclave_hash c" using assms by (simp_all add: client_expects_def)
  then show ?thesis unfolding client_accepts_def Client_CheckEvidence_def checks_cong(4) [OF assms] q by (simp only:)
qed

text \<open>What \<open>predict\<close> makes of an answer that reaches it.\<close>

lemma predict_answered:
  assumes "request_key_if_outdated P L net False (k, w) = (Inr (), (k1, w1))"
    and "request_once P L net data (k1, w1) = (Inr m, (k2, w2))"
    and "py_handle_message L m (pc_client k2) = (Inr (Result_Response out False), c)"
  shows "predict P L net data (k, w) = (Inr out, (k2\<lparr>pc_client := c\<rparr>, w2))"
  using assms
  by (simp add: predict_def cthen_def cbind_def ccatch_def on_module_eq clift_def cret_def py_has_data_def py_get_data_def
      py_is_key_outdated_def Result_GetPayload_def Result_IsKeyOutdated_def)

lemma predict_retried:
  assumes "request_key_if_outdated P L net False (k, w) = (Inr (), (k1, w1))"
    and "request_once P L net data (k1, w1) = (Inl (RequestError st text (Some 2)), (k2, w2))"
    and "request_key_if_outdated P L net True (k2, w2) = (Inr (), (k3, w3))"
    and "request_once P L net data (k3, w3) = (Inr m, (k4, w4))"
    and "py_handle_message L m (pc_client k4) = (Inr (Result_Response out False), c)"
  shows "predict P L net data (k, w)
    = (Inr out, (k4\<lparr>pc_client := c, pc_key_invalid_count := pc_key_invalid_count k4 + 1\<rparr>, w4))"
  using assms
  by (simp add: predict_def cthen_def cbind_def ccatch_def on_module_eq clift_def cret_def cmodify_def py_has_data_def py_get_data_def
      py_is_key_outdated_def Result_GetPayload_def Result_IsKeyOutdated_def)

lemma new_client_predicts:
  assumes L: "linked Lc (el_libs E)" and H: "http_lib_ok H" and a: "client_admitted env k" and h: "serving O1 h"
    and s: "enclave_serves E s (en_enclave h)"
    and c: "client_ready Lc (pc_client k)" "client_accepts Lc (pc_client k) s" "pc_key_outdated k"
    and fits: "key_exchange_fits (el_libs E) s" "request_fits (el_libs E) data" "response_fits (el_libs E) out"
    and w: "ew_env (g_world (en_enclave h)) = Some senv" "env_session senv = Some m"
    and q: "el_pb_parse E data = Some request"
      "Predict (el_ort E) (Some m) (env_model_output_names senv) request = (Inr st, response)" "st_code st = OK_CODE"
      "el_pb_serialize E response = Some out"
  shows "\<exists>c'. predict P Lc (host_net H (app_routes (server_app O1 E env hc)) i (pc_url k)) data (k, h)
      = (Inr out, (k\<lparr>pc_client := c', pc_key_outdated := False, pc_key_rollover_count := pc_key_rollover_count k + 1\<rparr>,
          call_done (en_enclave h) (call_done (en_enclave h) h)))
    \<and> client_keyed Lc c' (current_key (srv_key_provider s)) (current_key_version (srv_key_provider s))"
proof -
  let ?net = "host_net H (app_routes (server_app O1 E env hc)) i (pc_url k)"
  obtain c1 where k1: "request_key_if_outdated P Lc ?net False (k, h)
      = (Inr (), (k\<lparr>pc_client := c1, pc_key_outdated := False, pc_key_rollover_count := pc_key_rollover_count k + 1\<rparr>,
           call_done (en_enclave h) h))" (is "_ = (_, (?k1, ?h1))")
    and c1: "client_ready Lc c1" "client_keyed Lc c1 (current_key (srv_key_provider s)) (current_key_version (srv_key_provider s))"
      "cl_server_nonce c1 = srv_nonce s"
    using key_step [OF L H a h s fits(1) c(1,2), of False P hc i] c(3) by blast
  have sn: "length (cl_server_nonce c1) = NONCE_SIZE" using s c1(3) by (simp add: enclave_serves_def server_keyed_def)
  have a1: "client_admitted env ?k1" using a by (simp add: client_admitted_def)
  have score: "HandleRequest E RequestType_Score data (g_world (en_enclave ?h1)) = (Inr out, g_world (en_enclave ?h1))"
    using score_unchanged [OF w(1) q(1) _ q(3,4)] q(2) w(2) by simp
  obtain c2 msg where r: "request_once P Lc ?net data (?k1, ?h1) = (Inr msg, (?k1\<lparr>pc_client := c2\<rparr>, call_done (en_enclave h) ?h1))"
    "py_handle_message Lc msg c2 = (Inr (Result_Response out False), c2)"
    and c2: "client_keyed Lc c2 (current_key (srv_key_provider s)) (current_key_version (srv_key_provider s))"
    using request_step [OF L H a1, of O1 ?h1 s data out P hc i] h s c1 sn fits(2,3) score by auto
  have "predict P Lc ?net data (k, h) = (Inr out, (?k1\<lparr>pc_client := c2\<rparr>, call_done (en_enclave h) ?h1))"
    using predict_answered [OF k1 r(1)] r(2) by simp
  with c2 show ?thesis by (intro exI [of _ c2]) simp
qed

text \<open>
  C4: a prediction through all components. A new client that is admitted and accepts the identity of the
  enclave calls \<^verbatim>\<open>predict\<close>: it exchanges keys and sends its request over the HTTP routes of the host into the enclave, and gets back
  exactly what the session of the model computes for its request, when the messages fit into the buffers. The enclave is
  left as it was; the client holds the current key and has counted one key exchange.
\<close>

theorem predict_end_to_end:
  assumes L: "linked Lc (el_libs E)" and H: "http_lib_ok H" and a: "client_admitted env k" and h: "serving O1 h"
    and s: "enclave_serves E s (en_enclave h)"
    and c: "client_ready Lc (pc_client k)" "client_accepts Lc (pc_client k) s" "pc_key_outdated k"
    and fits: "key_exchange_fits (el_libs E) s" "request_fits (el_libs E) data" "response_fits (el_libs E) out"
    and w: "ew_env (g_world (en_enclave h)) = Some senv" "env_session senv = Some m"
    and q: "el_pb_parse E data = Some request"
      "Predict (el_ort E) (Some m) (env_model_output_names senv) request = (Inr st, response)" "st_code st = OK_CODE"
      "el_pb_serialize E response = Some out"
  shows "\<exists>k' h'. predict P Lc (host_net H (app_routes (server_app O1 E env hc)) i (pc_url k)) data (k, h) = (Inr out, (k', h'))
    \<and> en_enclave h' = en_enclave h \<and> \<not> pc_key_outdated k' \<and> pc_key_rollover_count k' = pc_key_rollover_count k + 1
    \<and> client_keyed Lc (pc_client k') (current_key (srv_key_provider s)) (current_key_version (srv_key_provider s))"
proof -
  obtain c' where "predict P Lc (host_net H (app_routes (server_app O1 E env hc)) i (pc_url k)) data (k, h)
      = (Inr out, (k\<lparr>pc_client := c', pc_key_outdated := False, pc_key_rollover_count := pc_key_rollover_count k + 1\<rparr>,
          call_done (en_enclave h) (call_done (en_enclave h) h)))"
    "client_keyed Lc c' (current_key (srv_key_provider s)) (current_key_version (srv_key_provider s))"
    using new_client_predicts [OF assms, of P hc i] by blast
  then show ?thesis by simp
qed

text \<open>
  C21: a client whose key the server has retired recovers. Its request is refused with the status for crypto errors,
  which the host reports as 400 with that code in the body; the client exchanges keys anew and repeats the request, which is answered.
  The enclave is left as it was, and the client has counted one invalid key.
\<close>

theorem predict_recovers_from_retired_key:
  assumes L: "linked Lc (el_libs E)" and H: "http_lib_ok H" and a: "client_admitted env k" and h: "serving O1 h"
    and s: "enclave_serves E s (en_enclave h)" and P: "reads_error_bodies P"
    and c: "client_ready Lc (pc_client k)" "client_accepts Lc (pc_client k) s" "\<not> pc_key_outdated k"
      "client_keyed Lc (pc_client k) key v" "length (cl_server_nonce (pc_client k)) = NONCE_SIZE"
    and v: "\<not> v > current_key_version (srv_key_provider s)" "GetKey (srv_key_provider s) v = Inl (CryptoError msg)"
    and fits: "key_exchange_fits (el_libs E) s" "request_fits (el_libs E) data" "response_fits (el_libs E) out"
    and w: "ew_env (g_world (en_enclave h)) = Some senv" "env_session senv = Some m"
    and q: "el_pb_parse E data = Some request"
      "Predict (el_ort E) (Some m) (env_model_output_names senv) request = (Inr st, response)" "st_code st = OK_CODE"
      "el_pb_serialize E response = Some out"
  shows "\<exists>k' h'. predict P Lc (host_net H (app_routes (server_app O1 E env hc)) i (pc_url k)) data (k, h) = (Inr out, (k', h'))
    \<and> en_enclave h' = en_enclave h \<and> \<not> pc_key_outdated k' \<and> pc_key_invalid_count k' = pc_key_invalid_count k + 1
    \<and> client_keyed Lc (pc_client k') (current_key (srv_key_provider s)) (current_key_version (srv_key_provider s))"
proof -
  let ?net = "host_net H (app_routes (server_app O1 E env hc)) i (pc_url k)" and ?g = "en_enclave h"
  have r0: "request_key_if_outdated P Lc ?net False (k, h) = (Inr (), (k, h))"
    using c(3) by (simp add: request_key_if_outdated_def cbind_def cget_def cret_def)
  obtain iv body where r1: "request_once P Lc ?net data (k, h)
      = (Inl (RequestError 400 body (Some 2)), (k\<lparr>pc_client := (pc_client k)\<lparr>cl_dynamic_iv := iv\<rparr>\<rparr>, call_done ?g h))"
      (is "_ = (_, (?k1, ?h1))") and iv: "length iv = IV_SIZE"
    using refused_step [OF L H a h s P c(1,4,5) v fits(2), of hc i] by blast
  have k1: "client_admitted env ?k1" "client_ready Lc (pc_client ?k1)" "client_accepts Lc (pc_client ?k1) s"
    using a c(1,2) iv client_accepts_cong [of "pc_client ?k1" "pc_client k" Lc s]
    by (simp_all add: client_admitted_def client_ready_def client_expects_def)
  obtain c2 where r2: "request_key_if_outdated P Lc ?net True (?k1, ?h1)
      = (Inr (), (?k1\<lparr>pc_client := c2, pc_key_outdated := False, pc_key_rollover_count := pc_key_rollover_count k + 1\<rparr>,
           call_done ?g ?h1))" (is "_ = (_, (?k2, ?h2))")
    and c2: "client_ready Lc c2" "client_keyed Lc c2 (current_key (srv_key_provider s)) (current_key_version (srv_key_provider s))"
      "cl_server_nonce c2 = srv_nonce s"
    using key_step [OF L H k1(1) _ _ fits(1) k1(2,3), of O1 ?h1 True P hc i] h s by auto
  have sn: "length (cl_server_nonce c2) = NONCE_SIZE" using s c2(3) by (simp add: enclave_serves_def server_keyed_def)
  have a2: "client_admitted env ?k2" using a by (simp add: client_admitted_def)
  have score: "HandleRequest E RequestType_Score data (g_world (en_enclave ?h2)) = (Inr out, g_world (en_enclave ?h2))"
    using score_unchanged [OF w(1) q(1) _ q(3,4)] q(2) w(2) by simp
  obtain c3 m3 where r3: "request_once P Lc ?net data (?k2, ?h2) = (Inr m3, (?k2\<lparr>pc_client := c3\<rparr>, call_done ?g ?h2))"
    "py_handle_message Lc m3 c3 = (Inr (Result_Response out False), c3)"
    and c3: "client_keyed Lc c3 (current_key (srv_key_provider s)) (current_key_version (srv_key_provider s))"
    using request_step [OF L H a2, of O1 ?h2 s data out P hc i] h s c2 sn fits(2,3) score by auto
  have "predict P Lc ?net data (k, h) = (Inr out,
      (?k2\<lparr>pc_client := c3, pc_key_invalid_count := pc_key_invalid_count k + 1\<rparr>, call_done ?g ?h2))"
    using predict_retried [OF r0 r1 r2 r3(1)] r3(2) by simp
  with c3 show ?thesis by simp
qed

section \<open>A concrete client\<close>

text \<open>A reader of error bodies: the number after the first key.\<close>

definition sample_py :: py_libs where
  "sample_py =
     \<lparr>py_error_code = (\<lambda>b. Some (Some (int (digits_value 10 (takeWhile (is_digit_in 10) (drop 15 (map (\<lambda>x. char_of (unat x)) b))))))),
      py_basic_auth = (\<lambda>user pass. ''Basic '' @ user @ pass)\<rparr>"

lemma dec_table:
  "dec_of_nat 0 = ''0''" "dec_of_nat (Suc 0) = ''1''" "dec_of_nat 2 = ''2''" "dec_of_nat 3 = ''3''" "dec_of_nat 4 = ''4''"
  "dec_of_nat 5 = ''5''" "dec_of_nat 6 = ''6''" "dec_of_nat 7 = ''7''" "dec_of_nat 8 = ''8''" "dec_of_nat 9 = ''9''"
  "dec_of_nat 10 = ''10''" "dec_of_nat 11 = ''11''" "dec_of_nat 12 = ''12''" "dec_of_nat 13 = ''13''"
  by code_simp+

lemma error_body_code:
  assumes "list_all (is_digit_in 10) (dec_of_nat n)" and "digits_value 10 (dec_of_nat n) = n"
  shows "py_error_code sample_py (bytes_of_string (CreateJsonError (int n) m)) = Some (Some (int n))"
proof -
  have "takeWhile (is_digit_in 10) (dec_of_nat n @ '', '' @ r) = dec_of_nat n" for r
    using assms(1) by (subst takeWhile_append2) (auto simp: list_all_iff is_digit_in_def digit_value_def)
  from this [of "[CHR 0x22] @ ''error_message'' @ [CHR 0x22] @ '': '' @ [CHR 0x22] @ escape_string m @ [CHR 0x22] @ ''}'' @ [CHR 0x0A]"]
  show ?thesis
    using assms(2) by (simp add: sample_py_def chars_of_bytes CreateJsonError_def to_string_def)
qed

lemma sample_reads_error_bodies: "reads_error_bodies sample_py"
  unfolding reads_error_bodies_def
proof (intro allI)
  fix status
  define n where "n = nat (status_code status)"
  have n: "status_code status = int n" by (cases status) (simp_all add: n_def)
  have "list_all (is_digit_in 10) (dec_of_nat n) \<and> digits_value 10 (dec_of_nat n) = n"
    by (cases status) (simp_all add: n_def dec_table is_digit_in_def digits_value_def digit_value_def)
  then show "py_error_code sample_py (bytes_of_string (CreateJsonError (status_code status) (''Code: '' @ to_string (status_code status))))
       = Some (Some (status_code status))"
    unfolding n by (intro error_body_code) simp_all
qed

text \<open>Lengths on the sample codec.\<close>

lemma put_bytes_length: "length (put_bytes (Some b)) = 2 * length b + 2"
proof -
  have "length (put_list put_byte b) = 2 * length b + 1" by (induction b) (simp_all add: put_byte_def)
  then show ?thesis by simp
qed

lemmas put_defs = sample_codec_def put_KeyRequest_def put_KeyResponse_def put_Request_def put_Response_def put_via_def put_pair_def
  put_ECPoint_def put_SignedServiceIdentity_def put_Evidence_def put_byte_def put_bool_def

lemma sample_request_fits: "length p \<le> 1000000 \<Longrightarrow> request_fits sample_enclave_libs p"
  unfolding request_fits_def sample_libs_simps
  by (simp add: put_defs put_bytes_length [simplified] size_defs MAX_REQUEST_SIZE_def u32_bytes_def Let_def)

lemma sample_response_fits: "length p \<le> 1000000 \<Longrightarrow> response_fits sample_enclave_libs p"
  unfolding response_fits_def sample_libs_simps
  by (simp add: put_defs put_bytes_length [simplified] size_defs MAX_OUTPUT_SIZE_def)

text \<open>The sample server with a quote, and a host in front of it.\<close>

definition attested_server :: "provider_state server" where
  "attested_server = sample_enclave_server\<lparr>srv_evidence := [(Quote, 7 # replicate 32 64)]\<rparr>"

definition scoring_env :: "(unit, provider_state) ServerEnvironment" where
  "scoring_env = (sample_model_env [] [''y''])\<lparr>env_session := Some ()\<rparr>"

definition scoring_host :: "(unit, unit) HostEnclave" where
  "scoring_host = sample_host Thread_none (sample_state (Some attested_server) (Some scoring_env))"

definition sample_py_client :: "unit client \<Rightarrow> bool \<Rightarrow> unit py_client" where
  "sample_py_client c outdated = \<lparr>pc_url = ''http://h/'', pc_key_outdated = outdated, pc_key_rollover_count = - 1,
     pc_key_invalid_count = 0, pc_client = c, pc_auth = Some (HTTPBearerKeyAuth ''k'')\<rparr>"

lemma scoring_host_serves:
  "enclave_serves sample_E attested_server (en_enclave scoring_host)" "serving sample_oe_host scoring_host"
  "key_exchange_fits (el_libs sample_E) attested_server"
  "ew_env (g_world (en_enclave scoring_host)) = Some scoring_env" "env_session scoring_env = Some ()"
  "env_model_output_names scoring_env = [''y'']"
proof -
  show "enclave_serves sample_E attested_server (en_enclave scoring_host)"
    by (simp add: enclave_serves_def scoring_host_def sample_host_def sample_state_def attested_server_def server_keyed_def
        sample_enclave_server_key sample_E_def sample_crypto_def size_defs) (simp add: sample_enclave_server_def)
  show "serving sample_oe_host scoring_host"
    by (simp add: serving_def scoring_host_def sample_host_def sample_oe_host_ok)
  show "key_exchange_fits (el_libs sample_E) attested_server"
    by (simp add: key_exchange_fits_def sample_E_def put_defs server_key_response_def put_bytes_length [simplified] size_defs
        MAX_KEY_REQUEST_SIZE_def MAX_OUTPUT_SIZE_def attested_server_def sample_enclave_server_def sample_crypto_def
        u32_bytes_def Let_def)
qed (simp_all add: scoring_host_def sample_host_def sample_state_def scoring_env_def sample_model_env_def)

lemma attested_accepted: "client_accepts sample_host_libs sample_client attested_server"
proof -
  have "srv_evidence attested_server = srv_evidence (sample_server 4)" "srv_public_key attested_server = srv_public_key (sample_server 4)"
    "srv_service_identifier attested_server = srv_service_identifier (sample_server 4)"
    by (simp_all add: attested_server_def sample_enclave_server_def sample_server_def)
  then show ?thesis using sample_client_accepts [of 4] by (simp add: client_accepts_def)
qed

lemma echo_scored:
  "\<exists>st response. Predict (el_ort sample_E) (Some ()) (env_model_output_names scoring_env) echo_request = (Inr st, response)
     \<and> st_code st = OK_CODE \<and> el_pb_serialize sample_E response = Some [1]"
  using echo_predict by (auto simp: sample_E_def scoring_host_serves(6))

lemma sample_predict:
  "\<exists>k' h'. predict sample_py sample_host_libs
       (host_net sample_http (app_routes (server_app sample_oe_host sample_E sample_host_env 2)) ''i'' ''http://h/'') [1]
       (sample_py_client sample_client True, scoring_host) = (Inr [1], (k', h'))"
proof -
  obtain st response where q: "Predict (el_ort sample_E) (Some ()) (env_model_output_names scoring_env) echo_request = (Inr st, response)"
    "st_code st = OK_CODE" "el_pb_serialize sample_E response = Some [1]" using echo_scored by blast
  have p: "el_pb_parse sample_E [1] = Some echo_request" by (simp add: sample_E_def)
  have "request_fits (el_libs sample_E) [1]" "response_fits (el_libs sample_E) [1]"
    using sample_request_fits [of "[1]"] sample_response_fits [of "[1]"] by (simp_all add: sample_E_def)
  moreover have "client_admitted sample_host_env (sample_py_client sample_client True)"
    by (simp add: client_admitted_def sample_py_client_def HTTPBearerKeyAuth_def)
  ultimately show ?thesis
    using new_client_predicts [OF sample_E_linked sample_http_ok _ scoring_host_serves(2,1) _ _ _ scoring_host_serves(3) _ _
        scoring_host_serves(4,5) p q, of sample_host_env "sample_py_client sample_client True" sample_py 2 "''i''"]
      sample_client_ready attested_accepted
    by (auto simp: sample_py_client_def)
qed

theorem predict_end_to_end_witness:
  "\<exists>k' h'. predict sample_py sample_host_libs
       (host_net sample_http (app_routes (server_app sample_oe_host sample_E sample_host_env 2)) ''i'' ''http://h/'') [1]
       (sample_py_client sample_client True, scoring_host) = (Inr [1], (k', h')) \<and> pc_key_rollover_count k' = 0"
proof -
  obtain st response where q: "Predict (el_ort sample_E) (Some ()) (env_model_output_names scoring_env) echo_request = (Inr st, response)"
    "st_code st = OK_CODE" "el_pb_serialize sample_E response = Some [1]" using echo_scored by blast
  have p: "el_pb_parse sample_E [1] = Some echo_request" by (simp add: sample_E_def)
  have "request_fits (el_libs sample_E) [1]" "response_fits (el_libs sample_E) [1]"
    using sample_request_fits [of "[1]"] sample_response_fits [of "[1]"] by (simp_all add: sample_E_def)
  moreover have "client_admitted sample_host_env (sample_py_client sample_client True)"
    by (simp add: client_admitted_def sample_py_client_def HTTPBearerKeyAuth_def)
  ultimately show ?thesis
    using predict_end_to_end [OF sample_E_linked sample_http_ok _ scoring_host_serves(2,1) _ _ _ scoring_host_serves(3) _ _
        scoring_host_serves(4,5) p q, of sample_host_env "sample_py_client sample_client True" sample_py 2 "''i''"]
      sample_client_ready attested_accepted
    by (auto simp: sample_py_client_def)
qed

theorem predict_recovers_from_retired_key_witness:
  "\<exists>k' h'. predict sample_py sample_host_libs
       (host_net sample_http (app_routes (server_app sample_oe_host sample_E sample_host_env 2)) ''i'' ''http://h/'') [1]
       (sample_py_client (sample_keyed_client 2) False, scoring_host) = (Inr [1], (k', h')) \<and> pc_key_invalid_count k' = 1"
proof -
  obtain st response where q: "Predict (el_ort sample_E) (Some ()) (env_model_output_names scoring_env) echo_request = (Inr st, response)"
    "st_code st = OK_CODE" "el_pb_serialize sample_E response = Some [1]" using echo_scored by blast
  have p: "el_pb_parse sample_E [1] = Some echo_request" by (simp add: sample_E_def)
  have "request_fits (el_libs sample_E) [1]" "response_fits (el_libs sample_E) [1]"
    using sample_request_fits [of "[1]"] sample_response_fits [of "[1]"] by (simp_all add: sample_E_def)
  moreover have "client_admitted sample_host_env (sample_py_client (sample_keyed_client 2) False)"
    by (simp add: client_admitted_def sample_py_client_def HTTPBearerKeyAuth_def)
  moreover have "\<not> (2 :: u32) > current_key_version (srv_key_provider attested_server)"
    "GetKey (srv_key_provider attested_server) 2 = Inl (CryptoError ''key with specified version not found'')"
    by (simp_all add: attested_server_def sample_enclave_server_def retype_def sample_key_provider_def GetKey_def)
  moreover have "client_accepts sample_host_libs (sample_keyed_client 2) attested_server"
    using client_accepts_cong [of "sample_keyed_client 2" sample_client sample_host_libs attested_server] attested_accepted
    by (simp add: client_expects_def sample_keyed_client_def Let_def)
  moreover have "length (cl_server_nonce (sample_keyed_client 2)) = NONCE_SIZE" by (simp add: sample_keyed_client_def Let_def NONCE_SIZE_def)
  ultimately show ?thesis
    using predict_recovers_from_retired_key [OF sample_E_linked sample_http_ok _ scoring_host_serves(2,1) sample_reads_error_bodies
        _ _ _ _ _ _ _ scoring_host_serves(3) _ _ scoring_host_serves(4,5) p q,
        of sample_host_env "sample_py_client (sample_keyed_client 2) False" "replicate 32 64" 2 "''key with specified version not found''" 2 "''i''"]
      sample_keyed_client_ready [of 2] sample_client_keyed [of 2]
    by (auto simp: sample_py_client_def)
qed

theorem provisioning_not_acknowledged_witness:
  "\<exists>c'. provision_model_key sample_py sample_host_libs (\<lambda>url fs body w. (Inr (204, []), w)) (concat (replicate 32 ''07''))
     (sample_py_client (sample_keyed_client 4) False, ()) = (Inr (), (sample_py_client c' False, ()))"
proof -
  have "fromhex (concat (replicate 32 ''07'')) = Some (replicate 32 7)"
    by (simp add: numeral_eq_Suc isspace_def is_digit_in_def digit_value_def digits_value_def)
  moreover obtain m c' where "py_make_request sample_host_libs (replicate 32 7) (sample_keyed_client 4) = (Inr m, c')"
    using request_message [OF sample_E_linked, of "sample_py_client (sample_keyed_client 4) False" "replicate 32 64" 4 "replicate 32 7"]
      sample_keyed_client_ready [of 4] sample_client_keyed [of 4] sample_request_fits [of "replicate 32 7"]
    by (auto simp: sample_py_client_def sample_E_def sample_keyed_client_def Let_def NONCE_SIZE_def)
  ultimately have "provision_model_key sample_py sample_host_libs (\<lambda>url fs body w. (Inr (204, []), w)) (concat (replicate 32 ''07''))
     (sample_py_client (sample_keyed_client 4) False, ()) = (Inr (), ((sample_py_client (sample_keyed_client 4) False)\<lparr>pc_client := c'\<rparr>, ()))"
    by (intro provisioning_not_acknowledged [where status = 204 and anything = "[]" and m = m]) (simp_all add: sample_py_client_def)
  then show ?thesis by (auto simp: sample_py_client_def)
qed

theorem predict_answer_authentic_witness:
  "\<exists>c1 r spublic n. client_identity c1 = client_identity sample_client \<and> Client_VerifyKeyResponse sample_host_libs c1 r = Inr (spublic, n)"
proof -
  obtain k' h' where p: "predict sample_py sample_host_libs
       (host_net sample_http (app_routes (server_app sample_oe_host sample_E sample_host_env 2)) ''i'' ''http://h/'') [1]
       (sample_py_client sample_client True, scoring_host) = (Inr [1], (k', h'))" using sample_predict by blast
  have c: "pc_client (sample_py_client sample_client True) = sample_client" by (simp add: sample_py_client_def)
  have "crypto_lengths (l_crypto sample_host_libs)" "cl_in_symmetric_key sample_client = []"
    by (simp_all add: sample_client_def)
  from predict_answer_authentic [OF this(1) _ p] this(2) show ?thesis unfolding c by blast
qed

end
