(* ===== verification/Array_Session.thy ===== *)
theory Array_Session
  imports End_To_End
begin

text \<open>
  What users of the Python client see: \<^verbatim>\<open>predict\<close> on numpy arrays, through both conversions, the protocol, the HTTP server and the
  executor. The two protobuf implementations agree on the bytes, but not on the order of the entries of a map.
\<close>

definition request_agrees :: "('v, 'j, 'm) enclave_libs \<Rightarrow> py_protobuf \<Rightarrow> PredictRequest \<Rightarrow> bool" where
  "request_agrees E B r \<longleftrightarrow> request_fits (el_libs E) (py_SerializeToString B r)
     \<and> (\<exists>ins. el_pb_parse E (py_SerializeToString B r) = Some (r\<lparr>pr_inputs := ins\<rparr>)
          \<and> mset ins = mset (map (apsnd proto3_view) (pr_inputs r)))"

definition response_agrees :: "('v, 'j, 'm) enclave_libs \<Rightarrow> py_protobuf \<Rightarrow> PredictResponse \<Rightarrow> bool" where
  "response_agrees E B resp \<longleftrightarrow> (\<exists>out outs. el_pb_serialize E resp = Some out \<and> response_fits (el_libs E) out
     \<and> py_ParseFromString B out = Some outs \<and> mset outs = mset (map (apsnd proto3_view) resp))"

lemma all_raw_permuted: "mset ins' = mset ins \<Longrightarrow> all_raw N ins' \<longleftrightarrow> all_raw N ins"
  using mset_eq_setD [of ins' ins] by (simp add: all_raw_def list_all_iff)

text \<open>
  C5: a prediction on arrays, end to end. A new client that is admitted and accepts the identity of the enclave calls \<^verbatim>\<open>predict\<close> with a
  dictionary of arrays. The model in the enclave is run on exactly the values of these arrays, under their names, and the client gets a dictionary of
  the arrays the model returns, one for each of its outputs. When an input is empty or holds strings, the answer
  comes in typed fields: outputs of half precision, and signalling NaNs, are excluded then.
\<close>

theorem predict_arrays_end_to_end:
  assumes L: "linked Lc (el_libs E)" and H: "http_lib_ok H" and a: "client_admitted env k" and h: "serving O1 h"
    and s: "enclave_serves E s (en_enclave h)"
    and c: "client_ready Lc (pc_client k)" "client_accepts Lc (pc_client k) s" "pc_key_outdated k" "key_exchange_fits (el_libs E) s"
    and w: "ew_env (g_world (en_enclave h)) = Some senv" "env_session senv = Some m" "env_model_output_names senv = names"
    and N: "numpy_ok N" and T: "ort_types_ok (o_types (el_ort E))" "sizeof_string (o_types (el_ort E)) \<le> 32" "CreateCpuMemoryInfo (el_ort E)"
    and ins: "list_all (\<lambda>(n, a). array_ok N a) ins" and outs: "list_all (array_ok N) outs" "length names = length outs" "distinct names"
    and typed: "all_raw N ins \<or> list_all (typed_ok N) outs"
    and run: "\<And>ins'. mset ins' = mset ins \<Longrightarrow> ort_run (el_ort E) m (map fst ins') (map (\<lambda>(n, a). array_value N a) ins') names
        = Inr (map (\<lambda>b. (True, array_value N b)) outs)"
    and B: "\<And>ts. array_inputs N ins = Inr ts \<Longrightarrow> request_agrees E B \<lparr>pr_inputs = ts, pr_output_filter = []\<rparr>"
      "\<And>ts r resp. array_inputs N ins = Inr ts \<Longrightarrow> el_pb_parse E (py_SerializeToString B \<lparr>pr_inputs = ts, pr_output_filter = []\<rparr>) = Some r
        \<Longrightarrow> Predict (el_ort E) (Some m) names r = (Inr Status_OK, resp) \<Longrightarrow> response_agrees E B resp"
  shows "\<exists>result k' h'. predict_arrays N B P Lc (host_net H (app_routes (server_app O1 E env hc)) i (pc_url k)) ins (k, h)
      = (Inr result, (k', h')) \<and> mset result = mset (zip names outs) \<and> en_enclave h' = en_enclave h"
proof -
  obtain ts where ts: "array_inputs N ins = Inr ts" by (rule array_inputs_ok [OF N T(1,2) ins])
  let ?r = "\<lparr>pr_inputs = ts, pr_output_filter = []\<rparr>"
  obtain ys where fits: "request_fits (el_libs E) (py_SerializeToString B ?r)"
    and ys: "el_pb_parse E (py_SerializeToString B ?r) = Some (?r\<lparr>pr_inputs := ys\<rparr>)" "mset ys = mset (map (apsnd proto3_view) ts)"
    using B(1) [OF ts] by (auto simp: request_agrees_def)
  obtain ins' ts' where ins': "mset ins' = mset ins" "array_inputs N ins' = Inr ts'" "ys = map (apsnd proto3_view) ts'"
    by (rule array_inputs_permuted [OF ts ys(2)])
  have i': "list_all (\<lambda>(n, a). array_ok N a) ins'" using ins mset_eq_setD [OF ins'(1)] by (simp add: list_all_iff)
  have typed': "list_all (typed_ok N) outs" if "\<not> all_raw N ins'"
    using typed that all_raw_permuted [OF ins'(1)] by blast
  obtain resp where p: "Predict (el_ort E) (Some m) names \<lparr>pr_inputs = ys, pr_output_filter = []\<rparr> = (Inr Status_OK, resp)"
    "array_outputs N (map (apsnd proto3_view) resp) = Inr (zip names outs)"
    by (rule Predict_arrays [OF N T i' outs(1) run [OF ins'(1)] outs(2,3) typed']) (use ins'(2,3) in auto)
  obtain out zs where out: "el_pb_serialize E resp = Some out" "response_fits (el_libs E) out"
    "py_ParseFromString B out = Some zs" "mset zs = mset (map (apsnd proto3_view) resp)"
    using B(2) [OF ts ys(1)] p(1) by (auto simp: response_agrees_def)
  obtain result where res: "array_outputs N zs = Inr result" "mset result = mset (zip names outs)"
    using map_result_permuted [OF p(2) [unfolded array_outputs_def] out(4)] by (auto simp: array_outputs_def)
  obtain k' h' where "predict P Lc (host_net H (app_routes (server_app O1 E env hc)) i (pc_url k)) (py_SerializeToString B ?r) (k, h)
      = (Inr out, (k', h'))" "en_enclave h' = en_enclave h"
    using new_client_predicts [OF L H a h s c(1-4) fits out(2) w(1,2) ys(1) _ _ out(1), of Status_OK P hc i] p(1) w(3)
    by (auto simp: Status_OK_def)
  with ts out(3) res show ?thesis
    by (intro exI [of _ result] exI [of _ k'] exI [of _ h']) (simp add: predict_arrays_def cbind_def clift_def)
qed

text \<open>Two bytes for a model that returns its input.\<close>

definition sample_protobuf :: py_protobuf where
  "sample_protobuf = \<lparr>py_SerializeToString = (\<lambda>r. [1]),
     py_ParseFromString = (\<lambda>b. Some [(''y'', empty_TensorProto\<lparr>tp_dims := [2], tp_data_type := UINT8, tp_raw_data := Some [7, 8]\<rparr>)])\<rparr>"

definition sample_octets :: sample_array where
  "sample_octets = Abs_sample_array (NP_uint8, [2], [7, 8], [])"

lemma sample_octets_parts [simp]:
  "sample_dtype sample_octets = NP_uint8" "sample_shape sample_octets = [2]" "sample_bytes sample_octets = [7, 8]"
  by (simp_all add: sample_octets_def sample_parts)

lemma echo_response:
  "Predict echo_ort (Some ()) [''y''] echo_request = (Inr Status_OK, resp) \<Longrightarrow>
     resp = [(''y'', empty_TensorProto\<lparr>tp_dims := [2], tp_data_type := UINT8, tp_raw_data := Some [7, 8]\<rparr>)]"
  by (simp add: echo_evaluation Predict_def Run_def MLValueToTensorProto_def emit_numeric_def
      raw_bytes_def elem_count_def GetTensorShapeFromTensorProto_def Status_OK_def)

theorem predict_arrays_end_to_end_witness:
  "\<exists>k' h'. predict_arrays sample_numpy sample_protobuf sample_py sample_host_libs
       (host_net sample_http (app_routes (server_app sample_oe_host sample_E sample_host_env 2)) ''i'' ''http://h/'')
       [(''x'', sample_octets)] (sample_py_client sample_client True, scoring_host) = (Inr [(''y'', sample_octets)], (k', h'))"
proof -
  let ?k = "sample_py_client sample_client True" and ?ins = "[(''x'', sample_octets)]" and ?outs = "[sample_octets]"
  have e: "el_ort sample_E = echo_ort" "el_pb_parse sample_E [1] = Some echo_request" "el_libs sample_E = sample_enclave_libs"
    "el_pb_serialize sample_E [r] = Some [1]" for r
    by (simp_all add: sample_E_def)
  have f: "request_fits (el_libs sample_E) [1]" "response_fits (el_libs sample_E) [1]"
    using sample_request_fits [of "[1]"] sample_response_fits [of "[1]"] by (simp_all add: sample_E_def)
  have ts: "array_inputs sample_numpy ?ins = Inr (pr_inputs echo_request)"
    by (simp add: array_inputs_def from_array_def np_tables echo_request_def empty_TensorProto_def)
  have w: "map (apsnd proto3_view) (pr_inputs echo_request) = pr_inputs echo_request" "pr_output_filter echo_request = []"
    by (simp_all add: echo_request_def proto3_view_def)
  have ok: "array_ok sample_numpy sample_octets" "all_raw sample_numpy ?ins"
    by (simp_all add: array_ok_def all_raw_def shape_ok_def served_dtype_def)
  have B1: "request_agrees sample_E sample_protobuf \<lparr>pr_inputs = pr_inputs echo_request, pr_output_filter = []\<rparr>"
    using w f(1) e(2) by (simp add: request_agrees_def sample_protobuf_def) (intro exI [of _ "pr_inputs echo_request"], simp)
  have B2: "response_agrees sample_E sample_protobuf resp"
    if "Predict (el_ort sample_E) (Some ()) [''y''] echo_request = (Inr Status_OK, resp)" for resp
    using echo_response that f(2) e by (auto simp: response_agrees_def sample_protobuf_def proto3_view_def)
  have "\<exists>result k' h'. predict_arrays sample_numpy sample_protobuf sample_py sample_host_libs
       (host_net sample_http (app_routes (server_app sample_oe_host sample_E sample_host_env 2)) ''i'' (pc_url ?k)) ?ins (?k, scoring_host)
       = (Inr result, (k', h')) \<and> mset result = mset (zip [''y''] ?outs) \<and> en_enclave h' = en_enclave scoring_host"
  proof (rule predict_arrays_end_to_end [OF sample_E_linked sample_http_ok _ scoring_host_serves(2,1) _ _ _ scoring_host_serves(3-6)
        sample_numpy_ok])
    show "client_admitted sample_host_env ?k"
      by (simp add: client_admitted_def sample_py_client_def HTTPBearerKeyAuth_def)
    show "client_ready sample_host_libs (pc_client ?k)" "client_accepts sample_host_libs (pc_client ?k) attested_server" "pc_key_outdated ?k"
      using sample_client_ready attested_accepted by (simp_all add: sample_py_client_def)
    show "ort_types_ok (o_types (el_ort sample_E))" "sizeof_string (o_types (el_ort sample_E)) \<le> 32" "CreateCpuMemoryInfo (el_ort sample_E)"
      using sample_types_ok by (simp_all add: e echo_ort_def) (simp add: sample_types_def)
    show "ort_run (el_ort sample_E) () (map fst ins') (map (\<lambda>(n, a). array_value sample_numpy a) ins') [''y'']
        = Inr (map (\<lambda>b. (True, array_value sample_numpy b)) ?outs)" if "mset ins' = mset ?ins" for ins'
    proof -
      have "ins' = ?ins" using that by (cases ins') auto
      then show ?thesis by (simp add: e echo_ort_def)
    qed
    show "request_agrees sample_E sample_protobuf \<lparr>pr_inputs = us, pr_output_filter = []\<rparr>"
      if "array_inputs sample_numpy ?ins = Inr us" for us using that ts B1 by simp
    show "response_agrees sample_E sample_protobuf resp"
      if "array_inputs sample_numpy ?ins = Inr us"
        "el_pb_parse sample_E (py_SerializeToString sample_protobuf \<lparr>pr_inputs = us, pr_output_filter = []\<rparr>) = Some r"
        "Predict (el_ort sample_E) (Some ()) [''y''] r = (Inr Status_OK, resp)" for us r resp
      using that e(2) B2 by (simp add: sample_protobuf_def)
  qed (use ok in simp_all)
  then show ?thesis by (auto simp: sample_py_client_def)
qed

end
