(* ===== verification/Model_Tools.thy ===== *)
theory Model_Tools
  imports Environment Python_Client
begin

text \<open>
  The command line tools of the Python package: \<^verbatim>\<open>encrypt_model.py\<close> and \<^verbatim>\<open>hash_model.py\<close>, which do in Python what
  \<^verbatim>\<open>tools/encrypt_model.cc\<close> does, and the arguments of the client, \<^verbatim>\<open>main.py\<close>. The packages Crypto and hashlib, and the source of
  random bytes, are parameters. Messages on the console are left out.
\<close>

section \<open>Encryption (encrypt\_model.py)\<close>

record py_crypto =
  AES_GCM_encrypt_and_digest :: "bytes \<Rightarrow> bytes \<Rightarrow> bytes \<Rightarrow> py_error + bytes \<times> bytes"
  hashlib_sha256 :: "bytes \<Rightarrow> bytes"

type_synonym 'a tool_comp = "(file_system, py_error, 'a) comp"

definition open_read :: "string \<Rightarrow> bytes tool_comp" where
  "open_read path = cbind (cget (\<lambda>fs. fs_files fs path)) (\<lambda>f. clift (opt_or FileNotFoundError f))"

definition open_write :: "string \<Rightarrow> bytes \<Rightarrow> unit tool_comp" where
  "open_write path contents = cbind (cget (\<lambda>fs. fs_can_write fs path)) (\<lambda>ok.
     if ok then cmodify (\<lambda>fs. fs\<lparr>fs_files := (fs_files fs)(path \<mapsto> contents)\<rparr>) else cthrow FileNotFoundError)"

text \<open>The key is given as text or in a file; \<^verbatim>\<open>bytes.fromhex(None)\<close> is a type error.\<close>

definition encrypt_model :: "py_crypto \<Rightarrow> string \<Rightarrow> string \<Rightarrow> string option \<Rightarrow> string option \<Rightarrow> unit tool_comp" where
  "encrypt_model A model_path encrypted_model_path key key_path =
     cbind (case key_path of
              Some (c # cs) \<Rightarrow> cbind (open_read (c # cs)) (\<lambda>f. cret (Some (string_of_bytes f)))
            | _ \<Rightarrow> cret key) (\<lambda>key.
     cbind (case key of
              None \<Rightarrow> cthrow TypeError
            | Some k \<Rightarrow> clift (opt_or (ValueError ''non-hexadecimal number found in fromhex()'') (fromhex k))) (\<lambda>key.
     let nonce = replicate IV_SIZE 0 in
     cbind (open_read model_path) (\<lambda>model.
     cbind (clift (AES_GCM_encrypt_and_digest A key nonce model)) (\<lambda>(ciphertext, tag).
       open_write encrypted_model_path (ciphertext @ tag)))))"

text \<open>\<open>random\<close> is what \<^verbatim>\<open>secrets.token_bytes\<close> returns.\<close>

definition generate_key :: "bytes \<Rightarrow> string" where
  "generate_key random =
     (let key = random[0 := random ! 0 AND 248];
          key = key[31 := key ! 31 AND 127];
          key = key[31 := key ! 31 OR 64]
      in Buffer2Hex key)"

definition generate_key_file :: "bytes \<Rightarrow> string \<Rightarrow> unit tool_comp" where
  "generate_key_file random key_path = open_write key_path (bytes_of_string (generate_key random))"

text \<open>The last part of a path, \<^verbatim>\<open>os.path.basename\<close>.\<close>

definition basename :: "string \<Rightarrow> string" where
  "basename path = rev (takeWhile (\<lambda>c. c \<noteq> CHR ''/'') (rev path))"

definition or_default :: "string option \<Rightarrow> string \<Rightarrow> string" where
  "or_default arg fallback = (case arg of Some (c # cs) \<Rightarrow> c # cs | _ \<Rightarrow> fallback)"

definition encrypt_model_script :: "py_crypto \<Rightarrow> bytes \<Rightarrow> string \<Rightarrow> string option \<Rightarrow> string option \<Rightarrow> unit tool_comp" where
  "encrypt_model_script A random model key out =
     cbind (cget (\<lambda>fs. fs_files fs model)) (\<lambda>f.
       if f = None then cthrow (Parser_error ''model file does not exist'')
       else
         let out = or_default out (basename model @ ''.enc'');
             key = or_default key (basename model @ ''.key'')
         in cbind (cget (\<lambda>fs. fs_files fs key)) (\<lambda>f.
            cthen (if f = None then generate_key_file random key else cret ())
              (encrypt_model A model out None (Some key))))"

section \<open>Hashes (hash\_model.py)\<close>

definition hash_model :: "py_crypto \<Rightarrow> string \<Rightarrow> string tool_comp" where
  "hash_model A model_path = cbind (open_read model_path) (\<lambda>model. cret (Buffer2Hex (hashlib_sha256 A model)))"

text \<open>The result is what the script prints.\<close>

definition hash_model_script :: "py_crypto \<Rightarrow> string \<Rightarrow> string option \<Rightarrow> string tool_comp" where
  "hash_model_script A model out =
     cbind (cget (\<lambda>fs. fs_files fs model)) (\<lambda>f.
       if f = None then cthrow (Parser_error ''model file does not exist'')
       else
         cbind (hash_model A model) (\<lambda>sha.
         cthen (case out of Some (c # cs) \<Rightarrow> open_write (c # cs) (bytes_of_string sha) | _ \<Rightarrow> cret ())
           (cret sha)))"

section \<open>Arguments of the client (main.py)\<close>

datatype client_mode = Mode_predict | Mode_provision_model_key

record client_args =
  ca_mode :: client_mode
  ca_model_key :: "string option"
  ca_model_key_file :: "string option"
  ca_auth_key :: "string option"
  ca_auth_user :: string
  ca_auth_pass :: "string option"
  ca_pb_in :: "string list option"
  ca_pb_in_names :: "string list option"
  ca_json_in :: "string option"

text \<open>An argument counts as given unless it is missing or empty.\<close>

definition given :: "'x list option \<Rightarrow> bool" where
  "given arg \<longleftrightarrow> arg \<noteq> None \<and> arg \<noteq> Some []"

text \<open>\<^verbatim>\<open>None\<close> is the empty dictionary here: the constructor of the client only tests for it.\<close>

definition get_auth :: "client_args \<Rightarrow> str_map" where
  "get_auth args =
     (if given (ca_auth_key args) then [(''key'', the (ca_auth_key args))]
      else if given (ca_auth_pass args) then [(''user'', ca_auth_user args), (''pass'', the (ca_auth_pass args))]
      else [])"

definition check_args :: "client_args \<Rightarrow> py_error + client_mode" where
  "check_args args =
     (if given (ca_auth_key args) \<and> given (ca_auth_pass args)
      then Inl (Parser_error ''Only one of --auth-key or --auth-user/--auth-pass can be specified'')
      else case ca_mode args of
        Mode_predict \<Rightarrow>
          if given (ca_pb_in args) \<and> given (ca_json_in args)
          then Inl (Parser_error ''Only one of --pb-in/--json-in can be specified'')
          else if \<not> given (ca_pb_in args) \<and> \<not> given (ca_json_in args)
          then Inl (Parser_error ''One of --pb-in/--json-in must be specified'')
          else if given (ca_pb_in args)
          then (case ca_pb_in_names args of
                  None \<Rightarrow> Inl TypeError
                | Some names \<Rightarrow>
                    if length (the (ca_pb_in args)) \<noteq> length names
                    then Inl (Parser_error
                      ''Number of input files (--pb-in) does not match number of input names (--pb-in-names)'')
                    else Inr Mode_predict)
          else Inr Mode_predict
      | Mode_provision_model_key \<Rightarrow>
          if \<not> given (ca_model_key args) \<and> \<not> given (ca_model_key_file args)
          then Inl (Parser_error ''One of --model-key-file/--model-key is required for --mode provision-model-key'')
          else Inr Mode_provision_model_key)"

text \<open>Whatever the arguments, the client can turn them into a way of authentication.\<close>

lemma get_auth_accepted: "\<exists>a. py_auth P (get_auth args) = Inr a \<and> (a = None \<longleftrightarrow> \<not> given (ca_auth_key args) \<and> \<not> given (ca_auth_pass args))"
  by (auto simp: get_auth_def py_auth_def)

text \<open>Input files without names are not reported as a wrong usage.\<close>

lemma missing_input_names:
  "check_args args = Inl TypeError \<longleftrightarrow>
     \<not> (given (ca_auth_key args) \<and> given (ca_auth_pass args)) \<and> ca_mode args = Mode_predict
     \<and> given (ca_pb_in args) \<and> \<not> given (ca_json_in args) \<and> ca_pb_in_names args = None"
  by (auto simp: check_args_def split: client_mode.splits option.splits)

section \<open>The tools agree\<close>

text \<open>AES-GCM and SHA-256 are the same functions in the Python packages and in the crypto library of the enclave.\<close>

definition same_algorithms :: "py_crypto \<Rightarrow> crypto_lib \<Rightarrow> bool" where
  "same_algorithms A C \<longleftrightarrow>
     (\<forall>key iv plain. length key = SYMMETRIC_KEY_SIZE \<and> length iv = IV_SIZE \<longrightarrow>
        AES_GCM_encrypt_and_digest A key iv plain = Inr (aead_cipher C key iv [] plain, aead_tag C key iv [] plain))
   \<and> (\<forall>d. hashlib_sha256 A d = EverCrypt_Hash_hash_256 C d)"

lemma fromhex_hex: "fromhex (Buffer2Hex v) = Some v"
proof -
  have "fromhex (hex_byte x @ s) = map_option ((#) x) (fromhex s)" for x s
  proof -
    have d: "unat x div 16 < 16" "unat x mod 16 < 16" using unat_byte_less [of x] by simp_all
    then have "\<not> isspace (digit_char (unat x div 16))" using digit_value_not_special digit_value_digit_char by blast
    with d show ?thesis by (simp add: hex_byte_digits digits_value_def del: unat_byte_less)
  qed
  then show ?thesis unfolding Buffer2Hex_def by (induction v) simp_all
qed

lemma no_space_in_hex: "c \<in> set (Buffer2Hex v) \<Longrightarrow> \<not> isspace c"
proof -
  assume "c \<in> set (Buffer2Hex v)"
  then obtain x where "c \<in> set (hex_byte x)" by (auto simp: Buffer2Hex_def)
  then have "c = digit_char (unat x div 16) \<or> c = digit_char (unat x mod 16)" by (simp add: hex_byte_digits)
  moreover have "unat x div 16 < 16" "unat x mod 16 < 16" using unat_byte_less [of x] by simp_all
  ultimately show ?thesis using digit_value_not_special digit_value_digit_char by blast
qed

lemma read_word_hex: "v \<noteq> [] \<Longrightarrow> read_word (Buffer2Hex v) old = Buffer2Hex v"
proof -
  assume "v \<noteq> []"
  then have "Buffer2Hex v \<noteq> []" using confmsg_hex.enc_length [of v] by auto
  moreover have "dropWhile isspace (Buffer2Hex v) = Buffer2Hex v" "takeWhile (\<lambda>c. \<not> isspace c) (Buffer2Hex v) = Buffer2Hex v"
    using no_space_in_hex [of _ v] by (simp_all add: dropWhile_eq_self_iff takeWhile_eq_all_conv)
  ultimately show ?thesis by (simp add: read_word_def)
qed

text \<open>
  C19: the Python tool and the C++ tool encrypt alike. For a key of 32 bytes, given in hexadecimal or in a file, both write the same bytes to
  the same file and change nothing else, and the hash that \<^verbatim>\<open>hash_model.py\<close> computes of the encrypted model is the one the C++ tool prints.
\<close>

theorem encryption_tools_agree:
  assumes C: "aead_correct C" "crypto_lengths C" "incremental_hash C" and A: "same_algorithms A C"
    and key: "length key = SYMMETRIC_KEY_SIZE"
    and src: "(key_arg = Buffer2Hex key \<and> fs_files fs key_arg = None \<and> key_text = Some key_arg \<and> key_path = None)
      \<or> (key_arg \<noteq> [] \<and> fs_files fs key_arg = Some (bytes_of_string (Buffer2Hex key)) \<and> key_path = Some key_arg)"
    and fs: "fs_files fs model = Some plain" "fs_can_write fs out"
  shows "\<exists>fs' h. encrypt_model_main C [prog, key_arg, model, out] fs = (Inr (0, ''model hash: '' @ h), fs')
    \<and> encrypt_model A model out key_text key_path fs = (Inr (), fs') \<and> hash_model A out fs' = (Inr h, fs')"
proof -
  have iv: "length (replicate IV_SIZE (0 :: byte)) = IV_SIZE" by simp
  let ?c = "aead_cipher C key (replicate IV_SIZE 0) [] plain" and ?t = "aead_tag C key (replicate IV_SIZE 0) [] plain"
  let ?fs = "fs\<lparr>fs_files := (fs_files fs)(out \<mapsto> ?c @ ?t)\<rparr>" and ?h = "EverCrypt_Hash_Incremental C [?c, ?t]"
  have ne: "key \<noteq> []" using key by (auto simp: SYMMETRIC_KEY_SIZE_def)
  have enc: "Encrypt C key (replicate IV_SIZE 0) plain [] [] [] = Inr (?c, ?t)" using Encrypt_ok [OF C(1) key iv] by simp
  have hex: "Hex2Buffer (Buffer2Hex key) = Inr key" "length (Buffer2Hex key) = 2 * SYMMETRIC_KEY_SIZE"
    using confmsg_hex.dec_enc confmsg_hex.enc_length key by auto
  have "encrypt_model_main C [prog, key_arg, model, out] fs = (Inr (0, ''model hash: '' @ Buffer2Hex ?h), ?fs)"
    using src enc hex fs SHA256_list_ok [OF C(2)] read_word_hex [OF ne]
    by (auto simp: encrypt_model_main_def EncryptModelFile_def cbind_def cthen_def)
  moreover have "AES_GCM_encrypt_and_digest A key (replicate IV_SIZE 0) plain = Inr (?c, ?t)"
    using A key by (simp add: same_algorithms_def)
  then have "encrypt_model A model out key_text key_path fs = (Inr (), ?fs)"
    using src fs fromhex_hex [of key] hex(2)
    by (cases key_arg) (auto simp: encrypt_model_def open_read_def open_write_def cbind_def cget_def cret_def clift_def cmodify_def
        SYMMETRIC_KEY_SIZE_def)
  moreover have "hash_model A out ?fs = (Inr (Buffer2Hex ?h), ?fs)"
    using A C(3) by (simp add: hash_model_def open_read_def cbind_def cget_def cret_def clift_def same_algorithms_def incremental_hash_def)
  ultimately show ?thesis by blast
qed

text \<open>A key the script generates has the form of a Curve25519 key, and the script leaves it in the file it encrypts with.\<close>

lemma generated_key:
  assumes "length random = 32"
  obtains key where "generate_key random = Buffer2Hex key" "length key = SYMMETRIC_KEY_SIZE" "clamped key"
proof -
  define key where "key = (let key = random[0 := random ! 0 AND 248]; key = key[31 := key ! 31 AND 127] in key[31 := key ! 31 OR 64])"
  have "length key = 32" "key ! 0 = random ! 0 AND 248" "key ! 31 = (random ! 31 AND 127) OR 64"
    using assms by (simp_all add: key_def Let_def)
  then show thesis
    by (intro that [of key]) (simp_all add: generate_key_def key_def Let_def SYMMETRIC_KEY_SIZE_def clamped_def clamp_bits)
qed

lemma script_result:
  assumes A: "same_algorithms A C" and random: "length random = 32"
    and model: "fs_files fs model = Some plain"
    and fs: "fs_files fs (basename model @ ''.key'') = None" "\<And>p. fs_can_write fs p"
  shows "\<exists>key. clamped key \<and> encrypt_model_script A random model None None fs = (Inr (), fs\<lparr>fs_files := (fs_files fs)
      (basename model @ ''.key'' \<mapsto> bytes_of_string (Buffer2Hex key),
       basename model @ ''.enc'' \<mapsto> aead_cipher C key (replicate IV_SIZE 0) [] plain @ aead_tag C key (replicate IV_SIZE 0) [] plain)\<rparr>)"
proof -
  obtain key where key: "generate_key random = Buffer2Hex key" "length key = SYMMETRIC_KEY_SIZE" "clamped key"
    by (rule generated_key [OF random])
  let ?k = "basename model @ ''.key''" and ?e = "basename model @ ''.enc''"
  let ?fs = "fs\<lparr>fs_files := (fs_files fs)(?k \<mapsto> bytes_of_string (Buffer2Hex key))\<rparr>"
  have "model \<noteq> ?k" using model fs(1) by auto
  have "AES_GCM_encrypt_and_digest A key (replicate IV_SIZE 0) plain
      = Inr (aead_cipher C key (replicate IV_SIZE 0) [] plain, aead_tag C key (replicate IV_SIZE 0) [] plain)"
    using A key(2) by (simp add: same_algorithms_def)
  then have "encrypt_model A model ?e None (Some ?k) ?fs = (Inr (), ?fs\<lparr>fs_files := (fs_files ?fs)
      (?e \<mapsto> aead_cipher C key (replicate IV_SIZE 0) [] plain @ aead_tag C key (replicate IV_SIZE 0) [] plain)\<rparr>)"
    using fs(2) model \<open>model \<noteq> ?k\<close> fromhex_hex [of key]
    by (cases "?k") (auto simp: encrypt_model_def open_read_def open_write_def cbind_def cget_def cret_def clift_def cmodify_def)
  moreover have "generate_key_file random ?k fs = (Inr (), ?fs)"
    using fs(2) key(1) by (simp add: generate_key_file_def open_write_def cbind_def cget_def cmodify_def)
  ultimately have "encrypt_model_script A random model None None fs = (Inr (), ?fs\<lparr>fs_files := (fs_files ?fs)
      (?e \<mapsto> aead_cipher C key (replicate IV_SIZE 0) [] plain @ aead_tag C key (replicate IV_SIZE 0) [] plain)\<rparr>)"
    using model fs(1) by (simp add: encrypt_model_script_def or_default_def cbind_def cthen_def cget_def Let_def)
  then show ?thesis using key(3) by (intro exI [of _ key]) simp
qed

text \<open>The file of a hash holds what the client expects as the identifier of the service.\<close>

lemma hash_file:
  assumes "fs_files fs model = Some m" and "fs_can_write fs (c # cs)"
  shows "\<exists>h. fromhex h = Some (hashlib_sha256 A m)
    \<and> hash_model_script A model (Some (c # cs)) fs = (Inr h, fs\<lparr>fs_files := (fs_files fs)(c # cs \<mapsto> bytes_of_string h)\<rparr>)"
  using assms fromhex_hex
  by (auto simp: hash_model_script_def hash_model_def open_read_def open_write_def cbind_def cthen_def cget_def cret_def clift_def cmodify_def)

definition sample_py_crypto :: py_crypto where
  "sample_py_crypto = \<lparr>AES_GCM_encrypt_and_digest =
       (\<lambda>key iv plain. Inr (aead_cipher sample_crypto key iv [] plain, aead_tag sample_crypto key iv [] plain)),
     hashlib_sha256 = EverCrypt_Hash_hash_256 sample_crypto\<rparr>"

theorem encryption_tools_agree_witness:
  "\<exists>fs' h. encrypt_model_main sample_crypto [''encrypt_model'', Buffer2Hex sample_model_key, ''model.onnx'', ''model.enc''] sample_files
      = (Inr (0, ''model hash: '' @ h), fs')
    \<and> encrypt_model sample_py_crypto ''model.onnx'' ''model.enc'' (Some (Buffer2Hex sample_model_key)) None sample_files = (Inr (), fs')
    \<and> hash_model sample_py_crypto ''model.enc'' fs' = (Inr h, fs')"
proof (rule encryption_tools_agree [OF sample_aead sample_crypto_lengths sample_incremental_hash])
  show "same_algorithms sample_py_crypto sample_crypto" by (simp add: same_algorithms_def sample_py_crypto_def)
  show k: "length sample_model_key = SYMMETRIC_KEY_SIZE" by (simp add: sample_model_key_def size_defs)
  have "length (Buffer2Hex sample_model_key) = 2 * SYMMETRIC_KEY_SIZE" using k confmsg_hex.enc_length by simp
  then have "Buffer2Hex sample_model_key \<noteq> ''model.onnx''" by (auto simp: size_defs)
  then show "(Buffer2Hex sample_model_key = Buffer2Hex sample_model_key \<and> fs_files sample_files (Buffer2Hex sample_model_key) = None
      \<and> Some (Buffer2Hex sample_model_key) = Some (Buffer2Hex sample_model_key) \<and> None = (None :: string option))
    \<or> (Buffer2Hex sample_model_key \<noteq> [] \<and> fs_files sample_files (Buffer2Hex sample_model_key) = Some (bytes_of_string (Buffer2Hex sample_model_key))
      \<and> None = Some (Buffer2Hex sample_model_key))"
    by (simp add: sample_files_def)
qed (simp_all add: sample_files_def)

end
