(* ===== verification/Buffer_Lifetime.thy ===== *)
theory Buffer_Lifetime
  imports Executor
begin

text \<open>
  The memory of a prediction: \<^verbatim>\<open>MemBufferArray\<close> of \<^verbatim>\<open>enclave/core/util.h\<close> owns the buffers of the inputs and frees them when
  \<^verbatim>\<open>Executor::Predict\<close> returns. The strings that \<^verbatim>\<open>OrtInitializeBufferForTensor\<close> constructs inside such a buffer allocate
  further blocks of their own. Blocks are numbered and never reused.
\<close>

section \<open>The heap\<close>

record heap =
  hp_live :: "nat list"
  hp_next :: nat

definition heap_new :: "heap \<Rightarrow> nat \<times> heap" where
  "heap_new hp = (hp_next hp, hp\<lparr>hp_live := hp_live hp @ [hp_next hp], hp_next := hp_next hp + 1\<rparr>)"

definition heap_delete :: "nat \<Rightarrow> heap \<Rightarrow> exn + heap" where
  "heap_delete p hp =
     (if p \<in> set (hp_live hp) then Inr (hp\<lparr>hp_live := remove1 p (hp_live hp)\<rparr>)
      else Inl (Fault ''delete of a block that is not allocated''))"

section \<open>MemBufferArray\<close>

definition MemBufferArray_AllocNewBuffer :: "nat list \<times> heap \<Rightarrow> nat list \<times> heap" where
  "MemBufferArray_AllocNewBuffer = (\<lambda>(buffers, hp). case heap_new hp of (p, hp') \<Rightarrow> (buffers @ [p], hp'))"

fun FreeBuffers :: "nat list \<Rightarrow> heap \<Rightarrow> exn + heap" where
  "FreeBuffers [] hp = Inr hp"
| "FreeBuffers (buf # buffers) hp = rbind (heap_delete buf hp) (FreeBuffers buffers)"

section \<open>Strings in a buffer\<close>

text \<open>
  The assignment of \<^verbatim>\<open>UnpackTensor<std::string>\<close>: a string of more than \<open>sso\<close> characters does not fit into the object and
  takes a block. \<open>sso\<close> is a property of the C++ library.
\<close>

fun assign_strings :: "nat \<Rightarrow> string list \<Rightarrow> heap \<Rightarrow> heap" where
  "assign_strings sso [] hp = hp"
| "assign_strings sso (s # ss) hp = assign_strings sso ss (if sso < length s then snd (heap_new hp) else hp)"

section \<open>A prediction\<close>

text \<open>The strings of an input that has been converted.\<close>

definition value_strings :: "OrtValue \<Rightarrow> string list" where
  "value_strings v = (case ov_data v of Strings ss \<Rightarrow> ss | Raw _ \<Rightarrow> [])"

definition SetMLValue_memory :: "ort_types \<Rightarrow> nat \<Rightarrow> TensorProto \<Rightarrow> nat list \<times> heap \<Rightarrow> nat list \<times> heap" where
  "SetMLValue_memory T sso input_tensor m =
     (case GetSizeInBytesFromTensorProto T 0 input_tensor of
        Inl _ \<Rightarrow> m
      | Inr cpu_tensor_length \<Rightarrow>
          (case MemBufferArray_AllocNewBuffer m of (buffers, hp) \<Rightarrow>
             (case TensorProtoToMLValue T input_tensor (AllocNewBuffer cpu_tensor_length) of
                Inl _ \<Rightarrow> (buffers, hp)
              | Inr v \<Rightarrow> (buffers, assign_strings sso (value_strings v) hp))))"

fun SetNameMLValueMap_loop_memory :: "ort_types \<Rightarrow> nat \<Rightarrow> (string \<times> TensorProto) list \<Rightarrow> nat list \<times> heap \<Rightarrow> nat list \<times> heap" where
  "SetNameMLValueMap_loop_memory T sso [] m = m"
| "SetNameMLValueMap_loop_memory T sso ((name, t) # inputs) m =
     (let m' = SetMLValue_memory T sso t m
      in case SetMLValue T t of Inr (Inr v) \<Rightarrow> SetNameMLValueMap_loop_memory T sso inputs m' | _ \<Rightarrow> m')"

definition SetNameMLValueMap_memory :: "'m ort_lib \<Rightarrow> nat \<Rightarrow> PredictRequest \<Rightarrow> nat list \<times> heap \<Rightarrow> nat list \<times> heap" where
  "SetNameMLValueMap_memory O' sso request m =
     (if \<not> CreateCpuMemoryInfo O' then m else SetNameMLValueMap_loop_memory (o_types O') sso (pr_inputs request) m)"

text \<open>Whatever \<^verbatim>\<open>Predict\<close> returns, the destructor of the array frees its buffers on the way out.\<close>

definition Predict_memory :: "'m ort_lib \<Rightarrow> nat \<Rightarrow> PredictRequest \<Rightarrow> heap \<Rightarrow> exn + heap" where
  "Predict_memory O' sso request hp =
     (case SetNameMLValueMap_memory O' sso request ([], hp) of (buffers, hp') \<Rightarrow> FreeBuffers buffers hp')"

section \<open>What is freed and what is not\<close>

definition heap_ok :: "heap \<Rightarrow> bool" where
  "heap_ok hp \<longleftrightarrow> distinct (hp_live hp) \<and> (\<forall>p \<in> set (hp_live hp). p < hp_next hp)"

text \<open>The strings of the inputs up to the first that cannot be converted.\<close>

fun converted_strings :: "ort_types \<Rightarrow> (string \<times> TensorProto) list \<Rightarrow> string list" where
  "converted_strings T [] = []"
| "converted_strings T ((name, t) # inputs) =
     (case SetMLValue T t of Inr (Inr v) \<Rightarrow> value_strings v @ converted_strings T inputs | _ \<Rightarrow> [])"

definition long_strings :: "nat \<Rightarrow> string list \<Rightarrow> nat" where
  "long_strings sso ss = length (filter (\<lambda>s. sso < length s) ss)"

text \<open>
  The state during a prediction that started from \<open>hp0\<close> and has given \<open>k\<close> blocks to strings: the buffers are live and new, and
  everything else that is live was live before or belongs to a string.
\<close>

definition memory_ok :: "heap \<Rightarrow> nat \<Rightarrow> nat list \<times> heap \<Rightarrow> bool" where
  "memory_ok hp0 k = (\<lambda>(buffers, hp). heap_ok hp \<and> distinct buffers \<and> set buffers \<subseteq> set (hp_live hp)
     \<and> set (hp_live hp0) \<subseteq> set (hp_live hp) - set buffers \<and> hp_next hp0 \<le> hp_next hp
     \<and> length (hp_live hp) = length (hp_live hp0) + length buffers + k)"

lemma heap_new_ok: "heap_ok hp \<Longrightarrow> heap_ok (snd (heap_new hp)) \<and> hp_next hp \<notin> set (hp_live hp)"
  by (auto simp: heap_ok_def heap_new_def less_Suc_eq)

lemma memory_ok_alloc: "memory_ok hp0 k m \<Longrightarrow> memory_ok hp0 k (MemBufferArray_AllocNewBuffer m)"
  using heap_new_ok [of "snd m"]
  by (auto simp: memory_ok_def MemBufferArray_AllocNewBuffer_def heap_new_def split: prod.splits)

lemma memory_ok_string:
  "memory_ok hp0 k (buffers, hp) \<Longrightarrow> memory_ok hp0 (Suc k) (buffers, snd (heap_new hp))"
  using heap_new_ok [of hp] by (auto simp: memory_ok_def heap_new_def)

lemma memory_ok_strings:
  "memory_ok hp0 k (buffers, hp) \<Longrightarrow> memory_ok hp0 (k + long_strings sso ss) (buffers, assign_strings sso ss hp)"
proof (induction ss arbitrary: k hp)
  case (Cons s ss)
  show ?case
  proof (cases "sso < length s")
    case True
    from Cons.IH [OF memory_ok_string [OF Cons.prems]] True show ?thesis by (simp add: long_strings_def)
  next
    case False
    with Cons show ?thesis by (simp add: long_strings_def)
  qed
qed (simp add: long_strings_def)

lemma SetMLValue_value:
  "SetMLValue T t = Inr (Inr v) \<longleftrightarrow> (\<exists>n. GetSizeInBytesFromTensorProto T 0 t = Inr n \<and> TensorProtoToMLValue T t (AllocNewBuffer n) = Inr v)"
proof (cases "GetSizeInBytesFromTensorProto T 0 t")
  case (Inl e)
  then show ?thesis by (cases e) (simp_all add: SetMLValue_def catch_ort_def)
next
  case (Inr n)
  then have "SetMLValue T t = catch_ort (TensorProtoToMLValue T t (AllocNewBuffer n))"
    by (simp add: SetMLValue_def catch_ort_def)
  with Inr show ?thesis by (simp add: catch_ort_value)
qed

lemma memory_ok_input:
  assumes "memory_ok hp0 k m"
  shows "memory_ok hp0 (k + (case SetMLValue T t of Inr (Inr v) \<Rightarrow> long_strings sso (value_strings v) | _ \<Rightarrow> 0))
    (SetMLValue_memory T sso t m)"
proof (cases "\<exists>v. SetMLValue T t = Inr (Inr v)")
  case True
  then obtain v n where "SetMLValue T t = Inr (Inr v)" "GetSizeInBytesFromTensorProto T 0 t = Inr n"
    "TensorProtoToMLValue T t (AllocNewBuffer n) = Inr v" using SetMLValue_value by metis
  then show ?thesis
    using memory_ok_strings [of hp0 k _ _ sso "value_strings v"] memory_ok_alloc [OF assms]
    by (auto simp: SetMLValue_memory_def split: prod.splits)
next
  case False
  then have "memory_ok hp0 k (SetMLValue_memory T sso t m)"
    using assms memory_ok_alloc [OF assms] SetMLValue_value [of T t]
    by (auto simp: SetMLValue_memory_def split: sum.splits prod.splits)
  with False show ?thesis by (auto split: sum.splits)
qed

lemma memory_ok_inputs:
  "memory_ok hp0 k m \<Longrightarrow>
     memory_ok hp0 (k + long_strings sso (converted_strings T inputs)) (SetNameMLValueMap_loop_memory T sso inputs m)"
proof (induction inputs arbitrary: k m)
  case (Cons x inputs)
  obtain name t where x: "x = (name, t)" by (cases x)
  note i = memory_ok_input [OF Cons.prems, where T = T and t = t and sso = sso]
  show ?case
  proof (cases "\<exists>v. SetMLValue T t = Inr (Inr v)")
    case True
    then obtain v where v: "SetMLValue T t = Inr (Inr v)" by blast
    with i have "memory_ok hp0 (k + long_strings sso (value_strings v)) (SetMLValue_memory T sso t m)" by simp
    from Cons.IH [OF this] v show ?thesis by (simp add: x Let_def long_strings_def add.assoc)
  next
    case False
    with i show ?thesis by (auto simp: x Let_def long_strings_def split: sum.splits)
  qed
qed (simp add: long_strings_def)

lemma FreeBuffers_ok:
  "memory_ok hp0 k (buffers, hp) \<Longrightarrow> \<exists>hp'. FreeBuffers buffers hp = Inr hp' \<and> memory_ok hp0 k ([], hp')"
proof (induction buffers arbitrary: hp)
  case (Cons b buffers)
  let ?hp = "hp\<lparr>hp_live := remove1 b (hp_live hp)\<rparr>"
  have b: "b \<in> set (hp_live hp)" "distinct (hp_live hp)" using Cons.prems by (auto simp: memory_ok_def heap_ok_def)
  then have "memory_ok hp0 k (buffers, ?hp)"
    using Cons.prems by (auto simp: memory_ok_def heap_ok_def length_remove1)
  with Cons.IH b show ?case by (auto simp: heap_delete_def)
qed auto

text \<open>
  C39: a prediction frees every buffer it has allocated, exactly once and whether or not the inputs can be converted, and touches no other block; but of the inputs
  that hold strings, each string that is too long for the string object leaves the block of its characters behind: nothing destroys the
  strings before their buffer is freed.
\<close>

theorem buffers_freed_strings_leaked:
  assumes "heap_ok hp"
  shows "\<exists>hp'. Predict_memory O' sso request hp = Inr hp' \<and> heap_ok hp' \<and> set (hp_live hp) \<subseteq> set (hp_live hp')
    \<and> length (hp_live hp') = length (hp_live hp)
        + (if CreateCpuMemoryInfo O' then long_strings sso (converted_strings (o_types O') (pr_inputs request)) else 0)"
proof -
  let ?k = "if CreateCpuMemoryInfo O' then long_strings sso (converted_strings (o_types O') (pr_inputs request)) else 0"
  have "memory_ok hp 0 ([], hp)" using assms by (simp add: memory_ok_def)
  then have m: "memory_ok hp ?k (SetNameMLValueMap_memory O' sso request ([], hp))"
    using memory_ok_inputs [of hp 0 "([], hp)" sso "o_types O'" "pr_inputs request"]
    by (simp add: SetNameMLValueMap_memory_def)
  obtain buffers hp1 where b: "SetNameMLValueMap_memory O' sso request ([], hp) = (buffers, hp1)" by (metis surj_pair)
  from FreeBuffers_ok [OF m [unfolded b]] show ?thesis by (auto simp: Predict_memory_def b memory_ok_def)
qed

text \<open>One input of two strings, the longer of which is left behind.\<close>

definition string_request :: PredictRequest where
  "string_request = \<lparr>pr_inputs = [(''x'', string_proto [2] [''short'', ''a string of twenty-six bytes''])], pr_output_filter = []\<rparr>"

theorem buffers_freed_strings_leaked_witness:
  "\<exists>hp'. Predict_memory echo_ort 15 string_request \<lparr>hp_live = [], hp_next = 0\<rparr> = Inr hp' \<and> length (hp_live hp') = 1"
proof -
  have "heap_ok \<lparr>hp_live = [], hp_next = 0\<rparr>" by (simp add: heap_ok_def)
  moreover have "long_strings 15 (converted_strings sample_types (pr_inputs string_request)) = 1"
    by (simp add: string_request_def string_proto_def long_strings_def value_strings_def SetMLValue_def catch_ort_def
        GetSizeInBytesFromTensorProto_def empty_TensorProto_def sample_types_def SIZE_MAX_def TensorProtoToMLValue_def
        GetTensorElementType_def int64_mult_def AllocNewBuffer_def unpack_into_def UnpackTensor_string_def
        OrtInitializeBufferForTensor_def write_strings_def)
  ultimately show ?thesis
    using buffers_freed_strings_leaked [of "\<lparr>hp_live = [], hp_next = 0\<rparr>" echo_ort 15 string_request]
    by (auto simp: echo_ort_def)
qed

end
