(* ===== verification/Threading.thy ===== *)
theory Threading
  imports Prelude "HOL-Library.Multiset" "HOL-Library.Word"
begin

text \<open>
  Threads inside the enclave: the pthread hooks of \<^verbatim>\<open>server/enclave/threading.cc\<close> and the host calls
  they use, \<^verbatim>\<open>server/host/threading.cc\<close>. Both files guard their tables with spin locks: a
  locked section is one operation here, and the threads interleave between the sections. Three
  statements of \<^verbatim>\<open>EnclaveThreadFun\<close> run without the lock; each is an operation of its own. That sections under such a lock are
  atomic is shown for the lock itself in the theory of the spin lock.
  Thread identifiers of the host and of the enclave are numbers, zero is none.
\<close>

section \<open>Tables\<close>

text \<open>\<^verbatim>\<open>std::map<uint64_t, pthread_t>\<close>: pairs in the order of the keys.\<close>

type_synonym thread_table = "(64 word \<times> nat) list"

fun table_put :: "64 word \<Rightarrow> nat \<Rightarrow> thread_table \<Rightarrow> thread_table" where
  "table_put k v [] = [(k, v)]"
| "table_put k v ((k', v') # t) =
     (if k = k' then (k, v) # t else if k < k' then (k, v) # (k', v') # t else (k', v') # table_put k v t)"

definition table_insert :: "64 word \<Rightarrow> nat \<Rightarrow> thread_table \<Rightarrow> thread_table" where
  "table_insert k v t = (if map_of t k = None then table_put k v t else t)"

definition table_erase :: "64 word \<Rightarrow> thread_table \<Rightarrow> thread_table" where
  "table_erase k t = filter (\<lambda>(k', v). k' \<noteq> k) t"

text \<open>\<^verbatim>\<open>operator[]\<close> adds a missing key with the value zero.\<close>

definition table_at :: "64 word \<Rightarrow> thread_table \<Rightarrow> nat \<times> thread_table" where
  "table_at k t = (case map_of t k of Some v \<Rightarrow> (v, t) | None \<Rightarrow> (0, table_put k 0 t))"

definition table_find_value :: "nat \<Rightarrow> thread_table \<Rightarrow> 64 word option" where
  "table_find_value v t = map_option fst (find (\<lambda>p. snd p = v) t)"

section \<open>The shared state\<close>

definition MAX_ENC_KEYS :: nat where "MAX_ENC_KEYS = 4"

record thread_args =
  ta_enc_key :: "64 word"
  ta_join_ret :: int
  ta_detach_ret :: int

text \<open>
  What a thread is about to do. The first three belong to a caller of \<^verbatim>\<open>pthread_create\<close>, the next six to
  a new thread, which knows its key and its host identifier, the last six to a caller of \<^verbatim>\<open>pthread_join\<close> or
  \<^verbatim>\<open>pthread_detach\<close>.
\<close>

datatype thread_hook = Hook_join | Hook_detach

datatype 'f thread_pc =
    Host_create "64 word"
  | Host_check "64 word" nat
  | Create_poll "64 word"
  | Host_thread "64 word" nat
  | Fun_args nat "64 word"
  | Fun_register "64 word"
  | Fun_take "64 word"
  | Fun_run "64 word" 'f
  | Fun_done "64 word"
  | Create_done nat
  | Hook_lookup thread_hook nat
  | Hook_host thread_hook "64 word"
  | Hook_wait thread_hook "64 word" nat
  | Hook_erase thread_hook "64 word"
  | Hook_finish thread_hook "64 word" int
  | Hook_done thread_hook int

text \<open>
  \<open>th_outside\<close> records a write outside of \<open>_thread_args\<close>, \<open>th_aborted\<close> a call of \<^verbatim>\<open>abort\<close>. Two lists tell what
  happened: the functions given to \<^verbatim>\<open>pthread_create\<close>, and those started, with the keys of their threads.
\<close>

record 'f threading =
  thread_functions :: "'f list"
  next_enc_thread_id :: "64 word"
  enc_key_global :: "64 word"
  key_to_thread_id_map :: thread_table
  thread_args_array :: "thread_args list"
  enclave_host_id_map :: thread_table
  th_outside :: bool
  th_aborted :: bool
  th_pool :: "'f thread_pc list"
  th_created :: "'f list"
  th_started :: "(64 word \<times> 'f) list"

definition threading_init :: "'f threading" where
  "threading_init =
     \<lparr>thread_functions = [], next_enc_thread_id = 0, enc_key_global = 0, key_to_thread_id_map = [],
      thread_args_array = replicate MAX_ENC_KEYS \<lparr>ta_enc_key = 0, ta_join_ret = 0, ta_detach_ret = 0\<rparr>,
      enclave_host_id_map = [], th_outside = False, th_aborted = False, th_pool = [], th_created = [], th_started = []\<rparr>"

text \<open>
  A write past the end of the array is undefined in C++. \<open>th_outside\<close> keeps that it has happened, and the run goes on with all other data
  intact: what is shown of runs with more than four threads takes the write as harmless.
\<close>

definition write_args :: "64 word \<Rightarrow> (thread_args \<Rightarrow> thread_args) \<Rightarrow> 'f threading \<Rightarrow> 'f threading" where
  "write_args key f s =
     (let i = unat (key - 1)
      in if i < length (thread_args_array s)
         then s\<lparr>thread_args_array := (thread_args_array s)[i := f (thread_args_array s ! i)]\<rparr>
         else s\<lparr>th_outside := True\<rparr>)"

section \<open>Creating a thread\<close>

text \<open>\<^verbatim>\<open>_pthread_create_hook\<close>: the first section, up to the call of the host.\<close>

definition create_enqueue :: "'f \<Rightarrow> 'f threading \<Rightarrow> 64 word \<times> 'f threading" where
  "create_enqueue f s =
     (let enc_key = next_enc_thread_id s + 1
      in (enc_key, s\<lparr>thread_functions := thread_functions s @ [f], next_enc_thread_id := enc_key,
            enc_key_global := enc_key,
            key_to_thread_id_map := table_insert enc_key 0 (key_to_thread_id_map s),
            th_created := th_created s @ [f]\<rparr>))"

definition host_create_insert :: "64 word \<Rightarrow> 'f threading \<Rightarrow> 'f threading" where
  "host_create_insert enc_key s = s\<lparr>enclave_host_id_map := table_insert enc_key 0 (enclave_host_id_map s)\<rparr>"

text \<open>\<^verbatim>\<open>host_create_thread\<close> after its thread exists: \<open>None\<close> is another round of the waiting loop.\<close>

definition host_create_check :: "64 word \<Rightarrow> nat \<Rightarrow> 'f threading \<Rightarrow> 'f threading \<times> bool option" where
  "host_create_check enc_key thread_id s =
     (case table_at enc_key (enclave_host_id_map s) of
        (mapped_thread_id, t) \<Rightarrow>
          let s1 = s\<lparr>enclave_host_id_map := t\<rparr>
          in if mapped_thread_id = 0 then (s1, None) else (s1, Some (thread_id = mapped_thread_id)))"

definition create_poll :: "64 word \<Rightarrow> 'f threading \<Rightarrow> nat \<times> 'f threading" where
  "create_poll enc_key s =
     (case table_at enc_key (key_to_thread_id_map s) of (tid, t) \<Rightarrow> (tid, s\<lparr>key_to_thread_id_map := t\<rparr>))"

section \<open>The new thread\<close>

definition host_enclave_thread :: "64 word \<Rightarrow> nat \<Rightarrow> 'f threading \<Rightarrow> 'f threading" where
  "host_enclave_thread enc_key thread_id s =
     s\<lparr>enclave_host_id_map := table_put enc_key thread_id (enclave_host_id_map s)\<rparr>"

text \<open>The three statements without the lock index the array with the global, not with their own key.\<close>

definition thread_fun_args :: "nat \<Rightarrow> 64 word \<Rightarrow> 'f threading \<Rightarrow> 'f threading" where
  "thread_fun_args n enc_key s =
     write_args (enc_key_global s)
       (if n = 0 then (\<lambda>a. a\<lparr>ta_enc_key := enc_key\<rparr>)
        else if n = 1 then (\<lambda>a. a\<lparr>ta_join_ret := - 1\<rparr>) else (\<lambda>a. a\<lparr>ta_detach_ret := - 1\<rparr>)) s"

definition thread_fun_register :: "64 word \<Rightarrow> nat \<Rightarrow> 'f threading \<Rightarrow> 'f threading" where
  "thread_fun_register enc_key pthread_self s =
     s\<lparr>key_to_thread_id_map := table_put enc_key pthread_self (key_to_thread_id_map s)\<rparr>"

text \<open>\<^verbatim>\<open>back\<close> of an empty vector is undefined: \<open>None\<close>.\<close>

definition thread_fun_take :: "64 word \<Rightarrow> 'f threading \<Rightarrow> ('f \<times> 'f threading) option" where
  "thread_fun_take enc_key s =
     (if thread_functions s = [] then None
      else let f = last (thread_functions s)
           in Some (f, s\<lparr>thread_functions := butlast (thread_functions s), th_started := th_started s @ [(enc_key, f)]\<rparr>))"

section \<open>Joining and detaching\<close>

text \<open>
  \<^verbatim>\<open>_pthread_join_hook\<close> and \<^verbatim>\<open>_pthread_detach_hook\<close> up to the call of the host; \<open>None\<close> is \<^verbatim>\<open>oe_abort\<close>.
\<close>

definition join_lookup :: "nat \<Rightarrow> 'f threading \<Rightarrow> (64 word \<times> 'f threading) option" where
  "join_lookup enc_thread s =
     (case table_find_value enc_thread (key_to_thread_id_map s) of
        None \<Rightarrow> None
      | Some key \<Rightarrow> Some (key, write_args key (\<lambda>a. a\<lparr>ta_enc_key := key\<rparr>) s))"

definition detach_lookup :: "nat \<Rightarrow> 'f threading \<Rightarrow> (64 word \<times> 'f threading) option" where
  "detach_lookup enc_thread s =
     (case table_find_value enc_thread (key_to_thread_id_map s) of
        None \<Rightarrow> None
      | Some key \<Rightarrow> Some (key, write_args key (\<lambda>a. a\<lparr>ta_enc_key := key\<rparr>) s))"

text \<open>
  \<^verbatim>\<open>host_join_thread\<close> and \<^verbatim>\<open>host_detach_thread\<close>: the section that looks for the identifier (\<open>None\<close> is
  \<^verbatim>\<open>abort\<close>), and the one that is entered again when the call of the thread library returned zero.
\<close>

definition host_join_find :: "64 word \<Rightarrow> 'f threading \<Rightarrow> nat option" where
  "host_join_find enc_key s = map_of (enclave_host_id_map s) enc_key"

definition host_join_erase :: "64 word \<Rightarrow> 'f threading \<Rightarrow> 'f threading" where
  "host_join_erase enc_key s = s\<lparr>enclave_host_id_map := table_erase enc_key (enclave_host_id_map s)\<rparr>"

definition host_detach_find :: "64 word \<Rightarrow> 'f threading \<Rightarrow> nat option" where
  "host_detach_find enc_key s = map_of (enclave_host_id_map s) enc_key"

definition host_detach_erase :: "64 word \<Rightarrow> 'f threading \<Rightarrow> 'f threading" where
  "host_detach_erase enc_key s = s\<lparr>enclave_host_id_map := table_erase enc_key (enclave_host_id_map s)\<rparr>"

text \<open>What the hooks do with the result of the host.\<close>

definition join_finish :: "64 word \<Rightarrow> int \<Rightarrow> 'f threading \<Rightarrow> 'f threading" where
  "join_finish key join_ret s =
     (let s1 = write_args key (\<lambda>a. a\<lparr>ta_join_ret := join_ret\<rparr>) s
      in if join_ret = 0 then s1\<lparr>key_to_thread_id_map := table_erase key (key_to_thread_id_map s1)\<rparr> else s1)"

definition detach_finish :: "64 word \<Rightarrow> int \<Rightarrow> 'f threading \<Rightarrow> 'f threading" where
  "detach_finish key det_ret s =
     (if det_ret = 0 then s\<lparr>key_to_thread_id_map := table_erase key (key_to_thread_id_map s)\<rparr> else s)"

section \<open>Interleavings\<close>

text \<open>
  The next thing that happens: some thread of the enclave calls one of the hooks, or the \<open>i\<close>-th thread of the
  pool goes on, where \<open>tid\<close> is what the thread library gives it: the identifier of a new thread, its own
  identifier, or the result of \<^verbatim>\<open>pthread_join\<close> or \<^verbatim>\<open>pthread_detach\<close>. The former returns zero only when the thread
  has ended; errors may be returned at any time.
\<close>

datatype 'f thread_action =
    Call_create 'f
  | Advance nat nat
  | Call_join nat
  | Call_detach nat

text \<open>The hooks that \<^verbatim>\<open>initialize_oe_pthreads\<close> registers with Open Enclave: each call of the thread library becomes a call of ours.\<close>

record 'f oe_pthread_hooks =
  hook_create :: "'f \<Rightarrow> 'f thread_action"
  hook_join :: "nat \<Rightarrow> 'f thread_action"
  hook_detach :: "nat \<Rightarrow> 'f thread_action"

definition initialize_oe_pthreads :: "'f oe_pthread_hooks" where
  "initialize_oe_pthreads = \<lparr>hook_create = Call_create, hook_join = Call_join, hook_detach = Call_detach\<rparr>"

definition set_pc :: "nat \<Rightarrow> 'f thread_pc \<Rightarrow> 'f threading \<Rightarrow> 'f threading" where
  "set_pc i pc s = s\<lparr>th_pool := (th_pool s)[i := pc]\<rparr>"

fun advance :: "nat \<Rightarrow> nat \<Rightarrow> 'f thread_pc \<Rightarrow> 'f threading \<Rightarrow> 'f threading option" where
  "advance i tid (Host_create k) s =
     (if tid = 0 \<or> tid \<in> snd ` set (enclave_host_id_map s) then None
      else let s1 = set_pc i (Host_check k tid) (host_create_insert k s)
           in Some (s1\<lparr>th_pool := th_pool s1 @ [Host_thread k tid]\<rparr>))"
| "advance i tid (Host_check k t) s =
     (case host_create_check k t s of
        (s1, None) \<Rightarrow> Some s1
      | (s1, Some ok) \<Rightarrow> if ok then Some (set_pc i (Create_poll k) s1) else Some (s1\<lparr>th_aborted := True\<rparr>))"
| "advance i tid (Create_poll k) s =
     (case create_poll k s of (t, s1) \<Rightarrow> if t = 0 then Some s1 else Some (set_pc i (Create_done t) s1))"
| "advance i tid (Host_thread k t) s = Some (set_pc i (Fun_args 0 k) (host_enclave_thread k t s))"
| "advance i tid (Fun_args n k) s =
     Some (set_pc i (if n < 2 then Fun_args (n + 1) k else Fun_register k) (thread_fun_args n k s))"
| "advance i tid (Fun_register k) s =
     (if tid = 0 then None else Some (set_pc i (Fun_take k) (thread_fun_register k tid s)))"
| "advance i tid (Fun_take k) s = map_option (\<lambda>(f, s1). set_pc i (Fun_run k f) s1) (thread_fun_take k s)"
| "advance i tid (Fun_run k f) s = Some (set_pc i (Fun_done k) s)"
| "advance i tid (Hook_lookup h enc_thread) s =
     (case (case h of Hook_join \<Rightarrow> join_lookup enc_thread s | Hook_detach \<Rightarrow> detach_lookup enc_thread s) of
        None \<Rightarrow> Some (s\<lparr>th_aborted := True\<rparr>)
      | Some (k, s1) \<Rightarrow> Some (set_pc i (Hook_host h k) s1))"
| "advance i tid (Hook_host h k) s =
     (case (case h of Hook_join \<Rightarrow> host_join_find k s | Hook_detach \<Rightarrow> host_detach_find k s) of
        None \<Rightarrow> Some (s\<lparr>th_aborted := True\<rparr>)
      | Some thread_id \<Rightarrow> Some (set_pc i (Hook_wait h k thread_id) s))"
| "advance i tid (Hook_wait h k thread_id) s =
     (if tid \<noteq> 0 then Some (set_pc i (Hook_finish h k (int tid)) s)
      else if h = Hook_join \<and> Fun_done k \<notin> set (th_pool s) then None
      else Some (set_pc i (Hook_erase h k) s))"
| "advance i tid (Hook_erase h k) s =
     Some (set_pc i (Hook_finish h k 0)
       (case h of Hook_join \<Rightarrow> host_join_erase k s | Hook_detach \<Rightarrow> host_detach_erase k s))"
| "advance i tid (Hook_finish h k ret) s =
     Some (set_pc i (Hook_done h ret)
       (case h of Hook_join \<Rightarrow> join_finish k ret s | Hook_detach \<Rightarrow> detach_finish k ret s))"
| "advance i tid _ s = None"

definition threading_step :: "'f thread_action \<Rightarrow> 'f threading \<Rightarrow> 'f threading option" where
  "threading_step a s =
     (if th_aborted s then None
      else case a of
        Call_create f \<Rightarrow> (case create_enqueue f s of (k, s1) \<Rightarrow> Some (s1\<lparr>th_pool := th_pool s1 @ [Host_create k]\<rparr>))
      | Advance i tid \<Rightarrow> if i < length (th_pool s) then advance i tid (th_pool s ! i) s else None
      | Call_join t \<Rightarrow> Some (s\<lparr>th_pool := th_pool s @ [Hook_lookup Hook_join t]\<rparr>)
      | Call_detach t \<Rightarrow> Some (s\<lparr>th_pool := th_pool s @ [Hook_lookup Hook_detach t]\<rparr>))"

fun threading_run :: "'f thread_action list \<Rightarrow> 'f threading \<Rightarrow> 'f threading option" where
  "threading_run [] s = Some s"
| "threading_run (a # as) s = Option.bind (threading_step a s) (threading_run as)"

inductive threads_reach :: "'f threading \<Rightarrow> bool" where
  reach_init: "threads_reach threading_init"
| reach_step: "threads_reach s \<Longrightarrow> threading_step a s = Some s' \<Longrightarrow> threads_reach s'"

lemma threading_run_reach: "threads_reach s \<Longrightarrow> threading_run as s = Some s' \<Longrightarrow> threads_reach s'"
  by (induction as arbitrary: s) (auto simp: bind_eq_Some_conv intro: reach_step)

section \<open>The invariant\<close>

text \<open>The threads that have still to take their function.\<close>

fun pc_pending :: "'f thread_pc \<Rightarrow> bool" where
  "pc_pending (Host_create _) = True"
| "pc_pending (Host_thread _ _) = True"
| "pc_pending (Fun_args _ _) = True"
| "pc_pending (Fun_register _) = True"
| "pc_pending (Fun_take _) = True"
| "pc_pending _ = False"

fun pc_keys :: "'f thread_pc \<Rightarrow> 64 word set" where
  "pc_keys (Host_create k) = {k}"
| "pc_keys (Host_check k _) = {k}"
| "pc_keys (Create_poll k) = {k}"
| "pc_keys (Host_thread k _) = {k}"
| "pc_keys (Fun_args _ k) = {k}"
| "pc_keys (Fun_register k) = {k}"
| "pc_keys (Fun_take k) = {k}"
| "pc_keys (Hook_host _ k) = {k}"
| "pc_keys (Hook_wait _ k _) = {k}"
| "pc_keys (Hook_erase _ k) = {k}"
| "pc_keys (Hook_finish _ k _) = {k}"
| "pc_keys _ = {}"

definition keys_upto :: "nat \<Rightarrow> 64 word set" where
  "keys_upto n = of_nat ` {1..n}"

definition pending_count :: "'f threading \<Rightarrow> nat" where
  "pending_count s = length (filter pc_pending (th_pool s))"

definition threads_inv :: "'f threading \<Rightarrow> bool" where
  "threads_inv s \<longleftrightarrow>
     mset (thread_functions s) + mset (map snd (th_started s)) = mset (th_created s)
     \<and> length (thread_functions s) = pending_count s
     \<and> next_enc_thread_id s = of_nat (length (th_created s)) \<and> enc_key_global s = next_enc_thread_id s
     \<and> length (thread_args_array s) = MAX_ENC_KEYS
     \<and> fst ` set (key_to_thread_id_map s) \<subseteq> keys_upto (length (th_created s))
     \<and> (\<forall>pc \<in> set (th_pool s). pc_keys pc \<subseteq> keys_upto (length (th_created s)))
     \<and> (th_outside s \<longrightarrow> MAX_ENC_KEYS < length (th_created s))"

lemma table_put_keys [simp]: "fst ` set (table_put k v t) = insert k (fst ` set t)"
proof (induction t)
  case (Cons p t)
  then show ?case by (cases p) (auto simp: insert_commute)
qed simp

lemma table_ops_keys:
  "fst ` set (table_insert k v t) \<subseteq> insert k (fst ` set t)"
  "fst ` set (table_erase k t) \<subseteq> fst ` set t"
  by (auto simp: table_insert_def table_erase_def image_mono)

lemma table_at_keys: "table_at k t = (v, t') \<Longrightarrow> fst ` set t' \<subseteq> insert k (fst ` set t)"
  by (auto simp: table_at_def split: option.splits) (metis fst_conv image_eqI insertE table_put_keys)

lemma table_find_value_key: "table_find_value v t = Some k \<Longrightarrow> k \<in> fst ` set t"
  by (auto simp: table_find_value_def find_Some_iff) (metis fst_conv image_eqI nth_mem)

lemma filter_update_length:
  "i < length xs \<Longrightarrow> length (filter P (xs[i := x])) + (if P (xs ! i) then 1 else 0)
     = length (filter P xs) + (if P x then 1 else 0)"
proof (induction xs arbitrary: i)
  case (Cons y ys)
  show ?case
  proof (cases i)
    case (Suc j)
    with Cons.IH [of j] Cons.prems show ?thesis by simp
  qed simp
qed simp

lemma keys_upto_mono: "m \<le> n \<Longrightarrow> keys_upto m \<subseteq> keys_upto n"
  by (auto simp: keys_upto_def)

lemma keys_upto_small: "key \<in> keys_upto n \<Longrightarrow> n \<le> MAX_ENC_KEYS \<Longrightarrow> unat (key - 1) < MAX_ENC_KEYS"
proof -
  assume "key \<in> keys_upto n" and n: "n \<le> MAX_ENC_KEYS"
  then obtain j where j: "key = of_nat j" "1 \<le> j" "j \<le> n" by (auto simp: keys_upto_def)
  then have "key - 1 = of_nat (j - 1)" by (simp add: of_nat_diff)
  moreover have "j - 1 < 2 ^ 64" using j n by (simp add: MAX_ENC_KEYS_def)
  ultimately have "unat (key - 1) = j - 1" by (simp add: unsigned_of_nat take_bit_nat_eq_self_iff)
  then show ?thesis using j n by simp
qed

text \<open>How the updates of the operations keep the invariant.\<close>

lemma inv_keys: "threads_inv s \<Longrightarrow> fst ` set (key_to_thread_id_map s) \<subseteq> keys_upto (length (th_created s))"
  by (simp add: threads_inv_def)

lemma inv_table:
  "threads_inv s \<Longrightarrow> fst ` set t \<subseteq> keys_upto (length (th_created s)) \<Longrightarrow> threads_inv (s\<lparr>key_to_thread_id_map := t\<rparr>)"
  by (simp add: threads_inv_def pending_count_def)

lemma inv_unrelated:
  "threads_inv s \<Longrightarrow> threads_inv (s\<lparr>enclave_host_id_map := t\<rparr>)"
  "threads_inv s \<Longrightarrow> threads_inv (s\<lparr>th_aborted := b\<rparr>)"
  by (simp_all add: threads_inv_def pending_count_def)

lemma inv_write_args:
  assumes "threads_inv s" and "key \<in> keys_upto (length (th_created s))"
  shows "threads_inv (write_args key f s)"
proof (cases "unat (key - 1) < length (thread_args_array s)")
  case False
  with assms(1) keys_upto_small [OF assms(2)] have "MAX_ENC_KEYS < length (th_created s)"
    by (force simp: threads_inv_def not_le)
  with False assms(1) show ?thesis by (simp add: threads_inv_def write_args_def pending_count_def)
qed (use assms(1) in \<open>simp add: threads_inv_def write_args_def pending_count_def Let_def\<close>)

lemma inv_pool_update:
  assumes "threads_inv s" and "pc_keys pc \<subseteq> keys_upto (length (th_created s))"
  shows "\<forall>pc' \<in> set ((th_pool s)[i := pc]). pc_keys pc' \<subseteq> keys_upto (length (th_created s))"
proof
  fix pc' assume "pc' \<in> set ((th_pool s)[i := pc])"
  then have "pc' = pc \<or> pc' \<in> set (th_pool s)" using set_update_subset_insert [of "th_pool s" i pc] by auto
  with assms show "pc_keys pc' \<subseteq> keys_upto (length (th_created s))" by (auto simp: threads_inv_def)
qed

lemma inv_set_pc:
  assumes "threads_inv s" and "i < length (th_pool s)" and "pc_pending pc = pc_pending (th_pool s ! i)"
    and "pc_keys pc \<subseteq> keys_upto (length (th_created s))"
  shows "threads_inv (set_pc i pc s)"
  using assms(1,3) filter_update_length [OF assms(2), of pc_pending pc] inv_pool_update [OF assms(1,4), of i]
  by (simp add: threads_inv_def set_pc_def pending_count_def split: if_splits)

lemma write_args_simps [simp]:
  "th_pool (write_args k f s) = th_pool s" "th_created (write_args k f s) = th_created s"
  "key_to_thread_id_map (write_args k f s) = key_to_thread_id_map s"
  "enclave_host_id_map (write_args k f s) = enclave_host_id_map s"
  by (simp_all add: write_args_def Let_def)

lemma inv_create:
  assumes "threads_inv s" and "create_enqueue f s = (k, s1)"
  shows "threads_inv (s1\<lparr>th_pool := th_pool s1 @ [Host_create k]\<rparr>)"
proof -
  let ?n = "length (th_created s)"
  have k: "k = of_nat (Suc ?n)" using assms by (simp add: create_enqueue_def threads_inv_def Let_def add.commute)
  then have kn: "k \<in> keys_upto (Suc ?n)" unfolding keys_upto_def by (intro image_eqI [of _ _ "Suc ?n"]) auto
  note mono = keys_upto_mono [of ?n "Suc ?n", simplified]
  have t: "fst ` set (table_insert k 0 (key_to_thread_id_map s)) \<subseteq> keys_upto (Suc ?n)"
    using assms(1) kn mono table_ops_keys(1) [of k 0 "key_to_thread_id_map s"] unfolding threads_inv_def by blast
  have p: "\<forall>pc \<in> set (th_pool s). pc_keys pc \<subseteq> keys_upto (Suc ?n)"
    using assms(1) mono unfolding threads_inv_def by blast
  have s1: "s1 = s\<lparr>thread_functions := thread_functions s @ [f], next_enc_thread_id := k, enc_key_global := k,
      key_to_thread_id_map := table_insert k 0 (key_to_thread_id_map s), th_created := th_created s @ [f]\<rparr>"
    using assms(2) by (auto simp: create_enqueue_def Let_def)
  have m: "mset (thread_functions s @ [f]) + mset (map snd (th_started s)) = mset (th_created s @ [f])"
    using assms(1) by (simp add: threads_inv_def)
  show ?thesis
    unfolding threads_inv_def s1
    using assms(1) kn t p m
    by (intro conjI) (simp_all add: threads_inv_def pending_count_def less_SucI k [symmetric] del: of_nat_Suc mset_append)
qed

lemma inv_call:
  "threads_inv s \<Longrightarrow> threads_inv (s\<lparr>th_pool := th_pool s @ [Hook_lookup h t]\<rparr>)"
  by (simp add: threads_inv_def pending_count_def)

lemma lookup_eqs: "detach_lookup = join_lookup" "host_detach_erase = host_join_erase" "host_detach_find = host_join_find"
  by (auto simp: fun_eq_iff join_lookup_def detach_lookup_def host_join_erase_def host_detach_erase_def
      host_join_find_def host_detach_find_def)

lemma inv_lookup:
  assumes "threads_inv s" and "join_lookup t s = Some (k, s1)"
  shows "threads_inv s1" and "k \<in> keys_upto (length (th_created s))"
    and "th_pool s1 = th_pool s" and "th_created s1 = th_created s"
proof -
  have f: "table_find_value t (key_to_thread_id_map s) = Some k" and s1: "s1 = write_args k (\<lambda>a. a\<lparr>ta_enc_key := k\<rparr>) s"
    using assms(2) by (auto simp: join_lookup_def split: option.splits)
  show k: "k \<in> keys_upto (length (th_created s))"
    using subsetD [OF inv_keys [OF assms(1)] table_find_value_key [OF f]] .
  show "threads_inv s1" unfolding s1 by (rule inv_write_args [OF assms(1) k])
  show "th_pool s1 = th_pool s" "th_created s1 = th_created s" by (simp_all add: s1)
qed

lemma inv_finish:
  assumes "threads_inv s" and "k \<in> keys_upto (length (th_created s))"
  shows "threads_inv (join_finish k r s)" and "threads_inv (detach_finish k r s)"
proof -
  have keys: "fst ` set (table_erase k (key_to_thread_id_map s)) \<subseteq> keys_upto (length (th_created s))"
    using table_ops_keys(2) [of k "key_to_thread_id_map s"] inv_keys [OF assms(1)] by blast
  note w = inv_write_args [OF assms, of "\<lambda>a. a\<lparr>ta_join_ret := r\<rparr>"]
  show "threads_inv (join_finish k r s)"
    using w inv_table [OF w, of "table_erase k (key_to_thread_id_map s)"] keys by (auto simp: join_finish_def Let_def)
  show "threads_inv (detach_finish k r s)"
    using assms(1) inv_table [OF assms(1) keys] by (simp add: detach_finish_def)
qed

lemma finish_simps [simp]:
  "th_pool (join_finish k r s) = th_pool s" "th_created (join_finish k r s) = th_created s"
  "th_pool (detach_finish k r s) = th_pool s" "th_created (detach_finish k r s) = th_created s"
  by (simp_all add: join_finish_def detach_finish_def Let_def)

lemma inv_pc_keys: "threads_inv s \<Longrightarrow> i < length (th_pool s) \<Longrightarrow> pc_keys (th_pool s ! i) \<subseteq> keys_upto (length (th_created s))"
  by (auto simp: threads_inv_def)

lemma inv_global: "threads_inv s \<Longrightarrow> th_created s \<noteq> [] \<Longrightarrow> enc_key_global s \<in> keys_upto (length (th_created s))"
  unfolding threads_inv_def keys_upto_def by (intro image_eqI [of _ _ "length (th_created s)"]) (auto simp: Suc_le_eq)

text \<open>A thread that has a function to take finds one, and taking it keeps the accounts.\<close>

lemma inv_pending_functions:
  assumes "threads_inv s" and "i < length (th_pool s)" and "pc_pending (th_pool s ! i)"
  shows "thread_functions s \<noteq> []"
proof -
  have "th_pool s ! i \<in> set (filter pc_pending (th_pool s))" using assms(2,3) by simp
  then have "pending_count s \<noteq> 0" by (auto simp: pending_count_def filter_empty_conv)
  with assms(1) show ?thesis by (auto simp: threads_inv_def)
qed

lemma inv_take:
  assumes "threads_inv s" and "i < length (th_pool s)" and "th_pool s ! i = Fun_take k"
    and "thread_fun_take k s = Some (f, s1)"
  shows "threads_inv (set_pc i (Fun_run k f) s1)"
proof -
  have ne: "thread_functions s \<noteq> []" and f: "f = last (thread_functions s)"
    and s1: "s1 = s\<lparr>thread_functions := butlast (thread_functions s), th_started := th_started s @ [(k, f)]\<rparr>"
    using assms(4) by (auto simp: thread_fun_take_def Let_def split: if_splits)
  have "mset (thread_functions s) = mset (butlast (thread_functions s) @ [f])" using ne f by simp
  then have "mset (butlast (thread_functions s)) + mset (map snd (th_started s @ [(k, f)])) = mset (th_created s)"
    using assms(1) by (simp add: threads_inv_def)
  moreover have "length (butlast (thread_functions s)) = length (filter pc_pending ((th_pool s)[i := Fun_run k f]))"
    using filter_update_length [OF assms(2), of pc_pending "Fun_run k f"] assms(1,3)
    by (simp add: threads_inv_def pending_count_def)
  moreover have "\<forall>pc \<in> set ((th_pool s)[i := Fun_run k f]). pc_keys pc \<subseteq> keys_upto (length (th_created s))"
    by (rule inv_pool_update [OF assms(1)]) simp
  ultimately show ?thesis
    using assms(1) by (simp add: s1 threads_inv_def set_pc_def pending_count_def)
qed

lemma inv_spawn:
  assumes "threads_inv s" and "i < length (th_pool s)" and "th_pool s ! i = Host_create k"
  shows "threads_inv (s\<lparr>th_pool := (th_pool s)[i := Host_check k t] @ [Host_thread k t]\<rparr>)"
proof -
  have "k \<in> keys_upto (length (th_created s))" using inv_pc_keys [OF assms(1,2)] assms(3) by simp
  then show ?thesis
    using assms(1,3) filter_update_length [OF assms(2), of pc_pending "Host_check k t"]
      inv_pool_update [OF assms(1), of "Host_check k t" i]
    by (simp add: threads_inv_def pending_count_def)
qed

lemma advance_lookup:
  assumes "advance i tid (Hook_lookup h t) s = Some s'"
  obtains (aborted) "s' = s\<lparr>th_aborted := True\<rparr>"
    | (found) k s1 where "join_lookup t s = Some (k, s1)" "s' = set_pc i (Hook_host h k) s1"
        "key_to_thread_id_map s1 = key_to_thread_id_map s"
proof (cases "join_lookup t s")
  case None
  then show thesis using assms aborted by (simp add: lookup_eqs split: thread_hook.splits)
next
  case (Some p)
  obtain k s1 where p: "p = (k, s1)" by (cases p)
  then have "s' = set_pc i (Hook_host h k) s1" using assms Some by (simp add: lookup_eqs split: thread_hook.splits)
  moreover have "key_to_thread_id_map s1 = key_to_thread_id_map s"
    using Some p by (auto simp: join_lookup_def split: option.splits)
  ultimately show thesis using found Some p by blast
qed

lemma advance_poll:
  assumes "advance i tid (Create_poll k) s = Some s'"
  obtains v t where "table_at k (key_to_thread_id_map s) = (v, t)"
    "s' = (if v = 0 then s\<lparr>key_to_thread_id_map := t\<rparr> else set_pc i (Create_done v) (s\<lparr>key_to_thread_id_map := t\<rparr>))"
proof -
  obtain v t where t: "table_at k (key_to_thread_id_map s) = (v, t)" by (metis surj_pair)
  with assms show thesis by (intro that [OF t]) (auto simp: create_poll_def split: if_splits)
qed

lemma inv_poll:
  assumes s: "threads_inv s" and i: "i < length (th_pool s)" and k: "th_pool s ! i = Create_poll k"
    and a: "advance i tid (Create_poll k) s = Some s'"
  shows "threads_inv s'"
  using a
proof (cases rule: advance_poll)
  case (1 v t)
  have "threads_inv (s\<lparr>key_to_thread_id_map := t\<rparr>)"
    using table_at_keys [OF 1(1)] inv_keys [OF s] inv_pc_keys [OF s i] k by (intro inv_table s) auto
  with 1(2) i k show ?thesis by (auto intro!: inv_set_pc)
qed

lemma inv_advance:
  assumes s: "threads_inv s" and i: "i < length (th_pool s)" and "advance i tid (th_pool s ! i) s = Some s'"
  shows "threads_inv s'"
proof -
  note keys = inv_pc_keys [OF s i]
  have created: "th_created s \<noteq> []" if "pc_pending (th_pool s ! i)"
    using inv_pending_functions [OF s i that] s by (auto simp: threads_inv_def)
  show ?thesis
  proof (cases "th_pool s ! i")
    case (Host_create k)
    with assms(3) inv_spawn [OF inv_unrelated(1) [OF s], of i "table_insert k 0 (enclave_host_id_map s)" k tid] i show ?thesis
      by (auto simp: host_create_insert_def set_pc_def Let_def split: if_splits)
  next
    case (Host_check k t)
    with assms(3) i keys show ?thesis
      by (auto simp: host_create_check_def Let_def split: prod.splits if_splits
          intro!: inv_set_pc inv_unrelated s)
  next
    case (Create_poll k)
    with assms(3) show ?thesis by (metis inv_poll [OF s i])
  next
    case (Host_thread k t)
    with assms(3) i keys show ?thesis
      by (auto simp: host_enclave_thread_def intro!: inv_set_pc inv_unrelated s)
  next
    case (Fun_args n k)
    with assms(3) i keys inv_global [OF s created] show ?thesis
      by (auto simp: thread_fun_args_def split: if_splits intro!: inv_set_pc inv_write_args s)
  next
    case (Fun_register k)
    have "threads_inv (s\<lparr>key_to_thread_id_map := table_put k tid (key_to_thread_id_map s)\<rparr>)"
      using keys Fun_register inv_keys [OF s] by (intro inv_table s) simp
    with assms(3) i keys Fun_register show ?thesis
      by (auto simp: thread_fun_register_def split: if_splits intro!: inv_set_pc)
  next
    case (Fun_take k)
    with assms(3) show ?thesis by (auto intro: inv_take [OF s i])
  next
    case (Hook_lookup h t)
    from assms(3) [unfolded Hook_lookup] show ?thesis
    proof (cases rule: advance_lookup)
      case (found k s1)
      with inv_lookup [OF s found(1)] i Hook_lookup show ?thesis by (auto intro!: inv_set_pc)
    qed (simp add: inv_unrelated s)
  next
    case (Hook_host h k)
    with assms(3) i keys show ?thesis
      by (auto simp: lookup_eqs split: thread_hook.splits option.splits intro!: inv_set_pc inv_unrelated s)
  next
    case (Hook_wait h k t)
    with assms(3) i keys show ?thesis by (auto split: if_splits intro!: inv_set_pc s)
  next
    case (Hook_erase h k)
    with assms(3) i keys show ?thesis
      by (auto simp: lookup_eqs host_join_erase_def split: thread_hook.splits intro!: inv_set_pc inv_unrelated s)
  next
    case (Hook_finish h k r)
    with assms(3) i keys inv_finish [OF s] show ?thesis
      by (auto split: thread_hook.splits intro!: inv_set_pc)
  qed (use assms in \<open>auto intro!: inv_set_pc\<close>)
qed

lemma threads_reach_inv: "threads_reach s \<Longrightarrow> threads_inv s"
proof (induction rule: threads_reach.induct)
  case reach_init
  show ?case by (simp add: threads_inv_def threading_init_def pending_count_def)
next
  case (reach_step s a s')
  then show ?case
    by (auto simp: threading_step_def inv_call split: if_splits thread_action.splits prod.splits
        intro: inv_create inv_advance)
qed

section \<open>What the hooks guarantee\<close>

text \<open>
  C35: whatever the interleaving of creations, joins, detaches and new threads, a
  thread that comes to take its function finds one, and every function given to \<^verbatim>\<open>pthread_create\<close> is started at most
  once; when all new threads have got that far, each has been started exactly once. From the fifth thread on this takes the write outside of the
  array of arguments as harmless.
\<close>

theorem thread_functions_started_once:
  assumes "threads_reach s"
  shows "(\<forall>i k. i < length (th_pool s) \<longrightarrow> th_pool s ! i = Fun_take k \<longrightarrow> thread_fun_take k s \<noteq> None)
    \<and> mset (map snd (th_started s)) \<subseteq># mset (th_created s)
    \<and> (list_all (\<lambda>pc. \<not> pc_pending pc) (th_pool s) \<longrightarrow> mset (map snd (th_started s)) = mset (th_created s))"
proof -
  note inv = threads_reach_inv [OF assms]
  have "thread_fun_take k s \<noteq> None" if "i < length (th_pool s)" "th_pool s ! i = Fun_take k" for i k
    using inv_pending_functions [OF inv that(1)] that(2) by (simp add: thread_fun_take_def Let_def)
  moreover have m: "mset (thread_functions s) + mset (map snd (th_started s)) = mset (th_created s)"
    and l: "length (thread_functions s) = pending_count s" using inv by (simp_all add: threads_inv_def)
  have "mset (map snd (th_started s)) \<subseteq># mset (th_created s)" unfolding m [symmetric] by simp
  moreover have "mset (map snd (th_started s)) = mset (th_created s)" if "list_all (\<lambda>pc. \<not> pc_pending pc) (th_pool s)"
  proof -
    have "pending_count s = 0" using that by (simp add: pending_count_def filter_empty_conv list_all_iff)
    with m l show ?thesis by simp
  qed
  ultimately show ?thesis by blast
qed

text \<open>
  Two threads that are created one after the other, where both are registered before either takes its
  function: the second function runs in the first thread.
\<close>

definition swap_schedule :: "'f \<Rightarrow> 'f \<Rightarrow> 'f thread_action list" where
  "swap_schedule f g =
     [Call_create f, Advance 0 101, Advance 1 0, Advance 0 0, Advance 1 0, Advance 1 0, Advance 1 0, Advance 1 7, Advance 0 0,
      Call_create g, Advance 2 102, Advance 3 0, Advance 3 0, Advance 3 0, Advance 3 0, Advance 3 8,
      Advance 1 0, Advance 3 0]"

lemma swap_run:
  "\<exists>s. threading_run (swap_schedule f g) threading_init = Some s \<and> th_created s = [f, g]
     \<and> th_started s = [(1, g), (2, f)] \<and> th_pool s ! 0 = Create_done 7
     \<and> map_of (key_to_thread_id_map s) 1 = Some 7 \<and> \<not> th_aborted s \<and> list_all (\<lambda>pc. \<not> pc_pending pc) (th_pool s)"
  by (simp add: swap_schedule_def threading_step_def threading_init_def create_enqueue_def table_insert_def
      host_create_insert_def set_pc_def host_enclave_thread_def host_create_check_def table_at_def thread_fun_args_def
      write_args_def MAX_ENC_KEYS_def thread_fun_register_def create_poll_def thread_fun_take_def numeral_eq_Suc)

text \<open>
  The hooks do not tie a function to its thread: the table of functions is a stack, so a thread may start the
  function of a thread created later, whose own thread then starts the first. The
  caller of the first \<^verbatim>\<open>pthread_create\<close> has by then got the identifier of the wrong thread.
\<close>

theorem thread_functions_swapped:
  "\<exists>s. threads_reach s \<and> th_created s = [f, g] \<and> th_started s = [(1, g), (2, f)]
     \<and> th_pool s ! 0 = Create_done 7 \<and> map_of (key_to_thread_id_map s) 1 = Some 7 \<and> \<not> th_aborted s"
  using swap_run [of f g] threading_run_reach [OF reach_init] by blast

text \<open>
  C36: the array of thread arguments has room for the first four threads that are ever created: up to
  then no operation writes outside of it, but every thread that starts afterwards does, also when the
  earlier ones have been joined. The code only prints a message.
\<close>

theorem thread_args_bound:
  assumes "threads_reach s"
  shows "(th_outside s \<longrightarrow> MAX_ENC_KEYS < length (th_created s))
    \<and> (MAX_ENC_KEYS < length (th_created s) \<longrightarrow> length (th_created s) < 2 ^ 64 \<longrightarrow> th_outside (thread_fun_args n k s))"
proof -
  note inv = threads_reach_inv [OF assms]
  have "th_outside (thread_fun_args n k s)" if c: "MAX_ENC_KEYS < length (th_created s)" "length (th_created s) < 2 ^ 64"
  proof -
    have "1 \<le> length (th_created s)" using c(1) by simp
    then have "enc_key_global s - 1 = of_nat (length (th_created s) - 1)"
      using inv by (simp add: threads_inv_def of_nat_diff)
    moreover have "unat (of_nat (length (th_created s) - 1) :: 64 word) = length (th_created s) - 1"
      using c by (simp add: unsigned_of_nat take_bit_nat_eq_self_iff less_imp_diff_less del: of_nat_diff)
    ultimately have "unat (enc_key_global s - 1) = length (th_created s) - 1" by (simp only:)
    with inv c show ?thesis by (auto simp: threads_inv_def thread_fun_args_def write_args_def Let_def)
  qed
  with inv show ?thesis by (simp add: threads_inv_def)
qed

lemma five_creations:
  "\<exists>s :: char threading. threads_reach s \<and> length (th_created s) = 5 \<and> \<not> th_outside s"
proof -
  have "\<exists>s. threading_run (map Call_create ''abcde'') threading_init = Some s \<and> length (th_created s) = 5
     \<and> \<not> th_outside s"
    by (simp add: threading_step_def threading_init_def create_enqueue_def Let_def)
  then show ?thesis using threading_run_reach [OF reach_init] by blast
qed

theorem thread_args_bound_witness:
  "\<exists>s :: char threading. threads_reach s \<and> length (th_created s) = 5 \<and> \<not> th_outside s \<and> th_outside (thread_fun_args 0 1 s)"
proof -
  obtain s :: "char threading" where s: "threads_reach s" "length (th_created s) = 5" "\<not> th_outside s"
    using five_creations by blast
  with thread_args_bound [OF s(1), of 0 1] show ?thesis by (auto simp: MAX_ENC_KEYS_def)
qed

theorem thread_functions_started_once_witness:
  "\<exists>s. threads_reach s \<and> list_all (\<lambda>pc. \<not> pc_pending pc) (th_pool s) \<and> th_created s = [3, 4 :: nat]
     \<and> mset (map snd (th_started s)) = mset [3, 4]"
proof -
  obtain s :: "nat threading" where s: "threads_reach s" "list_all (\<lambda>pc. \<not> pc_pending pc) (th_pool s)" "th_created s = [3, 4]"
    using swap_run [of 3 4] threading_run_reach [OF reach_init] by blast
  with thread_functions_started_once [OF s(1)] show ?thesis by auto
qed

end
