(* ===== verification/Thread_Progress.thy ===== *)
theory Thread_Progress
  imports Threading
begin

text \<open>
  The waiting loops of \<^verbatim>\<open>server/enclave/threading.cc\<close> and \<^verbatim>\<open>server/host/threading.cc\<close>: the caller of
  \<^verbatim>\<open>pthread_create\<close> polls the table of the host and then the one of the enclave until its new thread has entered
  itself. As long as nobody joins or detaches a thread, a measure on the threads shows that every creation
  ends; a thread that is detached before its creator has seen its identifier leaves the creator polling for ever.
\<close>

section \<open>Runs that only create threads\<close>

fun creation_action :: "'f thread_action \<Rightarrow> bool" where
  "creation_action (Call_create _) = True"
| "creation_action (Advance _ _) = True"
| "creation_action _ = False"

text \<open>The keys are 64 bits wide: fewer than \<open>2 ^ 64\<close> creations do not repeat one.\<close>

inductive creates_reach :: "'f threading \<Rightarrow> bool" where
  creates_init: "creates_reach threading_init"
| creates_step:
    "creates_reach s \<Longrightarrow> creation_action a \<Longrightarrow> threading_step a s = Some s' \<Longrightarrow> length (th_created s') < 2 ^ 64
     \<Longrightarrow> creates_reach s'"

lemma creates_reach_threads: "creates_reach s \<Longrightarrow> threads_reach s"
  by (induction rule: creates_reach.induct) (auto intro: threads_reach.intros)

section \<open>The measure\<close>

text \<open>The steps a thread has still to make, with those of the thread it creates.\<close>

fun pc_weight :: "'f thread_pc \<Rightarrow> nat" where
  "pc_weight (Host_create _) = 10"
| "pc_weight (Host_check _ _) = 2"
| "pc_weight (Create_poll _) = 1"
| "pc_weight (Host_thread _ _) = 7"
| "pc_weight (Fun_args n _) = 4 + (2 - n)"
| "pc_weight (Fun_register _) = 3"
| "pc_weight (Fun_take _) = 2"
| "pc_weight (Fun_run _ _) = 1"
| "pc_weight _ = 0"

definition threads_weight :: "'f threading \<Rightarrow> nat" where
  "threads_weight s = sum_list (map pc_weight (th_pool s))"

fun pc_finished :: "'f thread_pc \<Rightarrow> bool" where
  "pc_finished (Fun_done _) = True"
| "pc_finished (Create_done t) = (t \<noteq> 0)"
| "pc_finished _ = False"

lemma weight_update:
  "i < length xs \<Longrightarrow> sum_list (map pc_weight (xs[i := x])) + pc_weight (xs ! i) = sum_list (map pc_weight xs) + pc_weight x"
proof (induction xs arbitrary: i)
  case (Cons y ys)
  show ?case
  proof (cases i)
    case (Suc j)
    with Cons.IH [of j] Cons.prems show ?thesis by simp
  qed simp
qed simp

section \<open>What the tables say about the threads\<close>

lemma map_of_table_put [simp]: "map_of (table_put k v t) = (map_of t)(k \<mapsto> v)"
proof (induction t)
  case (Cons p t)
  then show ?case by (cases p) (auto simp: fun_eq_iff)
qed (simp add: fun_eq_iff)

text \<open>The threads of key \<open>k\<close> before their entry into the table of the host, and of the enclave.\<close>

fun pc_unspawned :: "64 word \<Rightarrow> 'f thread_pc \<Rightarrow> bool" where
  "pc_unspawned k (Host_create k') = (k = k')"
| "pc_unspawned k (Host_thread k' _) = (k = k')"
| "pc_unspawned k _ = False"

fun pc_unregistered :: "64 word \<Rightarrow> 'f thread_pc \<Rightarrow> bool" where
  "pc_unregistered k (Host_create k') = (k = k')"
| "pc_unregistered k (Host_thread k' _) = (k = k')"
| "pc_unregistered k (Fun_args _ k') = (k = k')"
| "pc_unregistered k (Fun_register k') = (k = k')"
| "pc_unregistered k _ = False"

fun pc_creating :: "64 word \<Rightarrow> 'f thread_pc \<Rightarrow> bool" where
  "pc_creating k (Host_create k') = (k = k')"
| "pc_creating k (Host_check k' _) = (k = k')"
| "pc_creating k (Create_poll k') = (k = k')"
| "pc_creating k _ = False"

fun pc_of_creation :: "'f thread_pc \<Rightarrow> bool" where
  "pc_of_creation (Create_done t) = (t \<noteq> 0)"
| "pc_of_creation (Hook_lookup _ _) = False"
| "pc_of_creation (Hook_host _ _) = False"
| "pc_of_creation (Hook_wait _ _ _) = False"
| "pc_of_creation (Hook_erase _ _) = False"
| "pc_of_creation (Hook_finish _ _ _) = False"
| "pc_of_creation (Hook_done _ _) = False"
| "pc_of_creation _ = True"

text \<open>The table of the host.\<close>

definition host_ok :: "'f thread_pc list \<Rightarrow> (64 word \<rightharpoonup> nat) \<Rightarrow> bool" where
  "host_ok P H \<longleftrightarrow>
     (\<forall>k. Host_create k \<in> set P \<longrightarrow> H k = None)
     \<and> (\<forall>k t. Host_thread k t \<in> set P \<longrightarrow> t \<noteq> 0 \<and> H k = Some 0)
     \<and> (\<forall>k t. Host_check k t \<in> set P \<longrightarrow> t \<noteq> 0 \<and> (H k = Some t \<or> H k = Some 0 \<and> Host_thread k t \<in> set P))
     \<and> (\<forall>k. length (filter (pc_unspawned k) P) \<le> 1)"

text \<open>The table of the enclave.\<close>

definition enclave_ok :: "'f thread_pc list \<Rightarrow> (64 word \<rightharpoonup> nat) \<Rightarrow> bool" where
  "enclave_ok P K \<longleftrightarrow>
     (\<forall>k. (\<exists>pc \<in> set P. pc_creating k pc) \<longrightarrow>
        (\<exists>v. K k = Some v \<and> (v = 0 \<longrightarrow> (\<exists>pc \<in> set P. pc_unregistered k pc))))"

lemma set_update_cases: "x \<in> set (P[i := y]) \<Longrightarrow> x = y \<or> x \<in> set P"
  by (meson insertE set_update_subset_insert subset_iff)

lemma set_update_other: "x \<in> set P \<Longrightarrow> x \<noteq> P ! i \<Longrightarrow> x \<in> set (P[i := y])"
  by (metis in_set_conv_nth length_list_update nth_list_update_neq)

lemma set_update_self: "i < length P \<Longrightarrow> y \<in> set (P[i := y])"
  by (metis length_list_update nth_list_update_eq nth_mem)

lemma unspawned_once:
  assumes "\<forall>k. length (filter (pc_unspawned k) P) \<le> 1" and "i < length P" and "pc_unspawned k (P ! i)"
    and "\<not> pc_unspawned k y"
  shows "x \<in> set (P[i := y]) \<Longrightarrow> \<not> pc_unspawned k x"
proof -
  have "length (filter (pc_unspawned k) (P[i := y])) = 0"
    using filter_update_length [OF assms(2), of "pc_unspawned k" y] spec [OF assms(1), of k] assms(3,4) by (simp del: length_0_conv)
  then show "x \<in> set (P[i := y]) \<Longrightarrow> \<not> pc_unspawned k x" by (simp add: filter_empty_conv)
qed

lemma unspawned_update:
  assumes "\<forall>k. length (filter (pc_unspawned k) P) \<le> 1" and "i < length P"
    and "\<And>k. pc_unspawned k y \<Longrightarrow> pc_unspawned k (P ! i)"
  shows "\<forall>k. length (filter (pc_unspawned k) (P[i := y])) \<le> 1"
proof
  fix k show "length (filter (pc_unspawned k) (P[i := y])) \<le> 1"
    using filter_update_length [OF assms(2), of "pc_unspawned k" y] spec [OF assms(1), of k] assms(3) [of k]
    by (auto split: if_splits)
qed

lemma host_okD:
  assumes "host_ok P H"
  shows "Host_create k \<in> set P \<Longrightarrow> H k = None"
    and "Host_thread k t \<in> set P \<Longrightarrow> t \<noteq> 0 \<and> H k = Some 0"
    and "Host_check k t \<in> set P \<Longrightarrow> t \<noteq> 0 \<and> (H k = Some t \<or> H k = Some 0 \<and> Host_thread k t \<in> set P)"
    and "\<forall>k. length (filter (pc_unspawned k) P) \<le> 1"
  using assms unfolding host_ok_def by blast+

lemma host_ok_spawn:
  assumes "host_ok P H" and "i < length P" and "P ! i = Host_create k" and "t \<noteq> 0"
  shows "host_ok (P[i := Host_check k t] @ [Host_thread k t]) (H(k \<mapsto> 0))"
proof -
  note D = host_okD [OF assms(1)]
  have Hk: "H k = None" using D(1) assms(2,3) nth_mem by metis
  have once: "\<not> pc_unspawned k x" if "x \<in> set (P[i := Host_check k t])" for x
    by (rule unspawned_once [OF D(4) assms(2) _ _ that]) (simp_all add: assms(3))
  have count: "length (filter (pc_unspawned k') (P[i := Host_check k t] @ [Host_thread k t])) \<le> 1" for k'
    using filter_update_length [OF assms(2), of "pc_unspawned k'" "Host_check k t"] spec [OF D(4), of k'] assms(3)
    by (auto simp del: length_0_conv split: if_splits)
  have create: "(H(k \<mapsto> 0)) k' = None" if "Host_create k' \<in> set (P[i := Host_check k t])" for k'
    using set_update_cases [OF that] D(1) once [OF that] by auto
  have "t' \<noteq> 0 \<and> (H(k \<mapsto> 0)) k' = Some 0" if "Host_thread k' t' \<in> set (P[i := Host_check k t])" for k' t'
    using set_update_cases [OF that] D(2) by auto
  moreover have "t' \<noteq> 0 \<and> ((H(k \<mapsto> 0)) k' = Some t'
      \<or> (H(k \<mapsto> 0)) k' = Some 0 \<and> Host_thread k' t' \<in> set (P[i := Host_check k t] @ [Host_thread k t]))"
    if "Host_check k' t' \<in> set (P[i := Host_check k t])" for k' t'
    using set_update_cases [OF that]
  proof
    assume "Host_check k' t' = Host_check k t"
    then show ?thesis using assms(4) by simp
  next
    assume "Host_check k' t' \<in> set P"
    from D(3) [OF this] Hk show ?thesis
      using set_update_other [of "Host_thread k' t'" P i] assms(3) by auto
  qed
  ultimately show ?thesis using assms(4) count create unfolding host_ok_def by simp
qed

lemma host_ok_enter:
  assumes "host_ok P H" and "i < length P" and "P ! i = Host_thread k t"
  shows "host_ok (P[i := Fun_args 0 k]) (H(k \<mapsto> t))"
proof -
  note D = host_okD [OF assms(1)]
  have mem: "Host_thread k t \<in> set P" using assms(2,3) nth_mem by metis
  have once: "\<not> pc_unspawned k x" if "x \<in> set (P[i := Fun_args 0 k])" for x
    by (rule unspawned_once [OF D(4) assms(2) _ _ that]) (simp_all add: assms(3))
  have thread: "t' = t" if "Host_thread k t' \<in> set P" for t'
    using set_update_other [OF that, of i "Fun_args 0 k"] once [of "Host_thread k t'"] assms(3) by auto
  have "(H(k \<mapsto> t)) k' = None" if "Host_create k' \<in> set (P[i := Fun_args 0 k])" for k'
    using set_update_cases [OF that] D(1) once [OF that] by auto
  moreover have "t' \<noteq> 0 \<and> (H(k \<mapsto> t)) k' = Some 0" if "Host_thread k' t' \<in> set (P[i := Fun_args 0 k])" for k' t'
    using set_update_cases [OF that] D(2) once [OF that] by auto
  moreover have "t' \<noteq> 0 \<and> ((H(k \<mapsto> t)) k' = Some t'
      \<or> (H(k \<mapsto> t)) k' = Some 0 \<and> Host_thread k' t' \<in> set (P[i := Fun_args 0 k]))"
    if "Host_check k' t' \<in> set (P[i := Fun_args 0 k])" for k' t'
    using set_update_cases [OF that] D(3) [of k' t'] D(2) [OF mem] thread assms(3)
      set_update_other [of "Host_thread k' t'" P i "Fun_args 0 k"]
    by (cases "k' = k") auto
  moreover have "\<forall>k'. length (filter (pc_unspawned k') (P[i := Fun_args 0 k])) \<le> 1"
    by (rule unspawned_update [OF D(4) assms(2)]) simp
  ultimately show ?thesis unfolding host_ok_def by blast
qed

text \<open>Steps that make no use of the table of the host.\<close>

fun pc_hostless :: "'f thread_pc \<Rightarrow> bool" where
  "pc_hostless (Host_create _) = False"
| "pc_hostless (Host_thread _ _) = False"
| "pc_hostless (Host_check _ _) = False"
| "pc_hostless _ = True"

lemma host_ok_move:
  assumes "host_ok P H" and "i < length P" and "pc_hostless y" and "\<And>k t. P ! i \<noteq> Host_thread k t"
  shows "host_ok (P[i := y]) H"
proof -
  note D = host_okD [OF assms(1)]
  have "\<forall>k'. length (filter (pc_unspawned k') (P[i := y])) \<le> 1"
    by (rule unspawned_update [OF D(4) assms(2)]) (use assms(3) in \<open>cases y; simp\<close>)
  moreover have "H k = None" if "Host_create k \<in> set (P[i := y])" for k
    using set_update_cases [OF that] D(1) assms(3) by auto
  moreover have "t \<noteq> 0 \<and> H k = Some 0" if "Host_thread k t \<in> set (P[i := y])" for k t
    using set_update_cases [OF that] D(2) assms(3) by auto
  moreover have "t \<noteq> 0 \<and> (H k = Some t \<or> H k = Some 0 \<and> Host_thread k t \<in> set (P[i := y]))"
    if "Host_check k t \<in> set (P[i := y])" for k t
    using set_update_cases [OF that] D(3) [of k t] assms(3) set_update_other [of "Host_thread k t" P i y]
      assms(4) [of k t] by fastforce
  ultimately show ?thesis unfolding host_ok_def by blast
qed


lemma enclave_okD:
  assumes "enclave_ok P K" and "pc \<in> set P" and "pc_creating k pc"
  obtains v where "K k = Some v" and "v = 0 \<Longrightarrow> \<exists>pc \<in> set P. pc_unregistered k pc"
  using assms unfolding enclave_ok_def by blast

lemma enclave_ok_append: "enclave_ok P K \<Longrightarrow> (\<And>k. \<not> pc_creating k y) \<Longrightarrow> enclave_ok (P @ [y]) K"
  unfolding enclave_ok_def by fastforce

text \<open>A thread that goes on stays the creator of its thread, or ahead of its entry, or makes its entry.\<close>

lemma enclave_ok_move:
  assumes "enclave_ok P K" and "i < length P" and "\<And>k. pc_creating k y \<Longrightarrow> pc_creating k (P ! i)"
    and "\<And>k v. K k = Some v \<Longrightarrow> \<exists>v'. K' k = Some v' \<and> (v' = 0 \<longrightarrow> v = 0)"
    and "\<And>k. pc_unregistered k (P ! i) \<Longrightarrow> \<not> pc_unregistered k y \<Longrightarrow> K' k = Some 0 \<Longrightarrow> \<exists>x \<in> set Q. pc_unregistered k x"
    and "set (P[i := y]) \<subseteq> set Q" and "\<And>k x. x \<in> set Q \<Longrightarrow> pc_creating k x \<Longrightarrow> x \<in> set (P[i := y])"
  shows "enclave_ok Q K'"
  unfolding enclave_ok_def
proof (intro allI impI)
  fix k assume "\<exists>pc \<in> set Q. pc_creating k pc"
  then obtain x where x: "x \<in> set (P[i := y])" "pc_creating k x" using assms(7) by blast
  have "\<exists>pc \<in> set P. pc_creating k pc"
    using set_update_cases [OF x(1)] x(2) assms(3) [of k] nth_mem [OF assms(2)] by blast
  then obtain v where v: "K k = Some v" "v = 0 \<Longrightarrow> \<exists>pc \<in> set P. pc_unregistered k pc"
    using enclave_okD [OF assms(1)] by blast
  obtain v' where v': "K' k = Some v'" "v' = 0 \<longrightarrow> v = 0" using assms(4) [OF v(1)] by blast
  have "\<exists>pc \<in> set Q. pc_unregistered k pc" if "v' = 0"
  proof -
    obtain pc where pc: "pc \<in> set P" "pc_unregistered k pc" using v(2) v'(2) \<open>v' = 0\<close> by blast
    show ?thesis
    proof (cases "pc = P ! i \<and> \<not> pc_unregistered k y")
      case True
      then show ?thesis using assms(5) pc(2) v'(1) \<open>v' = 0\<close> by blast
    next
      case False
      then have "(if pc = P ! i then y else pc) \<in> set Q \<and> pc_unregistered k (if pc = P ! i then y else pc)"
        using set_update_other [OF pc(1), of i y] set_update_self [OF assms(2), of y] assms(6) pc(2) by auto
      then show ?thesis by blast
    qed
  qed
  with v'(1) show "\<exists>v. K' k = Some v \<and> (v = 0 \<longrightarrow> (\<exists>pc \<in> set Q. pc_unregistered k pc))" by blast
qed

section \<open>Invariant of runs that only create\<close>

definition creates_inv :: "'f threading \<Rightarrow> bool" where
  "creates_inv s \<longleftrightarrow>
     threads_inv s \<and> \<not> th_aborted s \<and> length (th_created s) < 2 ^ 64
     \<and> fst ` set (enclave_host_id_map s) \<subseteq> keys_upto (length (th_created s))
     \<and> host_ok (th_pool s) (map_of (enclave_host_id_map s)) \<and> enclave_ok (th_pool s) (map_of (key_to_thread_id_map s))
     \<and> list_all pc_of_creation (th_pool s)
     \<and> threads_weight s \<le> 10 * length (th_created s)"

lemma creates_invD:
  assumes "creates_inv s"
  shows "threads_inv s" "\<not> th_aborted s" "length (th_created s) < 2 ^ 64"
    "fst ` set (enclave_host_id_map s) \<subseteq> keys_upto (length (th_created s))"
    "host_ok (th_pool s) (map_of (enclave_host_id_map s))"
    "enclave_ok (th_pool s) (map_of (key_to_thread_id_map s))"
    "list_all pc_of_creation (th_pool s)" "threads_weight s \<le> 10 * length (th_created s)"
  using assms unfolding creates_inv_def by blast+

lemma new_key: "Suc n < 2 ^ 64 \<Longrightarrow> of_nat (Suc n) \<notin> keys_upto n"
proof
  assume n: "Suc n < 2 ^ 64" and "of_nat (Suc n) \<in> keys_upto n"
  then obtain j where j: "(of_nat (Suc n) :: 64 word) = of_nat j" "j \<le> n" by (auto simp: keys_upto_def)
  then have "unat (of_nat (Suc n) :: 64 word) = unat (of_nat j :: 64 word)" by simp
  moreover have "unat (of_nat (Suc n) :: 64 word) = Suc n" using n
    by (simp add: unsigned_of_nat take_bit_nat_eq_self_iff del: of_nat_Suc)
  moreover have "unat (of_nat j :: 64 word) = j" using n j
    by (simp add: unsigned_of_nat take_bit_nat_eq_self_iff)
  ultimately show False using j(2) by simp
qed

lemma pc_key_uses: "pc_unspawned k pc \<Longrightarrow> k \<in> pc_keys pc" "pc_creating k pc \<Longrightarrow> k \<in> pc_keys pc"
  by (cases pc; simp)+

lemma creates_inv_create:
  assumes "creates_inv s" and "create_enqueue f s = (k, s1)" and "Suc (length (th_created s)) < 2 ^ 64"
  shows "creates_inv (s1\<lparr>th_pool := th_pool s1 @ [Host_create k]\<rparr>)"
proof -
  note D = creates_invD [OF assms(1)]
  let ?n = "length (th_created s)"
  have k: "k = of_nat (Suc ?n)" using D(1) assms(2) by (simp add: create_enqueue_def threads_inv_def Let_def add.commute)
  then have fresh: "k \<notin> keys_upto ?n" using new_key [OF assms(3)] by simp
  have s1: "s1 = s\<lparr>thread_functions := thread_functions s @ [f], next_enc_thread_id := k, enc_key_global := k,
      key_to_thread_id_map := table_insert k 0 (key_to_thread_id_map s), th_created := th_created s @ [f]\<rparr>"
    using assms(2) by (auto simp: create_enqueue_def Let_def)
  have notin: "k \<notin> pc_keys pc" if "pc \<in> set (th_pool s)" for pc
    using D(1) that fresh unfolding threads_inv_def by blast
  have H: "map_of (enclave_host_id_map s) k = None" using fresh D(4) by (auto simp: map_of_eq_None_iff)
  have "map_of (key_to_thread_id_map s) k = None" using fresh inv_keys [OF D(1)] by (auto simp: map_of_eq_None_iff)
  then have K: "map_of (table_insert k 0 (key_to_thread_id_map s)) = (map_of (key_to_thread_id_map s))(k \<mapsto> 0)"
    by (simp add: table_insert_def)
  have none: "filter (pc_unspawned k) (th_pool s) = []" using notin pc_key_uses(1) by (force simp: filter_empty_conv)
  have h: "host_ok (th_pool s @ [Host_create k]) (map_of (enclave_host_id_map s))"
    using D(5) H none unfolding host_ok_def by (auto split: if_splits)
  have nc: "\<not> pc_creating k pc" if "pc \<in> set (th_pool s)" for pc using notin [OF that] pc_key_uses(2) by blast
  have e: "enclave_ok (th_pool s @ [Host_create k]) ((map_of (key_to_thread_id_map s))(k \<mapsto> 0))"
    using D(6) nc unfolding enclave_ok_def by fastforce
  have keys: "fst ` set (enclave_host_id_map s) \<subseteq> keys_upto (Suc ?n)"
    using D(4) keys_upto_mono [of ?n "Suc ?n"] by auto
  show ?thesis
    using inv_create [OF D(1) assms(2)] D(2,7,8) h e keys assms(3)
    unfolding creates_inv_def s1 by (simp add: K threads_weight_def)
qed

text \<open>Steps that move one thread and touch neither the table of the host nor, for creators, the one of the enclave.\<close>

lemma creates_inv_move:
  assumes "creates_inv s" and "i < length (th_pool s)" and "threads_inv s'"
    and "th_pool s' = (th_pool s)[i := y]" and "th_created s' = th_created s" and "\<not> th_aborted s'"
    and "enclave_host_id_map s' = enclave_host_id_map s" and "pc_hostless y" and "\<And>k t. th_pool s ! i \<noteq> Host_thread k t"
    and "\<And>k. pc_creating k y \<Longrightarrow> pc_creating k (th_pool s ! i)"
    and "\<And>k v. map_of (key_to_thread_id_map s) k = Some v \<Longrightarrow>
      \<exists>v'. map_of (key_to_thread_id_map s') k = Some v' \<and> (v' = 0 \<longrightarrow> v = 0)"
    and "\<And>k. pc_unregistered k (th_pool s ! i) \<Longrightarrow> \<not> pc_unregistered k y \<Longrightarrow> map_of (key_to_thread_id_map s') k \<noteq> Some 0"
    and "pc_of_creation y" and "pc_weight y < pc_weight (th_pool s ! i)"
  shows "creates_inv s' \<and> threads_weight s' < threads_weight s"
proof -
  note D = creates_invD [OF assms(1)]
  have w: "threads_weight s' < threads_weight s"
    using weight_update [OF assms(2), of y] assms(4,14) by (simp add: threads_weight_def)
  have "enclave_ok ((th_pool s)[i := y]) (map_of (key_to_thread_id_map s'))"
    by (rule enclave_ok_move [OF D(6) assms(2,10,11)]) (use assms(12) in auto)
  moreover have "list_all pc_of_creation ((th_pool s)[i := y])"
    using D(7) assms(13) by (auto simp: list_all_iff dest: set_update_cases)
  ultimately show ?thesis
    using D w assms(3-7) host_ok_move [OF D(5) assms(2,8,9)] unfolding creates_inv_def by simp
qed

lemma creates_inv_spawn:
  assumes "creates_inv s" and i: "i < length (th_pool s)" and pc: "th_pool s ! i = Host_create k" and "t \<noteq> 0"
    and "threads_inv s'"
    and s': "s' = s\<lparr>enclave_host_id_map := table_insert k 0 (enclave_host_id_map s),
      th_pool := (th_pool s)[i := Host_check k t] @ [Host_thread k t]\<rparr>"
  shows "creates_inv s' \<and> threads_weight s' < threads_weight s"
proof -
  note D = creates_invD [OF assms(1)]
  have mem: "Host_create k \<in> set (th_pool s)" using i pc nth_mem by metis
  then have H: "map_of (enclave_host_id_map s) k = None" by (rule host_okD(1) [OF D(5)])
  have w: "threads_weight s' < threads_weight s"
    using weight_update [OF i, of "Host_check k t"] pc by (simp add: threads_weight_def s')
  have h: "host_ok (th_pool s') (map_of (enclave_host_id_map s'))"
    using host_ok_spawn [OF D(5) i pc \<open>t \<noteq> 0\<close>] H by (simp add: s' table_insert_def)
  have e: "enclave_ok (th_pool s') (map_of (key_to_thread_id_map s'))"
    by (rule enclave_ok_move [OF D(6) i, of "Host_check k t"]) (use pc in \<open>auto simp: s'\<close>)
  have "k \<in> keys_upto (length (th_created s))" using inv_pc_keys [OF D(1) i] pc by simp
  then have "fst ` set (enclave_host_id_map s') \<subseteq> keys_upto (length (th_created s'))"
    using D(4) table_ops_keys(1) [of k 0 "enclave_host_id_map s"] by (simp add: s') blast
  moreover have "list_all pc_of_creation (th_pool s')"
    using D(7) by (auto simp: list_all_iff s' dest: set_update_cases)
  ultimately show ?thesis using D assms(5) w h e unfolding creates_inv_def by (simp add: s')
qed

lemma creates_inv_enter:
  assumes "creates_inv s" and i: "i < length (th_pool s)" and pc: "th_pool s ! i = Host_thread k t"
    and "threads_inv s'"
    and s': "s' = s\<lparr>enclave_host_id_map := table_put k t (enclave_host_id_map s), th_pool := (th_pool s)[i := Fun_args 0 k]\<rparr>"
  shows "creates_inv s' \<and> threads_weight s' < threads_weight s"
proof -
  note D = creates_invD [OF assms(1)]
  have w: "threads_weight s' < threads_weight s"
    using weight_update [OF i, of "Fun_args 0 k"] pc by (simp add: threads_weight_def s')
  have h: "host_ok (th_pool s') (map_of (enclave_host_id_map s'))"
    using host_ok_enter [OF D(5) i pc] by (simp add: s')
  have e: "enclave_ok (th_pool s') (map_of (key_to_thread_id_map s'))"
    by (rule enclave_ok_move [OF D(6) i, of "Fun_args 0 k"]) (use pc in \<open>auto simp: s'\<close>)
  have "k \<in> keys_upto (length (th_created s))" using inv_pc_keys [OF D(1) i] pc by simp
  moreover have "list_all pc_of_creation (th_pool s')"
    using D(7) by (auto simp: list_all_iff s' dest: set_update_cases)
  ultimately show ?thesis using D assms(4) w h e unfolding creates_inv_def by (simp add: s')
qed

lemma args_simps [simp]:
  "th_pool (thread_fun_args n k s) = th_pool s" "th_created (thread_fun_args n k s) = th_created s"
  "key_to_thread_id_map (thread_fun_args n k s) = key_to_thread_id_map s"
  "enclave_host_id_map (thread_fun_args n k s) = enclave_host_id_map s"
  "th_aborted (thread_fun_args n k s) = th_aborted s"
  by (simp_all add: thread_fun_args_def write_args_def Let_def)

lemma set_pc_simps [simp]:
  "th_pool (set_pc i y s) = (th_pool s)[i := y]" "th_created (set_pc i y s) = th_created s"
  "key_to_thread_id_map (set_pc i y s) = key_to_thread_id_map s" "enclave_host_id_map (set_pc i y s) = enclave_host_id_map s"
  "th_aborted (set_pc i y s) = th_aborted s"
  by (simp_all add: set_pc_def)

lemma table_at_present: "map_of t k = Some v \<Longrightarrow> table_at k t = (v, t)"
  by (simp add: table_at_def)

lemma threading_self [simp]:
  "s\<lparr>enclave_host_id_map := enclave_host_id_map s\<rparr> = s" "s\<lparr>key_to_thread_id_map := key_to_thread_id_map s\<rparr> = s"
  by simp_all

text \<open>A creator finds its thread in the tables, or the thread is on its way.\<close>

lemma host_check_outcome:
  assumes "creates_inv s" and "i < length (th_pool s)" and "th_pool s ! i = Host_check k t"
  shows "advance i tid (Host_check k t) s =
    (if map_of (enclave_host_id_map s) k = Some 0 then Some s else Some (set_pc i (Create_poll k) s))"
    and "map_of (enclave_host_id_map s) k = Some 0 \<Longrightarrow> Host_thread k t \<in> set (th_pool s)"
proof -
  have "Host_check k t \<in> set (th_pool s)" using assms(2,3) nth_mem by metis
  note c = host_okD(3) [OF creates_invD(5) [OF assms(1)] this]
  then show "advance i tid (Host_check k t) s =
    (if map_of (enclave_host_id_map s) k = Some 0 then Some s else Some (set_pc i (Create_poll k) s))"
    by (auto simp: host_create_check_def table_at_present)
  show "map_of (enclave_host_id_map s) k = Some 0 \<Longrightarrow> Host_thread k t \<in> set (th_pool s)" using c by auto
qed

lemma create_poll_outcome:
  assumes "creates_inv s" and "i < length (th_pool s)" and "th_pool s ! i = Create_poll k"
  obtains v where "map_of (key_to_thread_id_map s) k = Some v"
    and "advance i tid (Create_poll k) s = (if v = 0 then Some s else Some (set_pc i (Create_done v) s))"
    and "v = 0 \<Longrightarrow> \<exists>pc \<in> set (th_pool s). pc_unregistered k pc"
proof -
  have mem: "Create_poll k \<in> set (th_pool s)" using assms(2,3) nth_mem by metis
  obtain v where v: "map_of (key_to_thread_id_map s) k = Some v" "v = 0 \<Longrightarrow> \<exists>pc \<in> set (th_pool s). pc_unregistered k pc"
    by (rule enclave_okD [OF creates_invD(6) [OF assms(1)] mem, of k]) auto
  show ?thesis by (rule that [OF v(1) _ v(2)]) (simp_all add: create_poll_def table_at_present [OF v(1)])
qed

lemma creates_inv_advance:
  assumes inv: "creates_inv s" and i: "i < length (th_pool s)" and adv: "advance i tid (th_pool s ! i) s = Some s'"
  shows "creates_inv s' \<and> threads_weight s' < threads_weight s \<or> s' = s"
proof -
  note D = creates_invD [OF inv]
  note inv' = inv_advance [OF D(1) i adv]
  note move = creates_inv_move [OF inv i inv']
  have "pc_of_creation (th_pool s ! i)" using D(7) i by (simp add: list_all_length)
  then show ?thesis
  proof (cases "th_pool s ! i")
    case (Host_create k)
    then have "tid \<noteq> 0" and "s' = s\<lparr>enclave_host_id_map := table_insert k 0 (enclave_host_id_map s),
      th_pool := (th_pool s)[i := Host_check k tid] @ [Host_thread k tid]\<rparr>"
      using adv by (auto simp: host_create_insert_def set_pc_def Let_def split: if_splits)
    then show ?thesis using creates_inv_spawn [OF inv i Host_create _ inv'] by blast
  next
    case (Host_check k t)
    then show ?thesis
      using adv host_check_outcome(1) [OF inv i Host_check, of tid] D(2) move [of "Create_poll k"]
      by (auto split: if_splits)
  next
    case (Create_poll k)
    obtain v where "advance i tid (Create_poll k) s = (if v = 0 then Some s else Some (set_pc i (Create_done v) s))"
      using create_poll_outcome [OF inv i Create_poll, of tid] by blast
    then show ?thesis using adv Create_poll D(2) move [of "Create_done v"] by (auto split: if_splits)
  next
    case (Host_thread k t)
    then have "s' = s\<lparr>enclave_host_id_map := table_put k t (enclave_host_id_map s), th_pool := (th_pool s)[i := Fun_args 0 k]\<rparr>"
      using adv by (simp add: host_enclave_thread_def set_pc_def)
    then show ?thesis using creates_inv_enter [OF inv i Host_thread inv'] by blast
  next
    case (Fun_args n k)
    then show ?thesis using adv D(2) move [of "if n < 2 then Fun_args (n + 1) k else Fun_register k"] by auto
  next
    case (Fun_register k)
    then show ?thesis
      using adv D(2) move [of "Fun_take k"] by (auto simp: thread_fun_register_def split: if_splits)
  next
    case (Fun_take k)
    then obtain f where "s' = set_pc i (Fun_run k f)
        (s\<lparr>thread_functions := butlast (thread_functions s), th_started := th_started s @ [(k, f)]\<rparr>)"
      using adv by (auto simp: thread_fun_take_def Let_def split: if_splits)
    then show ?thesis using Fun_take D(2) move [of "Fun_run k f"] by auto
  next
    case (Fun_run k f)
    then show ?thesis using adv D(2) move [of "Fun_done k"] by auto
  qed (use adv in auto)
qed

lemma creates_reach_inv: "creates_reach s \<Longrightarrow> creates_inv s"
proof (induction rule: creates_reach.induct)
  case creates_init
  show ?case
    using threads_reach_inv [OF reach_init]
    by (simp add: creates_inv_def threading_init_def host_ok_def enclave_ok_def threads_weight_def)
next
  case (creates_step s a s')
  show ?case
  proof (cases a)
    case (Call_create f)
    obtain k s1 where c: "create_enqueue f s = (k, s1)" by (metis surj_pair)
    then have s': "s' = s1\<lparr>th_pool := th_pool s1 @ [Host_create k]\<rparr>"
      using creates_step.hyps(3) Call_create creates_invD(2) [OF creates_step.IH] by (simp add: threading_step_def)
    moreover have "th_created s1 = th_created s @ [f]" using c by (auto simp: create_enqueue_def Let_def)
    ultimately show ?thesis
      using creates_inv_create [OF creates_step.IH c] creates_step.hyps(4) by simp
  next
    case (Advance i tid)
    then show ?thesis
      using creates_step creates_inv_advance [of s i tid s'] by (auto simp: threading_step_def split: if_splits)
  qed (use creates_step.hyps(2) in auto)
qed

lemma step_advance: "creates_inv s \<Longrightarrow> i < length (th_pool s) \<Longrightarrow> threading_step (Advance i tid) s = advance i tid (th_pool s ! i) s"
  by (simp add: threading_step_def creates_invD(2))

section \<open>Progress\<close>

text \<open>A thread that does not wait for another can make a step.\<close>

fun pc_moves :: "'f thread_pc \<Rightarrow> bool" where
  "pc_moves (Host_create _) = True"
| "pc_moves (Host_thread _ _) = True"
| "pc_moves (Fun_args _ _) = True"
| "pc_moves (Fun_register _) = True"
| "pc_moves (Fun_take _) = True"
| "pc_moves (Fun_run _ _) = True"
| "pc_moves _ = False"

lemma set_pc_neq: "i < length (th_pool s) \<Longrightarrow> y \<noteq> th_pool s ! i \<Longrightarrow> set_pc i y s' = s \<Longrightarrow> th_pool s' = th_pool s \<Longrightarrow> False"
  by (metis nth_list_update_eq set_pc_simps(1))

lemma moves_advance:
  assumes inv: "creates_inv s" and i: "i < length (th_pool s)" and m: "pc_moves (th_pool s ! i)"
  shows "\<exists>tid s'. advance i tid (th_pool s ! i) s = Some s' \<and> s' \<noteq> s"
proof -
  note D = creates_invD [OF inv]
  have "finite (insert 0 (snd ` set (enclave_host_id_map s)))" by simp
  then obtain t where t: "t \<notin> insert 0 (snd ` set (enclave_host_id_map s))"
    using ex_new_if_finite infinite_UNIV_nat by metis
  have other: "th_pool s' \<noteq> th_pool s" if "th_pool s' ! i \<noteq> th_pool s ! i" for s' using that by metis
  have "\<exists>s'. advance i t (th_pool s ! i) s = Some s' \<and> th_pool s' ! i \<noteq> th_pool s ! i"
  proof (cases "th_pool s ! i")
    case (Host_create k)
    then show ?thesis using t i by (simp add: host_create_insert_def Let_def nth_append)
  next
    case (Host_thread k u)
    then show ?thesis using i by (simp add: host_enclave_thread_def)
  next
    case (Fun_register k)
    then show ?thesis using t i by (simp add: thread_fun_register_def)
  next
    case (Fun_take k)
    then show ?thesis
      using i inv_pending_functions [OF D(1) i] by (simp add: thread_fun_take_def Let_def)
  qed (use i m in auto)
  with other show ?thesis by metis
qed

lemma unregistered_moves: "pc_unregistered k pc \<Longrightarrow> pc_moves pc"
  by (cases pc) auto

lemma some_thread_moves:
  assumes inv: "creates_inv s" and unfinished: "\<not> list_all pc_finished (th_pool s)"
  obtains i tid s' where "threading_step (Advance i tid) s = Some s'" and "creates_inv s'"
    and "threads_weight s' < threads_weight s"
proof -
  note D = creates_invD [OF inv] and goal = that
  have one: thesis if i: "i < length (th_pool s)" and "advance i tid (th_pool s ! i) s = Some s'" and "s' \<noteq> s" for i tid s'
    using that(2,3) creates_inv_advance [OF inv i that(2)] step_advance [OF inv i] by (intro goal [of i tid s']) auto
  show thesis
  proof (cases "\<exists>pc \<in> set (th_pool s). pc_moves pc")
    case True
    then obtain i where i: "i < length (th_pool s)" "pc_moves (th_pool s ! i)" by (metis in_set_conv_nth)
    then show ?thesis using moves_advance [OF inv i] one [OF i(1)] by blast
  next
    case False
    obtain i where i: "i < length (th_pool s)" "\<not> pc_finished (th_pool s ! i)"
      using unfinished by (auto simp: list_all_length)
    have c: "pc_of_creation (th_pool s ! i)" using D(7) i(1) by (simp add: list_all_length)
    have nm: "\<not> pc_moves (th_pool s ! i)" using False nth_mem [OF i(1)] by blast
    from i(2) c nm consider k t where "th_pool s ! i = Host_check k t" | k where "th_pool s ! i = Create_poll k"
      by (cases "th_pool s ! i") auto
    then show ?thesis
    proof cases
      case (1 k t)
      have "advance i 0 (th_pool s ! i) s = Some (set_pc i (Create_poll k) s)"
        using host_check_outcome [OF inv i(1) 1] False 1 by fastforce
      then show ?thesis by (rule one [OF i(1)]) (use set_pc_neq [OF i(1), of "Create_poll k" s] 1 in auto)
    next
      case (2 k)
      obtain v where v: "advance i 0 (Create_poll k) s = (if v = 0 then Some s else Some (set_pc i (Create_done v) s))"
        "v = 0 \<Longrightarrow> \<exists>pc \<in> set (th_pool s). pc_unregistered k pc"
        using create_poll_outcome [OF inv i(1) 2, of 0] by blast
      then have "advance i 0 (th_pool s ! i) s = Some (set_pc i (Create_done v) s)"
        using False unregistered_moves 2 by auto
      then show ?thesis by (rule one [OF i(1)]) (use set_pc_neq [OF i(1), of "Create_done v" s] 2 in auto)
    qed
  qed
qed

lemma advance_created: "threading_step (Advance i tid) s = Some s' \<Longrightarrow> th_created s' = th_created s"
  by (cases "th_pool s ! i")
    (auto simp: threading_step_def host_create_insert_def Let_def host_create_check_def create_poll_def
      host_enclave_thread_def thread_fun_register_def thread_fun_take_def lookup_eqs host_join_erase_def join_lookup_def
      split: if_splits prod.splits option.splits thread_hook.splits)

lemma creation_schedule:
  assumes "creates_inv s"
  shows "\<exists>as s'. length as \<le> threads_weight s \<and> threading_run (map (\<lambda>(i, tid). Advance i tid) as) s = Some s'
    \<and> creates_inv s' \<and> th_created s' = th_created s \<and> list_all pc_finished (th_pool s')"
  using assms
proof (induction "threads_weight s" arbitrary: s rule: less_induct)
  case less
  show ?case
  proof (cases "list_all pc_finished (th_pool s)")
    case True
    with less.prems show ?thesis by (intro exI [of _ "[]"]) simp
  next
    case False
    obtain i tid s1 where s1: "threading_step (Advance i tid) s = Some s1" "creates_inv s1" "threads_weight s1 < threads_weight s"
      by (rule some_thread_moves [OF less.prems False])
    obtain as s' where as: "length as \<le> threads_weight s1" "threading_run (map (\<lambda>(i, tid). Advance i tid) as) s1 = Some s'"
      "creates_inv s'" "th_created s' = th_created s1" "list_all pc_finished (th_pool s')"
      using less.hyps [OF s1(3,2)] by blast
    with s1 advance_created [OF s1(1)] show ?thesis by (intro exI [of _ "(i, tid) # as"] exI [of _ s']) simp
  qed
qed

lemma finished_started:
  assumes "threads_inv s" and "list_all pc_finished (th_pool s)"
  shows "mset (map snd (th_started s)) = mset (th_created s)"
proof -
  have "\<not> pc_pending pc" if "pc_finished pc" for pc :: "'a thread_pc" using that by (cases pc) auto
  then have "pending_count s = 0" using assms(2) by (auto simp: pending_count_def filter_empty_conv list_all_iff)
  with assms(1) show ?thesis by (auto simp: threads_inv_def)
qed


section \<open>A thread that is detached too early\<close>

text \<open>The creator of thread \<open>k\<close> polls a table that has lost the entry of its thread.\<close>

definition creator_lost :: "nat \<Rightarrow> 64 word \<Rightarrow> 'f threading \<Rightarrow> bool" where
  "creator_lost i k s \<longleftrightarrow>
     threads_inv s \<and> i < length (th_pool s) \<and> th_pool s ! i = Create_poll k
     \<and> map_of (key_to_thread_id_map s) k \<in> {None, Some 0}
     \<and> (\<forall>pc \<in> set (th_pool s). \<not> pc_unregistered k pc) \<and> k \<in> keys_upto (length (th_created s))"

lemma creator_lost_update:
  assumes "creator_lost i k s" and "threads_inv s'" and "j \<noteq> i" and "j < length (th_pool s)"
    and "th_pool s' = (th_pool s)[j := y] @ ys" and "list_all (\<lambda>pc. pc_unregistered k pc \<longrightarrow> pc_unregistered k (th_pool s ! j)) (y # ys)"
    and "map_of (key_to_thread_id_map s') k \<in> {None, Some 0}" and "th_created s' = th_created s"
  shows "creator_lost i k s'"
proof -
  have "\<not> pc_unregistered k (th_pool s ! j)" using assms(1,4) unfolding creator_lost_def by simp
  then have "\<not> pc_unregistered k pc" if "pc \<in> set ((th_pool s)[j := y] @ ys)" for pc
    using that assms(1,6) set_update_cases [of pc "th_pool s" j y] unfolding creator_lost_def by (auto simp: list_all_iff)
  with assms show ?thesis unfolding creator_lost_def by (simp add: nth_append)
qed

lemma map_of_table_erase: "map_of (table_erase k t) = (map_of t)(k := None)"
  by (induction t) (auto simp: table_erase_def fun_eq_iff)

lemma table_at_lost: "table_at k' t = (v, t') \<Longrightarrow> map_of t k \<in> {None, Some 0} \<Longrightarrow> map_of t' k \<in> {None, Some 0}"
  by (auto simp: table_at_def split: option.splits if_splits)

lemma finish_lost:
  "map_of (key_to_thread_id_map s) k \<in> {None, Some 0} \<Longrightarrow> map_of (key_to_thread_id_map (join_finish k' r s)) k \<in> {None, Some 0}"
  "map_of (key_to_thread_id_map s) k \<in> {None, Some 0} \<Longrightarrow> map_of (key_to_thread_id_map (detach_finish k' r s)) k \<in> {None, Some 0}"
  by (auto simp: join_finish_def detach_finish_def Let_def map_of_table_erase)

lemma creator_lost_kept:
  "creator_lost i k s \<Longrightarrow> threads_inv s' \<Longrightarrow> th_pool s' = th_pool s \<Longrightarrow> key_to_thread_id_map s' = key_to_thread_id_map s
     \<Longrightarrow> th_created s' = th_created s \<Longrightarrow> creator_lost i k s'"
  by (simp add: creator_lost_def)

lemma creator_lost_poll:
  assumes lost: "creator_lost i k s" and j: "j < length (th_pool s)" "th_pool s ! j = Create_poll k'"
    and adv: "advance j tid (Create_poll k') s = Some s'"
  shows "creator_lost i k s'"
proof -
  have inv': "threads_inv s'" and i: "th_pool s ! i = Create_poll k"
    and K: "map_of (key_to_thread_id_map s) k \<in> {None, Some 0}"
    using lost inv_poll [OF _ j adv] unfolding creator_lost_def by simp_all
  from adv obtain v t where t: "table_at k' (key_to_thread_id_map s) = (v, t)"
    "s' = (if v = 0 then s\<lparr>key_to_thread_id_map := t\<rparr> else set_pc j (Create_done v) (s\<lparr>key_to_thread_id_map := t\<rparr>))"
    by (rule advance_poll)
  note t' = table_at_lost [OF t(1) K]
  show ?thesis
  proof (cases "v = 0")
    case True
    then show ?thesis using lost t(2) t' inv' unfolding creator_lost_def by simp
  next
    case False
    then have "j \<noteq> i" using K i j(2) t(1) by (auto simp: table_at_def split: option.splits)
    then show ?thesis using creator_lost_update [OF lost inv' _ j(1), of "Create_done v" "[]"] t(2) t' False by auto
  qed
qed

lemma creator_lost_new_thread:
  assumes lost: "creator_lost i k s" and j: "j < length (th_pool s)" and adv: "advance j tid (th_pool s ! j) s = Some s'"
    and pc: "pc_of_creation (th_pool s ! j)"
  shows "creator_lost i k s'"
proof (cases "\<exists>k'. th_pool s ! j = Create_poll k'")
  case True
  then show ?thesis using creator_lost_poll [OF lost j] adv by auto
next
  case False
  have K: "map_of (key_to_thread_id_map s) k \<in> {None, Some 0}" and u: "\<not> pc_unregistered k (th_pool s ! j)" and ji: "j \<noteq> i"
    and inv': "threads_inv s'"
    using lost j False inv_advance [OF _ j adv] unfolding creator_lost_def by auto
  note upd = creator_lost_update [OF lost inv' ji j]
  show ?thesis
  proof (cases "th_pool s ! j")
    case (Host_create k')
    then show ?thesis using adv upd [of "Host_check k' tid" "[Host_thread k' tid]"] u K
      by (auto simp: host_create_insert_def Let_def split: if_splits)
  next
    case (Host_check k' t)
    then show ?thesis using adv upd [of "Create_poll k'" "[]"] creator_lost_kept [OF lost inv'] u K
      by (auto simp: host_create_check_def Let_def split: prod.splits if_splits)
  next
    case (Fun_args n k')
    then show ?thesis
      using adv upd [of "if n < 2 then Fun_args (n + 1) k' else Fun_register k'" "[]"] u K by (auto split: if_splits)
  next
    case (Fun_take k')
    then show ?thesis using adv upd [of "Fun_run k' (last (thread_functions s))" "[]"] u K
      by (auto simp: thread_fun_take_def Let_def split: if_splits)
  qed (use adv upd [where ys = "[]"] u K False pc in
      \<open>auto simp: host_enclave_thread_def thread_fun_register_def split: if_splits\<close>)
qed

lemma creator_lost_advance:
  assumes lost: "creator_lost i k s" and j: "j < length (th_pool s)" and adv: "advance j tid (th_pool s ! j) s = Some s'"
  shows "creator_lost i k s'"
proof (cases "pc_of_creation (th_pool s ! j)")
  case True
  then show ?thesis by (rule creator_lost_new_thread [OF assms])
next
  case False
  have inv: "threads_inv s" and K: "map_of (key_to_thread_id_map s) k \<in> {None, Some 0}" and ji: "j \<noteq> i" and inv': "threads_inv s'"
    using lost False inv_advance [OF _ j adv] unfolding creator_lost_def by auto
  note upd = creator_lost_update [OF lost inv' ji j, where ys = "[]"] and kept = creator_lost_kept [OF lost inv']
  show ?thesis
  proof (cases "th_pool s ! j")
    case (Hook_lookup h t)
    from adv [unfolded Hook_lookup] show ?thesis
    proof (cases rule: advance_lookup)
      case (found k' s1)
      then show ?thesis using upd [of "Hook_host h k'"] inv_lookup [OF inv found(1)] K by auto
    qed (use kept in simp)
  next
    case (Hook_host h k')
    then show ?thesis using adv upd [of "Hook_wait h k' (the (host_join_find k' s))"] kept K
      by (auto simp: lookup_eqs split: thread_hook.splits option.splits)
  next
    case (Hook_wait h k' t)
    then show ?thesis using adv upd [of "Hook_finish h k' (int tid)"] upd [of "Hook_erase h k'"] K
      by (auto split: if_splits)
  next
    case (Hook_erase h k')
    then show ?thesis using adv upd [of "Hook_finish h k' 0"] K
      by (auto simp: lookup_eqs host_join_erase_def split: thread_hook.splits)
  next
    case (Hook_finish h k' r)
    then show ?thesis using adv upd [of "Hook_done h r"] finish_lost [OF K] by (auto split: thread_hook.splits)
  qed (use adv False in auto)
qed

lemma creator_lost_step:
  assumes "creator_lost i k s" and "threading_step a s = Some s'" and "length (th_created s') < 2 ^ 64"
  shows "creator_lost i k s'"
proof (cases a)
  case (Call_create f)
  let ?n = "length (th_created s)"
  obtain k' s1 where c: "create_enqueue f s = (k', s1)" by (metis surj_pair)
  have s': "s' = s1\<lparr>th_pool := th_pool s1 @ [Host_create k']\<rparr>"
    using assms(2) Call_create c by (auto simp: threading_step_def split: if_splits)
  have inv: "threads_inv s" and ku: "k \<in> keys_upto ?n" using assms(1) by (simp_all add: creator_lost_def)
  have s1: "s1 = s\<lparr>thread_functions := thread_functions s @ [f], next_enc_thread_id := k', enc_key_global := k',
      key_to_thread_id_map := table_insert k' 0 (key_to_thread_id_map s), th_created := th_created s @ [f]\<rparr>"
    and "k' = of_nat (Suc ?n)"
    using c inv by (auto simp: create_enqueue_def threads_inv_def Let_def add.commute)
  moreover have "Suc ?n < 2 ^ 64" using assms(3) by (simp add: s' s1)
  ultimately have "k \<noteq> k'" using new_key [of ?n] ku by auto
  then show ?thesis
    using assms(1) inv_create [OF inv c] keys_upto_mono [of ?n "Suc ?n"]
    by (auto simp: creator_lost_def s' s1 nth_append table_insert_def)
next
  case (Advance j tid)
  then show ?thesis using assms creator_lost_advance by (auto simp: threading_step_def split: if_splits)
qed (use assms inv_call in \<open>auto simp: threading_step_def creator_lost_def nth_append split: if_splits\<close>)

lemma created_mono: "threading_step a s = Some s' \<Longrightarrow> length (th_created s) \<le> length (th_created s')"
  using advance_created [of _ _ s s']
  by (cases a) (auto simp: threading_step_def create_enqueue_def Let_def split: if_splits)

lemma created_mono_run: "threading_run as s = Some s' \<Longrightarrow> length (th_created s) \<le> length (th_created s')"
proof (induction as arbitrary: s)
  case (Cons a as)
  then show ?case using created_mono le_trans by (fastforce simp: bind_eq_Some_conv)
qed simp

lemma creator_lost_run:
  "creator_lost i k s \<Longrightarrow> threading_run as s = Some s' \<Longrightarrow> length (th_created s') < 2 ^ 64 \<Longrightarrow> creator_lost i k s'"
proof (induction as arbitrary: s)
  case (Cons a as)
  then obtain s1 where s1: "threading_step a s = Some s1" "threading_run as s1 = Some s'" by (auto simp: bind_eq_Some_conv)
  have "length (th_created s1) < 2 ^ 64" using created_mono_run [OF s1(2)] Cons.prems(3) by simp
  then show ?case using Cons.IH [OF creator_lost_step [OF Cons.prems(1) s1(1)] s1(2)] Cons.prems(3) by blast
qed simp

text \<open>
  One thread is created; its function detaches it, before its creator has looked into the table of the enclave.
\<close>

definition detach_schedule :: "'f \<Rightarrow> 'f thread_action list" where
  "detach_schedule f =
     [Call_create f, Advance 0 101, Advance 1 0, Advance 0 0, Advance 1 0, Advance 1 0, Advance 1 0, Advance 1 7, Advance 1 0,
      Call_detach 7, Advance 2 0, Advance 2 0, Advance 2 0, Advance 2 0, Advance 2 0, Advance 1 0]"

lemma detach_run:
  "\<exists>s. threading_run (detach_schedule f) threading_init = Some s \<and> \<not> th_aborted s \<and> th_started s = [(1, f)]
     \<and> th_pool s = [Create_poll 1, Fun_done 1, Hook_done Hook_detach 0] \<and> key_to_thread_id_map s = [] \<and> th_created s = [f]"
  by (simp add: detach_schedule_def threading_step_def threading_init_def create_enqueue_def table_insert_def
      host_create_insert_def set_pc_def host_enclave_thread_def host_create_check_def table_at_def thread_fun_args_def
      write_args_def MAX_ENC_KEYS_def thread_fun_register_def thread_fun_take_def detach_lookup_def
      host_detach_find_def host_detach_erase_def detach_finish_def table_find_value_def table_erase_def numeral_eq_Suc)

text \<open>
  C37: a thread may detach itself as soon as it runs. When it does so before its
  creator has polled the table of the enclave, its entry is gone, and whatever happens afterwards the caller
  of \<^verbatim>\<open>pthread_create\<close> stays in the loop that waits for it, as long as the writes outside of the array of arguments, from the
  fifth thread on, do no harm.
\<close>

theorem early_detach_blocks_creator:
  "\<exists>s. threading_run (detach_schedule f) threading_init = Some s \<and> \<not> th_aborted s
     \<and> th_pool s = [Create_poll 1, Fun_done 1, Hook_done Hook_detach 0] \<and> th_started s = [(1, f)]
     \<and> (\<forall>as s'. threading_run as s = Some s' \<longrightarrow> length (th_created s') < 2 ^ 64 \<longrightarrow> th_pool s' ! 0 = Create_poll 1)"
proof -
  obtain s where s: "threading_run (detach_schedule f) threading_init = Some s" "\<not> th_aborted s" "th_started s = [(1, f)]"
    "th_pool s = [Create_poll 1, Fun_done 1, Hook_done Hook_detach 0]" "key_to_thread_id_map s = []" "th_created s = [f]"
    using detach_run [of f] by blast
  have "creator_lost 0 1 s"
    using threads_reach_inv [OF threading_run_reach [OF reach_init s(1)]] s
    by (auto simp: creator_lost_def keys_upto_def)
  then have "th_pool s' ! 0 = Create_poll 1" if "threading_run as s = Some s'" "length (th_created s') < 2 ^ 64" for as s'
    using creator_lost_run [OF _ that] by (simp add: creator_lost_def)
  with s show ?thesis by blast
qed

theorem early_detach_blocks_creator_witness:
  "\<exists>s s'. threading_run (detach_schedule CHR ''f'') threading_init = Some s
     \<and> threading_run [Advance 0 0, Call_create CHR ''g'', Advance 0 0] s = Some s' \<and> th_pool s' ! 0 = Create_poll 1"
proof -
  obtain s where s: "threading_run (detach_schedule CHR ''f'') threading_init = Some s" "\<not> th_aborted s"
    "th_pool s = [Create_poll 1, Fun_done 1, Hook_done Hook_detach 0]"
    "\<forall>as s'. threading_run as s = Some s' \<longrightarrow> length (th_created s') < 2 ^ 64 \<longrightarrow> th_pool s' ! 0 = Create_poll 1"
    using early_detach_blocks_creator [of "CHR ''f''"] by blast
  obtain u where u: "threading_run (detach_schedule CHR ''f'') threading_init = Some u" "key_to_thread_id_map u = []"
    "th_created u = ''f''" using detach_run [of "CHR ''f''"] by blast
  with s(1) have K: "key_to_thread_id_map s = []" "th_created s = ''f''" by auto
  have "\<exists>s'. threading_run [Advance 0 0, Call_create CHR ''g'', Advance 0 0] s = Some s' \<and> length (th_created s') = 2"
    using s(2,3) K
    by (simp add: threading_step_def create_poll_def table_at_def create_enqueue_def Let_def table_insert_def
        nth_append split: option.splits)
  then obtain s' where s': "threading_run [Advance 0 0, Call_create CHR ''g'', Advance 0 0] s = Some s'" "length (th_created s') = 2"
    by blast
  with s(4) have "th_pool s' ! 0 = Create_poll 1" by fastforce
  with s(1) s'(1) show ?thesis by blast
qed


end
