(* ===== verification/Spin_Lock.thy ===== *)
theory Spin_Lock
  imports Prelude
begin

text \<open>
  The lock of \<^verbatim>\<open>server/enclave/threading.cc\<close> and \<^verbatim>\<open>server/host/threading.cc\<close>: \<^verbatim>\<open>atomic_flag_lock\<close>, a spin lock on one
  \<^verbatim>\<open>std::atomic_flag\<close>, and the scoped \<^verbatim>\<open>std::unique_lock\<close> over it. The theory shows that sections under the lock are
  atomic, which is how the theory of the threads takes them.
\<close>

section \<open>The lock\<close>

record atomic_flag_lock =
  al_flag :: bool

definition ATOMIC_FLAG_INIT :: atomic_flag_lock where
  "ATOMIC_FLAG_INIT = \<lparr>al_flag = False\<rparr>"

text \<open>\<^verbatim>\<open>test_and_set\<close> returns what the flag was.\<close>

definition test_and_set :: "atomic_flag_lock \<Rightarrow> bool \<times> atomic_flag_lock" where
  "test_and_set l = (al_flag l, l\<lparr>al_flag := True\<rparr>)"

text \<open>One round of the loop of \<^verbatim>\<open>lock\<close>: \<open>True\<close> when it is left.\<close>

definition lock_round :: "atomic_flag_lock \<Rightarrow> bool \<times> atomic_flag_lock" where
  "lock_round l = (case test_and_set l of (was_set, l') \<Rightarrow> (\<not> was_set, l'))"

definition unlock :: "atomic_flag_lock \<Rightarrow> atomic_flag_lock" where
  "unlock l = l\<lparr>al_flag := False\<rparr>"

section \<open>Threads and sections\<close>

text \<open>
  A thread has local data \<open>'l\<close>; they determine the section of code it runs next, a list of accesses to the data
  \<open>'s\<close> that the lock protects. \<open>Spinning\<close> is inside \<^verbatim>\<open>lock\<close>, \<open>Inside\<close> is between \<^verbatim>\<open>lock\<close> and \<^verbatim>\<open>unlock\<close>, with what is left.
\<close>

type_synonym ('s, 'l) access = "'s \<times> 'l \<Rightarrow> 's \<times> 'l"
type_synonym ('s, 'l) sections = "'l \<Rightarrow> ('s, 'l) access list option"

datatype ('s, 'l) lock_pc = Outside | Spinning "('s, 'l) access list" | Inside "('s, 'l) access list"

record ('s, 'l) lock_system =
  sy_lock :: atomic_flag_lock
  sy_shared :: 's
  sy_locals :: "'l list"
  sy_pcs :: "('s, 'l) lock_pc list"

definition system_init :: "'s \<Rightarrow> 'l list \<Rightarrow> ('s, 'l) lock_system" where
  "system_init x ls = \<lparr>sy_lock = ATOMIC_FLAG_INIT, sy_shared = x, sy_locals = ls, sy_pcs = replicate (length ls) Outside\<rparr>"

text \<open>The next step of thread \<open>i\<close>: it comes to a section, tries the lock, makes an access, or leaves.\<close>

definition lock_step :: "('s, 'l) sections \<Rightarrow> nat \<Rightarrow> ('s, 'l) lock_system \<Rightarrow> ('s, 'l) lock_system option" where
  "lock_step code i s =
     (if i \<ge> length (sy_pcs s) then None
      else case sy_pcs s ! i of
        Outside \<Rightarrow> map_option (\<lambda>sec. s\<lparr>sy_pcs := (sy_pcs s)[i := Spinning sec]\<rparr>) (code (sy_locals s ! i))
      | Spinning sec \<Rightarrow>
          (case lock_round (sy_lock s) of
             (got, l) \<Rightarrow> Some (s\<lparr>sy_lock := l, sy_pcs := (sy_pcs s)[i := if got then Inside sec else Spinning sec]\<rparr>))
      | Inside [] \<Rightarrow> Some (s\<lparr>sy_lock := unlock (sy_lock s), sy_pcs := (sy_pcs s)[i := Outside]\<rparr>)
      | Inside (a # as) \<Rightarrow>
          (case a (sy_shared s, sy_locals s ! i) of
             (x, l) \<Rightarrow> Some (s\<lparr>sy_shared := x, sy_locals := (sy_locals s)[i := l], sy_pcs := (sy_pcs s)[i := Inside as]\<rparr>)))"

inductive lock_reach :: "('s, 'l) sections \<Rightarrow> 's \<Rightarrow> 'l list \<Rightarrow> ('s, 'l) lock_system \<Rightarrow> bool" for code x ls where
  lock_start: "lock_reach code x ls (system_init x ls)"
| lock_next: "lock_reach code x ls s \<Longrightarrow> lock_step code i s = Some s' \<Longrightarrow> lock_reach code x ls s'"

fun lock_run :: "('s, 'l) sections \<Rightarrow> nat list \<Rightarrow> ('s, 'l) lock_system \<Rightarrow> ('s, 'l) lock_system option" where
  "lock_run code [] s = Some s"
| "lock_run code (i # is) s = Option.bind (lock_step code i s) (lock_run code is)"

section \<open>The specification: sections in one step\<close>

definition run_section :: "('s, 'l) access list \<Rightarrow> 's \<times> 'l \<Rightarrow> 's \<times> 'l" where
  "run_section sec = fold (\<lambda>a. a) sec"

definition section_step :: "('s, 'l) sections \<Rightarrow> nat \<Rightarrow> 's \<times> 'l list \<Rightarrow> ('s \<times> 'l list) option" where
  "section_step code i c =
     (if i \<ge> length (snd c) then None
      else map_option (\<lambda>sec. case run_section sec (fst c, snd c ! i) of (x, l) \<Rightarrow> (x, (snd c)[i := l])) (code (snd c ! i)))"

inductive section_reach :: "('s, 'l) sections \<Rightarrow> 's \<Rightarrow> 'l list \<Rightarrow> 's \<times> 'l list \<Rightarrow> bool" for code x ls where
  section_start: "section_reach code x ls (x, ls)"
| section_next: "section_reach code x ls c \<Longrightarrow> section_step code i c = Some c' \<Longrightarrow> section_reach code x ls c'"

section \<open>Simulation\<close>

fun is_inside :: "('s, 'l) lock_pc \<Rightarrow> bool" where
  "is_inside (Inside _) = True"
| "is_inside _ = False"

text \<open>
  The state \<open>c\<close> of the specification: with a thread inside, its section has not been run yet.
\<close>

definition lock_sim :: "('s, 'l) sections \<Rightarrow> ('s, 'l) lock_system \<Rightarrow> 's \<times> 'l list \<Rightarrow> bool" where
  "lock_sim code s c \<longleftrightarrow>
     length (sy_pcs s) = length (sy_locals s) \<and> length (snd c) = length (sy_locals s)
     \<and> (\<forall>i sec. i < length (sy_pcs s) \<longrightarrow> sy_pcs s ! i = Spinning sec \<longrightarrow> code (sy_locals s ! i) = Some sec)
     \<and> (if al_flag (sy_lock s)
        then \<exists>i rest made. i < length (sy_pcs s) \<and> sy_pcs s ! i = Inside rest
               \<and> (\<forall>j. j < length (sy_pcs s) \<longrightarrow> j \<noteq> i \<longrightarrow> \<not> is_inside (sy_pcs s ! j) \<and> snd c ! j = sy_locals s ! j)
               \<and> code (snd c ! i) = Some (made @ rest)
               \<and> run_section made (fst c, snd c ! i) = (sy_shared s, sy_locals s ! i)
        else c = (sy_shared s, sy_locals s) \<and> (\<forall>j. j < length (sy_pcs s) \<longrightarrow> \<not> is_inside (sy_pcs s ! j)))"

text \<open>What a thread inside its section is to the specification.\<close>

definition holder_sim :: "('s, 'l) sections \<Rightarrow> ('s, 'l) lock_system \<Rightarrow> 's \<times> 'l list \<Rightarrow> nat \<Rightarrow> ('s, 'l) access list \<Rightarrow> bool" where
  "holder_sim code s c i rest \<longleftrightarrow>
     al_flag (sy_lock s)
     \<and> (\<forall>j. j < length (sy_pcs s) \<longrightarrow> j \<noteq> i \<longrightarrow> \<not> is_inside (sy_pcs s ! j) \<and> snd c ! j = sy_locals s ! j)
     \<and> (\<exists>made. code (snd c ! i) = Some (made @ rest) \<and> run_section made (fst c, snd c ! i) = (sy_shared s, sy_locals s ! i))"

lemma lock_sim_holder:
  assumes "lock_sim code s c" and "i < length (sy_pcs s)" and "sy_pcs s ! i = Inside rest"
  shows "holder_sim code s c i rest"
proof -
  have "al_flag (sy_lock s)"
    using assms unfolding lock_sim_def by (cases "al_flag (sy_lock s)") force+
  then obtain i' rest' made where h: "i' < length (sy_pcs s)" "sy_pcs s ! i' = Inside rest'"
    "\<forall>j. j < length (sy_pcs s) \<longrightarrow> j \<noteq> i' \<longrightarrow> \<not> is_inside (sy_pcs s ! j) \<and> snd c ! j = sy_locals s ! j"
    "code (snd c ! i') = Some (made @ rest')" "run_section made (fst c, snd c ! i') = (sy_shared s, sy_locals s ! i')"
    using assms(1) unfolding lock_sim_def by (simp only: if_True) (elim exE conjE, rule that)
  have "i' = i" using h(3) assms(2,3) by force
  with h assms(3) \<open>al_flag (sy_lock s)\<close> show ?thesis unfolding holder_sim_def by auto
qed

lemma lock_simD:
  assumes "lock_sim code s c"
  shows "length (sy_pcs s) = length (sy_locals s)" and "length (snd c) = length (sy_locals s)"
    and "i < length (sy_pcs s) \<Longrightarrow> sy_pcs s ! i = Spinning sec \<Longrightarrow> code (sy_locals s ! i) = Some sec"
    and "\<not> al_flag (sy_lock s) \<Longrightarrow> c = (sy_shared s, sy_locals s)"
    and "\<not> al_flag (sy_lock s) \<Longrightarrow> j < length (sy_pcs s) \<Longrightarrow> \<not> is_inside (sy_pcs s ! j)"
  using assms unfolding lock_sim_def by (simp_all split: if_splits)

lemma holder_lock_sim:
  assumes "length (sy_pcs s) = length (sy_locals s)" and "length (snd c) = length (sy_locals s)"
    and "\<And>i sec. i < length (sy_pcs s) \<Longrightarrow> sy_pcs s ! i = Spinning sec \<Longrightarrow> code (sy_locals s ! i) = Some sec"
    and "i < length (sy_pcs s)" and "sy_pcs s ! i = Inside rest" and "holder_sim code s c i rest"
  shows "lock_sim code s c"
  using assms unfolding lock_sim_def holder_sim_def by auto

lemma run_section_append: "run_section (xs @ ys) p = run_section ys (run_section xs p)"
  by (simp add: run_section_def)

lemma free_lock_sim:
  assumes "length (sy_pcs s) = length (sy_locals s)" and "\<not> al_flag (sy_lock s)" and "c = (sy_shared s, sy_locals s)"
    and "\<And>i sec. i < length (sy_pcs s) \<Longrightarrow> sy_pcs s ! i = Spinning sec \<Longrightarrow> code (sy_locals s ! i) = Some sec"
    and "\<And>j. j < length (sy_pcs s) \<Longrightarrow> \<not> is_inside (sy_pcs s ! j)"
  shows "lock_sim code s c"
  using assms unfolding lock_sim_def by simp

lemma sim_come:
  assumes sim: "lock_sim code s c" and i: "i < length (sy_pcs s)" and pc: "sy_pcs s ! i = Outside" and code: "code (sy_locals s ! i) = Some sec"
  shows "lock_sim code (s\<lparr>sy_pcs := (sy_pcs s)[i := Spinning sec]\<rparr>) c"
proof (cases "al_flag (sy_lock s)")
  case False
  with lock_simD [OF sim] i code show ?thesis by (intro free_lock_sim) (auto simp: nth_list_update split: if_splits)
next
  case True
  then obtain h rest where h: "h < length (sy_pcs s)" "sy_pcs s ! h = Inside rest"
    using sim unfolding lock_sim_def by (simp only: if_True) (elim exE conjE, rule that)
  with lock_sim_holder [OF sim h] i have "holder_sim code (s\<lparr>sy_pcs := (sy_pcs s)[i := Spinning sec]\<rparr>) c h rest"
    unfolding holder_sim_def by (auto simp: nth_list_update split: if_splits)
  moreover have "h \<noteq> i" using h pc by auto
  ultimately show ?thesis
    using lock_simD [OF sim] i code h by (intro holder_lock_sim [of _ _ _ h rest]) (auto simp: nth_list_update split: if_splits)
qed

lemma sim_acquire:
  assumes sim: "lock_sim code s c" and i: "i < length (sy_pcs s)" and pc: "sy_pcs s ! i = Spinning sec" and free: "\<not> al_flag (sy_lock s)"
  shows "lock_sim code (s\<lparr>sy_lock := (sy_lock s)\<lparr>al_flag := True\<rparr>, sy_pcs := (sy_pcs s)[i := Inside sec]\<rparr>) c"
proof (rule holder_lock_sim [of _ _ _ i sec])
  note D = lock_simD [OF sim]
  show "holder_sim code (s\<lparr>sy_lock := (sy_lock s)\<lparr>al_flag := True\<rparr>, sy_pcs := (sy_pcs s)[i := Inside sec]\<rparr>) c i sec"
    using D(3) [OF i pc] D(4,5) [OF free] unfolding holder_sim_def
    by (auto simp: run_section_def intro!: exI [of _ "[]"])
qed (use lock_simD [OF sim] i in \<open>auto simp: nth_list_update split: if_splits\<close>)

lemma sim_access:
  assumes sim: "lock_sim code s c" and i: "i < length (sy_pcs s)" and pc: "sy_pcs s ! i = Inside (a # as)"
    and a: "a (sy_shared s, sy_locals s ! i) = (x, l)"
  shows "lock_sim code (s\<lparr>sy_shared := x, sy_locals := (sy_locals s)[i := l], sy_pcs := (sy_pcs s)[i := Inside as]\<rparr>) c"
proof (rule holder_lock_sim [of _ _ _ i as])
  note D = lock_simD [OF sim] and h = lock_sim_holder [OF sim i pc]
  obtain made where m: "code (snd c ! i) = Some (made @ a # as)"
    "run_section made (fst c, snd c ! i) = (sy_shared s, sy_locals s ! i)"
    using h unfolding holder_sim_def by blast
  have "run_section (made @ [a]) (fst c, snd c ! i) = (x, l)"
    using m(2) a by (simp add: run_section_append) (simp add: run_section_def)
  with m(1) h D(1) i show "holder_sim code (s\<lparr>sy_shared := x, sy_locals := (sy_locals s)[i := l], sy_pcs := (sy_pcs s)[i := Inside as]\<rparr>) c i as"
    unfolding holder_sim_def by (auto intro!: exI [of _ "made @ [a]"])
qed (use lock_simD [OF sim] i in \<open>auto simp: nth_list_update split: if_splits\<close>)

lemma sim_leave:
  assumes sim: "lock_sim code s c" and i: "i < length (sy_pcs s)" and pc: "sy_pcs s ! i = Inside []"
  shows "section_step code i c = Some (sy_shared s, sy_locals s)"
    and "lock_sim code (s\<lparr>sy_lock := unlock (sy_lock s), sy_pcs := (sy_pcs s)[i := Outside]\<rparr>) (sy_shared s, sy_locals s)"
proof -
  note D = lock_simD [OF sim] and h = lock_sim_holder [OF sim i pc]
  obtain made where m: "code (snd c ! i) = Some made" "run_section made (fst c, snd c ! i) = (sy_shared s, sy_locals s ! i)"
    using h unfolding holder_sim_def by auto
  have "(snd c)[i := sy_locals s ! i] = sy_locals s"
    by (rule nth_equalityI) (use D(1,2) h i in \<open>auto simp: holder_sim_def nth_list_update\<close>)
  with m i D(1,2) show "section_step code i c = Some (sy_shared s, sy_locals s)" by (simp add: section_step_def)
  show "lock_sim code (s\<lparr>sy_lock := unlock (sy_lock s), sy_pcs := (sy_pcs s)[i := Outside]\<rparr>) (sy_shared s, sy_locals s)"
    by (rule free_lock_sim)
      (use D(1,3) i h in \<open>auto simp: unlock_def holder_sim_def nth_list_update split: if_splits\<close>)
qed

lemma lock_step_sim:
  assumes sim: "lock_sim code s c" and reach: "section_reach code x ls c" and step: "lock_step code i s = Some s'"
  shows "\<exists>c'. section_reach code x ls c' \<and> lock_sim code s' c'"
proof -
  have i: "i < length (sy_pcs s)" using step by (auto simp: lock_step_def split: if_splits)
  show ?thesis
  proof (cases "sy_pcs s ! i")
    case Outside
    then obtain sec where "code (sy_locals s ! i) = Some sec" "s' = s\<lparr>sy_pcs := (sy_pcs s)[i := Spinning sec]\<rparr>"
      using step i by (auto simp: lock_step_def)
    with sim_come [OF sim i Outside] reach show ?thesis by blast
  next
    case (Spinning sec)
    show ?thesis
    proof (cases "al_flag (sy_lock s)")
      case True
      have "s' = s\<lparr>sy_lock := (sy_lock s)\<lparr>al_flag := True\<rparr>\<rparr>" using step Spinning True i list_update_id [of "sy_pcs s" i]
        by (simp add: lock_step_def lock_round_def test_and_set_def)
      moreover have "(sy_lock s)\<lparr>al_flag := True\<rparr> = sy_lock s" using True by simp
      ultimately have "s' = s\<lparr>sy_lock := sy_lock s\<rparr>" by (simp only:)
      then have "s' = s" by simp
      with sim reach show ?thesis by blast
    next
      case False
      then have "s' = s\<lparr>sy_lock := (sy_lock s)\<lparr>al_flag := True\<rparr>, sy_pcs := (sy_pcs s)[i := Inside sec]\<rparr>"
        using step i Spinning by (simp add: lock_step_def lock_round_def test_and_set_def)
      with sim_acquire [OF sim i Spinning False] reach show ?thesis by blast
    qed
  next
    case (Inside rest)
    show ?thesis
    proof (cases rest)
      case Nil
      then have "s' = s\<lparr>sy_lock := unlock (sy_lock s), sy_pcs := (sy_pcs s)[i := Outside]\<rparr>"
        using step i Inside by (simp add: lock_step_def)
      with sim_leave [OF sim i] section_next [OF reach] Inside Nil show ?thesis by metis
    next
      case (Cons a as)
      obtain y l where a: "a (sy_shared s, sy_locals s ! i) = (y, l)" by (metis surj_pair)
      then have "s' = s\<lparr>sy_shared := y, sy_locals := (sy_locals s)[i := l], sy_pcs := (sy_pcs s)[i := Inside as]\<rparr>"
        using step i Inside Cons by (simp add: lock_step_def)
      with sim_access [where a = a and as = as, OF sim i _ a] Inside Cons reach show ?thesis by blast
    qed
  qed
qed

lemma lock_reach_sim: "lock_reach code x ls s \<Longrightarrow> \<exists>c. section_reach code x ls c \<and> lock_sim code s c"
proof (induction rule: lock_reach.induct)
  case lock_start
  have "lock_sim code (system_init x ls) (x, ls)"
    by (rule free_lock_sim) (auto simp: system_init_def ATOMIC_FLAG_INIT_def)
  with section_start show ?case by (intro exI conjI)
next
  case (lock_next s i s')
  then show ?case using lock_step_sim by metis
qed

text \<open>A thread inside needs no other thread to get out.\<close>

lemma holder_leaves:
  "i < length (sy_pcs s) \<Longrightarrow> sy_pcs s ! i = Inside rest \<Longrightarrow>
     \<exists>s'. lock_run code (replicate (Suc (length rest)) i) s = Some s' \<and> \<not> al_flag (sy_lock s')"
proof (induction rest arbitrary: s)
  case Nil
  then show ?case by (simp add: lock_step_def unlock_def)
next
  case (Cons a as)
  obtain x l where a: "a (sy_shared s, sy_locals s ! i) = (x, l)" by (metis surj_pair)
  let ?s = "s\<lparr>sy_shared := x, sy_locals := (sy_locals s)[i := l], sy_pcs := (sy_pcs s)[i := Inside as]\<rparr>"
  have "lock_step code i s = Some ?s" using Cons.prems a by (simp add: lock_step_def)
  with Cons.IH [of ?s] Cons.prems show ?case by simp
qed

lemma lock_run_reach: "lock_reach code x ls s \<Longrightarrow> lock_run code is s = Some s' \<Longrightarrow> lock_reach code x ls s'"
  by (induction "is" arbitrary: s) (auto simp: bind_eq_Some_conv intro: lock_next)

text \<open>
  C33: the spin lock makes sections atomic. In every interleaving of threads that access the protected data only
  between \<^verbatim>\<open>lock\<close> and \<^verbatim>\<open>unlock\<close>, the flag is set exactly when one thread is inside, no two threads
  are inside together, and whenever the lock is free, the shared and local data are those of a run in which whole sections
  follow one another. A thread inside frees the lock by its own steps, one for each access left and one more.
\<close>

theorem locked_sections_atomic:
  assumes "lock_reach code x ls s"
  shows "(al_flag (sy_lock s) \<longleftrightarrow> (\<exists>i < length (sy_pcs s). is_inside (sy_pcs s ! i)))
    \<and> (\<forall>i j. i < length (sy_pcs s) \<longrightarrow> j < length (sy_pcs s) \<longrightarrow> is_inside (sy_pcs s ! i) \<longrightarrow> is_inside (sy_pcs s ! j) \<longrightarrow> i = j)
    \<and> (\<not> al_flag (sy_lock s) \<longrightarrow> section_reach code x ls (sy_shared s, sy_locals s))
    \<and> (\<forall>i rest. i < length (sy_pcs s) \<longrightarrow> sy_pcs s ! i = Inside rest \<longrightarrow>
        (\<exists>s'. lock_run code (replicate (Suc (length rest)) i) s = Some s' \<and> \<not> al_flag (sy_lock s')))"
proof -
  obtain c where c: "section_reach code x ls c" "lock_sim code s c" using lock_reach_sim [OF assms] by blast
  have h: "\<exists>i < length (sy_pcs s). is_inside (sy_pcs s ! i)" if "al_flag (sy_lock s)"
    using c(2) that unfolding lock_sim_def by (simp only: if_True) (metis is_inside.simps(1))
  have one: "al_flag (sy_lock s) \<and> (is_inside (sy_pcs s ! j) \<longrightarrow> i = j)"
    if i: "i < length (sy_pcs s)" and j: "j < length (sy_pcs s)" and ins: "is_inside (sy_pcs s ! i)" for i j
  proof -
    obtain rest where "sy_pcs s ! i = Inside rest" using ins by (cases "sy_pcs s ! i") auto
    from lock_sim_holder [OF c(2) i this] j show ?thesis unfolding holder_sim_def by blast
  qed
  have "section_reach code x ls (sy_shared s, sy_locals s)" if "\<not> al_flag (sy_lock s)"
    using lock_simD(4) [OF c(2) that] c(1) by simp
  with h one holder_leaves show ?thesis by blast
qed

text \<open>
  Two threads that each read a shared counter into a local variable and write it back incremented.
\<close>

definition counter_code :: "(nat, nat \<times> bool) sections" where
  "counter_code l = (if snd l then None else Some [\<lambda>(x, l). (x, (x, True)), \<lambda>(x, l). (Suc (fst l), l)])"

theorem locked_sections_atomic_witness:
  "\<exists>s. lock_run counter_code [0, 1, 0, 1, 0, 1, 0, 0, 1, 1, 1, 1] (system_init 0 [(0, False), (0, False)]) = Some s
     \<and> \<not> al_flag (sy_lock s) \<and> sy_shared s = 2
     \<and> section_reach counter_code 0 [(0, False), (0, False)] (sy_shared s, sy_locals s)"
proof -
  have "\<exists>s. lock_run counter_code [0, 1, 0, 1, 0, 1, 0, 0, 1, 1, 1, 1] (system_init 0 [(0, False), (0, False)]) = Some s
     \<and> \<not> al_flag (sy_lock s) \<and> sy_shared s = 2"
    by (simp add: lock_step_def system_init_def counter_code_def lock_round_def test_and_set_def ATOMIC_FLAG_INIT_def
        unlock_def numeral_2_eq_2)
  then obtain s where s: "lock_run counter_code [0, 1, 0, 1, 0, 1, 0, 0, 1, 1, 1, 1] (system_init 0 [(0, False), (0, False)]) = Some s"
    "\<not> al_flag (sy_lock s)" "sy_shared s = 2" by blast
  from locked_sections_atomic [OF lock_run_reach [OF lock_start s(1)]] s show ?thesis by blast
qed

end
