(* ===== verification/Buffer_View.thy ===== *)
theory Buffer_View
  imports Errors
begin

text \<open>
  The views of \<^verbatim>\<open>external/confmsg/confmsg/shared/buffer.h\<close>: a pointer with a length, which owns nothing. The rest of the development passes the
  bytes a view refers to; this theory says when that is right: as long as the memory under the view is what it was when the view was made.
\<close>

section \<open>Memory and views\<close>

text \<open>An address is a number, zero the null pointer; \<open>None\<close> is memory that must not be read.\<close>

type_synonym memory = "nat \<Rightarrow> byte option"

record Array =
  ar_p :: nat
  ar_n :: nat

definition Array_null :: Array where
  "Array_null = \<lparr>ar_p = 0, ar_n = 0\<rparr>"

definition Array_new :: "nat \<Rightarrow> nat \<Rightarrow> Array" where
  "Array_new p n = \<lparr>ar_p = p, ar_n = n\<rparr>"

text \<open>The elements are bytes in every use: \<^verbatim>\<open>sizeof(T)\<close> is one.\<close>

definition rawSize :: "Array \<Rightarrow> nat" where
  "rawSize a = ar_n a * 1"

text \<open>A string or a vector whose data are at \<open>p\<close>.\<close>

definition Array_of_vector :: "nat \<Rightarrow> bytes \<Rightarrow> Array" where
  "Array_of_vector p v = \<lparr>ar_p = p, ar_n = length v\<rparr>"

definition Array_eq :: "Array \<Rightarrow> Array \<Rightarrow> bool" where
  "Array_eq a that \<longleftrightarrow> ar_n that = ar_n a \<and> ar_p that = ar_p a"

definition Array_neq :: "Array \<Rightarrow> Array \<Rightarrow> bool" where
  "Array_neq a that \<longleftrightarrow> \<not> Array_eq a that"

fun read_range :: "memory \<Rightarrow> nat \<Rightarrow> nat \<Rightarrow> exn + bytes" where
  "read_range mem p 0 = Inr []"
| "read_range mem p (Suc n) =
     rbind (opt_or (Fault ''read of invalid memory'') (mem p)) (\<lambda>b. rbind (read_range mem (Suc p) n) (\<lambda>bs. Inr (b # bs)))"

definition Array_to_vector :: "memory \<Rightarrow> Array \<Rightarrow> exn + bytes" where
  "Array_to_vector mem a = read_range mem (ar_p a) (ar_n a)"

definition UntrustedArray_load :: "Array \<Rightarrow> Array" where
  "UntrustedArray_load a = a"

text \<open>\<^verbatim>\<open>asCb\<close>: the object representation of \<open>o\<close>, which is at \<open>p\<close>.\<close>

definition asCb :: "nat \<Rightarrow> bytes \<Rightarrow> Array" where
  "asCb p representation = \<lparr>ar_p = p, ar_n = length representation\<rparr>"

section \<open>What a view stands for\<close>

definition stored :: "memory \<Rightarrow> nat \<Rightarrow> bytes \<Rightarrow> bool" where
  "stored mem p v \<longleftrightarrow> (\<forall>i < length v. mem (p + i) = Some (v ! i))"

lemma stored_Cons: "stored mem p (b # v) \<longleftrightarrow> mem p = Some b \<and> stored mem (Suc p) v"
proof -
  have "(\<forall>i < Suc (length v). mem (p + i) = Some ((b # v) ! i))
      \<longleftrightarrow> mem p = Some b \<and> (\<forall>i < length v. mem (Suc p + i) = Some (v ! i))"
    by (subst all_simps [symmetric]) (auto simp: less_Suc_eq_0_disj)
  then show ?thesis by (simp add: stored_def)
qed

lemma read_range_stored: "read_range mem p n = Inr v \<longleftrightarrow> length v = n \<and> stored mem p v"
proof (induction n arbitrary: p v)
  case 0
  then show ?case by (auto simp: stored_def)
next
  case (Suc n)
  then show ?case by (cases v) (auto simp: rbind_Inr_iff opt_or_Inr_iff stored_Cons)
qed

text \<open>A view is read as the bytes it was made from exactly while they are still there.\<close>

lemma view_reads: "Array_to_vector mem (Array_of_vector p v) = Inr v \<longleftrightarrow> stored mem p v"
  by (simp add: Array_to_vector_def Array_of_vector_def read_range_stored)

lemma view_outlives_write:
  "stored mem p v \<Longrightarrow> q < p \<or> p + length v \<le> q \<Longrightarrow> Array_to_vector (mem(q := b)) (Array_of_vector p v) = Inr v"
  unfolding view_reads by (auto simp: stored_def)

lemma view_dangles:
  assumes "v \<noteq> []"
  shows "\<exists>e. Array_to_vector (mem(p := None)) (Array_of_vector p v) = Inl e"
  using assms by (cases v) (auto simp: Array_to_vector_def Array_of_vector_def)

text \<open>Comparison is identity: equal views have equal contents, but not the other way round.\<close>

lemma equal_views_read_the_same: "Array_eq a b \<Longrightarrow> Array_to_vector mem a = Array_to_vector mem b"
  by (simp add: Array_eq_def Array_to_vector_def)

lemma equal_bytes_unequal_views:
  "stored mem p v \<Longrightarrow> stored mem q v \<Longrightarrow> p \<noteq> q \<Longrightarrow>
     Array_to_vector mem (Array_of_vector p v) = Array_to_vector mem (Array_of_vector q v)
     \<and> Array_neq (Array_of_vector p v) (Array_of_vector q v)"
  using view_reads [of mem p v] view_reads [of mem q v] by (auto simp: Array_neq_def Array_eq_def Array_of_vector_def)

text \<open>The view of an empty vector with storage is not the null view.\<close>

lemma empty_is_not_null: "p \<noteq> 0 \<Longrightarrow> Array_neq (Array_of_vector p []) Array_null \<and> Array_to_vector mem (Array_of_vector p []) = Array_to_vector mem Array_null"
  by (simp add: Array_neq_def Array_eq_def Array_of_vector_def Array_null_def Array_to_vector_def)

end
