(* ===== verification/Runtime_Support.thy ===== *)
theory Runtime_Support
  imports Conf_Client Http_Client
begin

text \<open>
  What the enclave and the host are linked with besides their own code: the functions that Open Enclave declares but does not implement
  (\<^verbatim>\<open>external/patches/stubs_undefined.c\<close>, \<^verbatim>\<open>confmsg/server/evercrypt_exit.c\<close>), the properties the enclave is signed with by default
  (\<^verbatim>\<open>server/enclave/props.cc\<close>), and the global state of curl (\<^verbatim>\<open>server/shared/curl_helper.cc\<close>).
\<close>

section \<open>Stubs\<close>

text \<open>\<^verbatim>\<open>abort\<close> in an enclave, after what was printed.\<close>

type_synonym 'a stub = "exn + 'a"

abbreviation aborts :: "string \<Rightarrow> 'a stub" where
  "aborts message \<equiv> Inl (Fault message)"

definition isatty :: "int \<Rightarrow> int stub" where
  "isatty fd = Inr 0"

definition syslog :: "int \<Rightarrow> string \<Rightarrow> unit stub" where
  "syslog priority message = aborts (''FATAL: syslog() stub called, message:'' @ message)"

definition openlog :: "string \<Rightarrow> int \<Rightarrow> int \<Rightarrow> unit stub" where
  "openlog ident opt facility = aborts ''FATAL: openlog() stub called''"

definition closelog :: "unit stub" where
  "closelog = aborts ''FATAL: closelog() stub called''"

definition fcntl :: "int \<Rightarrow> int \<Rightarrow> int stub" where
  "fcntl fd cmd = aborts ''FATAL: fcntl() stub called''"

definition mbedtls_x509_crt_parse_file :: "string \<Rightarrow> int stub" where
  "mbedtls_x509_crt_parse_file path = aborts (''FATAL: mbedtls_x509_crt_parse_file() stub called, path:'' @ path)"

definition mbedtls_x509_crt_parse_path :: "string \<Rightarrow> int stub" where
  "mbedtls_x509_crt_parse_path path = aborts (''FATAL: mbedtls_x509_crt_parse_path() stub called, path:'' @ path)"

definition mbedtls_pk_parse_keyfile :: "string \<Rightarrow> string \<Rightarrow> int stub" where
  "mbedtls_pk_parse_keyfile path password = aborts (''FATAL: mbedtls_pk_parse_keyfile() stub called, path:'' @ path)"

definition mbedtls_x509_crl_parse_file :: "string \<Rightarrow> int stub" where
  "mbedtls_x509_crl_parse_file path = aborts (''FATAL: mbedtls_x509_crl_parse_file() stub called, path:'' @ path)"

text \<open>\<^verbatim>\<open>exit\<close> in the enclave ignores its status.\<close>

definition enclave_exit :: "int \<Rightarrow> unit stub" where
  "enclave_exit status = aborts ''exit''"

section \<open>Properties of the enclave\<close>

record enclave_properties =
  ep_ProductID :: nat
  ep_SecurityVersion :: nat
  ep_AllowDebug :: bool
  ep_HeapPageCount :: nat
  ep_StackPageCount :: nat
  ep_TCSCount :: nat

definition OE_SET_ENCLAVE_SGX :: enclave_properties where
  "OE_SET_ENCLAVE_SGX = \<lparr>ep_ProductID = 1, ep_SecurityVersion = 1, ep_AllowDebug = True,
     ep_HeapPageCount = 609600 div 10, ep_StackPageCount = 131072 div 10, ep_TCSCount = 8\<rparr>"

text \<open>The report of an enclave carries its properties; the product identifier is a little-endian byte string.\<close>

definition report_of_properties :: "libs \<Rightarrow> enclave_properties \<Rightarrow> bool \<Rightarrow> oe_report \<Rightarrow> bool" where
  "report_of_properties L p debug r \<longleftrightarrow>
     oe_product_id r \<noteq> [] \<and> oe_product_id r ! 0 = of_nat (ep_ProductID p) \<and> oe_security_version r = of_nat (ep_SecurityVersion p)
     \<and> (oe_attributes r AND OE_REPORT_ATTRIBUTES_DEBUG (l_oe L) \<noteq> 0 \<longleftrightarrow> debug) \<and> (debug \<longrightarrow> ep_AllowDebug p)"

text \<open>
  The default properties pass the client's checks of product and version; an enclave that runs in debug mode, which they allow, is accepted
  only by a client that allows it too.
\<close>

lemma default_properties_accepted:
  assumes "report_of_properties L OE_SET_ENCLAVE_SGX debug r"
  shows "Client_CheckIdentityFields L c r = Inr () \<longleftrightarrow> cl_allow_debug c \<or> \<not> debug"
  using assms
  by (cases "oe_product_id r") (auto simp: report_of_properties_def OE_SET_ENCLAVE_SGX_def Client_CheckIdentityFields_def)

section \<open>Global state of curl\<close>

record curl_state =
  verbose_curl :: bool
  curl_ssl_backend :: "string option"
  curl_initialized :: nat

definition CurlInit :: "bool \<Rightarrow> bool \<Rightarrow> curl_state \<Rightarrow> curl_state" where
  "CurlInit in_enclave verbose s =
     (let s1 = s\<lparr>verbose_curl := verbose\<rparr>;
          s2 = (if in_enclave then s1\<lparr>curl_ssl_backend := Some ''mbedtls''\<rparr> else s1)
      in s2\<lparr>curl_initialized := curl_initialized s2 + 1\<rparr>)"

definition CurlCleanup :: "curl_state \<Rightarrow> curl_state" where
  "CurlCleanup s = s\<lparr>curl_initialized := curl_initialized s - 1\<rparr>"

text \<open>\<open>r\<close> is what \<^verbatim>\<open>mbedtls_x509_crt_parse\<close> returns for the bundle of CA certificates.\<close>

definition CURLE_ABORTED_BY_CALLBACK :: int where "CURLE_ABORTED_BY_CALLBACK = 42"

definition sslctxfunc :: "int \<Rightarrow> int" where
  "sslctxfunc r = (if r \<noteq> 0 then CURLE_ABORTED_BY_CALLBACK else CURLE_OK)"

text \<open>Every initialisation is undone by one cleanup, and a request over TLS goes on only with all certificates parsed.\<close>

lemma CurlCleanup_CurlInit: "curl_initialized (CurlCleanup (CurlInit e v s)) = curl_initialized s"
  by (simp add: CurlInit_def CurlCleanup_def Let_def)

lemma sslctxfunc_ok: "sslctxfunc r = CURLE_OK \<longleftrightarrow> r = 0"
  by (simp add: sslctxfunc_def CURLE_OK_def CURLE_ABORTED_BY_CALLBACK_def)

end
