(* ===== verification/Spec2Isabelle.thy ===== *)
theory Spec2Isabelle
  imports Array_Session Model_Tools Buffer_Lifetime Thread_Progress Spin_Lock Buffer_View Runtime_Support
begin

text \<open>
  A verification of the confidential ONNX inference server.

  \<^bold>\<open>The program.\<close> A host process (\<^verbatim>\<open>src/confonnx/server/host\<close>) listens for HTTP requests and passes
  their bodies, unread, to an SGX enclave (\<^verbatim>\<open>src/confonnx/server/enclave\<close>). In the enclave a protocol server
  (\<^verbatim>\<open>src/external/confmsg\<close>) agrees on keys with clients, opens their requests, calls back into the enclave
  to provision the model key or to score, and seals the answers. The key of the server is local and random, or kept in an Azure
  key vault and synchronised between servers. A background thread of the host has the enclave roll the
  key over. Clients use the same library through a Python extension (\<^verbatim>\<open>src/confonnx/client/python\<close>); a
  tool (\<^verbatim>\<open>src/confonnx/tools\<close>) encrypts models.

  \<^bold>\<open>How code becomes definitions.\<close> A fallible function is a result \<open>exn + 'a\<close>, a function with state a
  computation \<open>'s \<Rightarrow> (exn + 'a) \<times> 's\<close> (\<open>comp\<close>, theory Prelude), where \<open>exn\<close> has one constructor per exception class and
  \<open>Fault\<close> for undefined behaviour such as a null pointer: a fault is never caught. Classes are records, their
  member functions are definitions with the name of the class in front, vectors are lists, bytes and counters are words of their
  width. Libraries are records of functions given as parameters; what a property needs of them is a
  named predicate in its assumptions (\<open>crypto_correct\<close>, \<open>fb_roundtrip\<close>, \<open>http_lib_ok\<close>, ...), and the
  theories Sample_Libs and Sample_Session instantiate them with concrete functions, so that every property with
  assumptions is applied once. Log and console output is left out.

  \<^bold>\<open>The theories, from the bottom up.\<close>
  \<^item> Prelude: bytes, vectors, results, computations and their rules; Errors: the exceptions, their texts and the status
    codes (\<^verbatim>\<open>exceptions.h\<close>, \<^verbatim>\<open>status.h\<close>); Text_Util: \<^verbatim>\<open>Trim\<close>, \<^verbatim>\<open>Split\<close> and the two
    hexadecimal codecs, both instances of the locale \<open>hex_codec\<close>.
  \<^item> Crypto: the wrappers of \<^verbatim>\<open>shared/crypto.cc\<close> and the IV counter; Key_Provider: the base class and the local
    providers of \<^verbatim>\<open>keyprovider.h\<close>, with the contract of a provider as the locales \<open>key_provider_contract\<close> and
    \<open>curve_key_provider\<close>, interpreted for all five providers; Protocol: the messages.
  \<^item> Conf_Server and Conf_Client: every member function of the two ends; Conf_Session: an honest exchange between them;
    Client_Binding: the functions of the Python extension and all sequences of calls to them; Buffer_View: the pointer and
    length pairs of \<^verbatim>\<open>buffer.h\<close> in front of a memory of bytes.
  \<^item> Http_Client: requests through libcurl, OAuth tokens and challenges; Key_Vault: the two vault providers.
  \<^item> Tensor: conversion between protobuf tensors and values (\<^verbatim>\<open>tensorprotoutils.cc\<close>, \<^verbatim>\<open>converter.cc\<close>), on a
    little-endian machine; Executor: prediction; Buffer_Lifetime: the memory a prediction takes and frees; Environment: the model and the encryption tool.
  \<^item> Enclave: the entry points of \<^verbatim>\<open>enclave.cc\<close>; Enclave_Session: a client against the entry points.
  \<^item> Host_Http: JSON errors, routes, sessions, listener and request handler, with the locales \<open>enclave_backend\<close>, what the handler
    needs of the enclave object, and \<open>total_routes\<close>, what a session needs of its routes; Host_Config: options; Host_Enclave: the enclave
    object and its refresh thread as a step relation; Host_Main: \<^verbatim>\<open>main\<close> and what an HTTP client observes.
  \<^item> Python_Client: the class \<^verbatim>\<open>Client\<close> of the Python package on serialised requests; End_To_End: that class on a network
    that leads to the host's HTTP session and through it to the enclave; Numpy_Helper: the conversion between numpy arrays and protobuf
    tensors (\<^verbatim>\<open>numpy_helper.py\<close>, \<^verbatim>\<open>mapping.py\<close>) and \<^verbatim>\<open>predict\<close> on arrays; Array_Session: a prediction on arrays, end to end;
    Model_Tools: \<^verbatim>\<open>encrypt_model.py\<close>, \<^verbatim>\<open>hash_model.py\<close> and the arguments of \<^verbatim>\<open>main.py\<close>.
  \<^item> Threading: the pthread hooks of the enclave and the host calls behind them, as interleavings of their locked sections;
    Thread_Progress: when these interleavings come to an end; Spin_Lock: the lock, and why a locked section may be taken as
    one step.
  \<^item> Runtime_Support: the functions linked in place of missing libc and mbedtls functions, the enclave's properties, and the set-up of
    libcurl.

  \<^bold>\<open>What is shown.\<close> Of the protocol: an exchange delivers the callback's answer; an accepted server is attested;
  the callback sees authentic plaintexts only; request IVs do not repeat; handed out public keys belong to the current key; what
  happens to clients across one and two rollovers; that responses reuse their IV and key versions wrap; that the client object
  is well formed after every sequence of calls; and that \<^verbatim>\<open>predict\<close> of the Python client yields the model's answer through
  HTTP, host and enclave, also after its key has been retired, and never yields anything a verified server did not seal, and that on
  arrays it yields those of the model's outputs. Of the HTTP client: which transfers it starts, and where the credentials go. Of the vault
  providers: a refresh is atomic, HSM keys are clamped, a lost secret drops the current key. Of inference: tensors
  survive a round trip, input never overruns its buffer, a prediction answers every output once, its buffers are freed but long strings
  leak, arrays of the client survive the way to the server and back, half precision in typed fields does not, and two corner
  cases where the conversion goes wrong. Of the enclave: an encrypted model opens under its key and then
  scores (the Python tool encrypts as the C++ tool does), goes away only when the enclave is told to destroy it, rollover happens exactly when due, and two ways in which an early or failed call leaves
  the service unusable. Of the host: HTTP answers agree with a table of routes, unauthorized requests
  do not reach the enclave, sessions answer in order, the configuration, the start of the process, and when the refresh thread
  lives, stops or takes the process down. Of the threads: every function is started once, but perhaps in
  the wrong thread, only four threads have room for their arguments, every creation comes to an end unless the new thread
  detaches itself first, and sections under the spin lock are atomic.

  \<^bold>\<open>Bounds and fuel.\<close> No definition of the model uses fuel: loops are recursive functions on their data with termination
  proofs, and the endless loops (I/O loop, refresh thread, waiting for a thread) are step relations. Output buffers have the
  sizes of the code where it fixes them (10 MiB in the host, 10 MiB and 100 KiB in the Python extension); properties that need a message to
  fit say so, as a size from which on they hold. The IV property holds up to 2^96 requests, the number of IVs.

  \<^bold>\<open>Not modelled.\<close> Generated code (flatbuffers, protobuf, the calls from the EDL file): parameters with round-trip
  assumptions. EverCrypt, mbedtls, libcurl, nlohmann-json, libskr, ONNX Runtime, Boost, RE2, pybind11 and the
  Open Enclave SDK, and the requests, numpy, hashlib and Crypto packages of Python: parameters. Loggers and console output are left out; the
  bundle of CA certificates, most lines of the repository, is a string constant without logic. Data races on unlocked
  variables are modelled only where the order of the accesses decides a property (Threading). Of the command line client
  \<^verbatim>\<open>main.py\<close> the reading and writing of tensor and JSON files is left out; the scripts that describe a model or create test inputs
  only call the onnx package. The branch for big-endian machines is not compiled on the platform of the enclave. The tests are left out.
\<close>

section \<open>The protocol end to end\<close>

text \<open>
  C1: a client that asks an accepted server for its key and then sends a request gets back
  exactly what the server's callback answers to its plaintext, marked as not outdated, for every
  key provider, every callback and every buffer size from some size on. Neither the server's
  state nor the plaintext is changed on the way.
\<close>

theorem session_roundtrip:
  assumes "linked Lc Ls" and "client_ready Lc c" and "server_keyed Ls s"
    and "length (current_key (srv_key_provider s)) = KEY_SIZE" and "client_accepts Lc c s"
    and "f p w = (Inr answer, w')"
  shows "\<exists>c' N. \<forall>n\<ge>N.
    cthen (key_exchange Lc Ls D f n) (request_exchange Lc Ls D f p n) (c, s, w)
      = (Inr (Result_Response answer False), (c', s, w'))"
proof -
  from key_exchange_ok [OF assms(1-5), of D f w] obtain c1 N1 where
    1: "\<forall>n\<ge>N1. key_exchange Lc Ls D f n (c, s, w) = (Inr Result_KeyResponse, (c1, s, w))"
    and c1: "client_ready Lc c1"
      "client_keyed Lc c1 (current_key (srv_key_provider s)) (current_key_version (srv_key_provider s))" by blast
  have "\<exists>c' N. \<forall>n\<ge>N. request_exchange Lc Ls D f p n (c1, s, w) = (Inr (Result_Response answer False), (c', s, w'))"
    by (rule request_exchange_ok [where f = f and p = p and w = w, OF assms(1) c1 _ assms(4) _ _ assms(6)]) (simp_all add: GetKey_def IsKeyOutdated_def)
  then obtain c' N2 where
    2: "\<forall>n\<ge>N2. request_exchange Lc Ls D f p n (c1, s, w) = (Inr (Result_Response answer False), (c', s, w'))" by blast
  have "\<forall>n\<ge>max N1 N2. cthen (key_exchange Lc Ls D f n) (request_exchange Lc Ls D f p n) (c, s, w)
      = (Inr (Result_Response answer False), (c', s, w'))"
    using 1 2 by (simp add: cthen_def cbind_def)
  then show ?thesis by blast
qed

theorem session_roundtrip_witness:
  "\<exists>c' N. \<forall>n\<ge>N.
    cthen (key_exchange sample_host_libs sample_enclave_libs StaticKeyProvider_DoRefreshKey
             (\<lambda>q w. (Inr (rev q), w)) n)
          (request_exchange sample_host_libs sample_enclave_libs StaticKeyProvider_DoRefreshKey
             (\<lambda>q w. (Inr (rev q), w)) [1, 2, 3] n)
       (sample_client, sample_server 4, sample_world)
      = (Inr (Result_Response [3, 2, 1] False), (c', sample_server 4, sample_world))"
  by (rule session_roundtrip [OF sample_linked sample_client_ready sample_server_keyed _ sample_client_accepts])
     (simp_all add: sample_server_key KEY_SIZE_def)

text \<open>
  C23: after one key refresh of the random Ed25519 provider a client that still uses the old
  key is served as before, and the response says that its key is outdated. The version must not
  be the largest 32-bit number.
\<close>

theorem rolled_over_key_still_served:
  assumes "linked Lc Ls" and "client_ready Lc c"
    and k: "client_keyed Lc c (current_key (srv_key_provider s)) (current_key_version (srv_key_provider s))"
    and inv: "ed25519_inv (srv_key_provider s)" and v: "current_key_version (srv_key_provider s) \<noteq> - 1"
    and r: "Server_RefreshKey Ls RandomEd25519KeyProvider_DoRefreshKey False (s, w) = (Inr b, (s1, w1))"
    and "f p w1 = (Inr answer, w2)"
  shows "\<exists>c' N. \<forall>n\<ge>N. request_exchange Lc Ls RandomEd25519KeyProvider_DoRefreshKey f p n (c, s1, w1)
    = (Inr (Result_Response answer True), (c', s1, w2))"
proof -
  note s1 = Server_RefreshKey_ed25519 [OF inv r]
  have ne: "current_key_version (srv_key_provider s1) \<noteq> current_key_version (srv_key_provider s)"
    using s1(3) word32_incr(1) by simp
  show ?thesis
  proof (rule request_exchange_ok [where f = f and p = p and w = w1, OF assms(1,2) k _ _ _ _ assms(7)])
    show "GetKey (srv_key_provider s1) (current_key_version (srv_key_provider s)) = Inr (current_key (srv_key_provider s))"
      using s1 ne by (simp add: GetKey_def)
    show "IsKeyOutdated (srv_key_provider s1) (current_key_version (srv_key_provider s)) = Inr True"
      using s1 ne by (simp add: IsKeyOutdated_def)
    show "length (current_key (srv_key_provider s)) = KEY_SIZE"
      using ed25519_kp.inv_sized [OF inv] by simp
    show "\<not> current_key_version (srv_key_provider s1) < current_key_version (srv_key_provider s)"
      using s1(3) word32_incr_greater [OF v] by simp
  qed
qed


theorem rolled_over_key_still_served_witness:
  "\<exists>b s1 w1. Server_RefreshKey sample_enclave_libs RandomEd25519KeyProvider_DoRefreshKey False
       (sample_server 4, sample_world) = (Inr b, (s1, w1))
   \<and> (\<exists>c' N. \<forall>n\<ge>N. request_exchange sample_host_libs sample_enclave_libs RandomEd25519KeyProvider_DoRefreshKey
         (\<lambda>q w. (Inr (rev q), w)) [1, 2, 3] n (sample_keyed_client 4, s1, w1)
       = (Inr (Result_Response [3, 2, 1] True), (c', s1, w1)))"
proof -
  obtain b s1 w1 where r: "Server_RefreshKey sample_enclave_libs RandomEd25519KeyProvider_DoRefreshKey False
       (sample_server 4, sample_world) = (Inr b, (s1, w1))"
    using Server_RefreshKey_ed25519_succeeds [OF _ sample_server_inv, of sample_enclave_libs 4 sample_world]
    by (auto simp: sample_oe_def)
  show ?thesis
    using rolled_over_key_still_served [OF sample_linked sample_keyed_client_ready _ sample_server_inv _ r,
        of 4 "\<lambda>q w. (Inr (rev q), w)" "[1, 2, 3]" "[3, 2, 1]" w1] r
    by (auto simp: sample_server_key sample_client_keyed)
qed

text \<open>
  C24: after two refreshes the old key is gone: the server refuses the request with an
  error before the callback runs, and keeps its state.
\<close>

theorem retired_key_refused:
  assumes L: "linked Lc Ls" and c: "client_ready Lc c"
      "client_keyed Lc c (current_key (srv_key_provider s)) (current_key_version (srv_key_provider s))"
    and inv: "ed25519_inv (srv_key_provider s)"
    and v: "current_key_version (srv_key_provider s) \<noteq> - 1" "current_key_version (srv_key_provider s) \<noteq> - 2"
    and r1: "Server_RefreshKey Ls RandomEd25519KeyProvider_DoRefreshKey False (s, w) = (Inr b1, (s1, w1))"
    and r2: "Server_RefreshKey Ls RandomEd25519KeyProvider_DoRefreshKey False (s1, w1') = (Inr b2, (s2, w2))"
    and m: "Client_MakeRequest Lc p m c = (Inr msg, c')"
  shows "Server_RespondToMessage Ls RandomEd25519KeyProvider_DoRefreshKey f msg n (s2, w2)
    = (Inl (CryptoError ''key with specified version not found''), (s2, w2))"
proof -
  note l = linkedD [OF L]
  let ?v = "current_key_version (srv_key_provider s)"
  note s1 = Server_RefreshKey_ed25519 [OF inv r1]
  note s2 = Server_RefreshKey_ed25519 [OF s1(4) r2]
  have C: "crypto_lengths (l_crypto Lc)" "aead_correct (l_crypto Lc)" using l by simp_all
  have "?v + 1 \<noteq> - 1"
    using v(2) by (simp only: eq_neg_iff_add_eq_0 add.assoc one_add_one not_False_eq_True)
  then have v2: "?v < ?v + 1" "?v + 1 < ?v + 1 + 1"
    using v(1) by (rule_tac [!] word32_incr_greater)
  have "GetKey (srv_key_provider s2) ?v = Inl (CryptoError ''key with specified version not found'')"
    using s1(3) s2(2,3) word32_incr [of ?v] by (simp add: GetKey_def)
  note open_ = Server_OpenRequest_no_key [OF C c this, of Ls p]
  have "msg = fb_encode (l_fb Ls) \<lparr>msg_version = Version_v1, msg_body = Body_Request (Some (client_request Lc c p))\<rparr>"
    using m by (auto simp: Client_MakeRequest_def Client_SealRequest_ok [OF C c] cbind_Inr_iff WriteMessage_Inr_iff l(2))
  moreover have "req_key_version (client_request Lc c p) = ?v"
    using c(2) by (simp add: client_request_def client_keyed_def Let_def)
  moreover have "\<not> ?v > current_key_version (srv_key_provider s2)"
    using v2 s1(3) s2(3) by (metis less_trans order_less_not_sym)
  ultimately show ?thesis
    by (simp add: Server_RespondToMessage_def l(8) Server_HandleRequest_def Server_SyncForClient_def cbind_def
        cthen_def open_)
qed

theorem retired_key_refused_witness:
  "\<exists>b1 s1 w1 b2 s2 w2 msg c'. Server_RefreshKey sample_enclave_libs RandomEd25519KeyProvider_DoRefreshKey False
       (sample_server 4, sample_world) = (Inr b1, (s1, w1))
   \<and> Server_RefreshKey sample_enclave_libs RandomEd25519KeyProvider_DoRefreshKey False (s1, w1) = (Inr b2, (s2, w2))
   \<and> (\<exists>m. Client_MakeRequest sample_host_libs [1, 2, 3] m (sample_keyed_client 4) = (Inr msg, c'))
   \<and> Server_RespondToMessage sample_enclave_libs RandomEd25519KeyProvider_DoRefreshKey
       (\<lambda>q w. (Inr q, w)) msg 100000 (s2, w2)
     = (Inl (CryptoError ''key with specified version not found''), (s2, w2))"
proof -
  have q: "\<exists>q. oe_get_report (l_oe sample_enclave_libs) h = Inr q" for h by (simp add: sample_oe_def)
  have C: "crypto_lengths (l_crypto sample_enclave_libs)" by simp
  obtain s1 w1 where r1: "Server_RefreshKey sample_enclave_libs RandomEd25519KeyProvider_DoRefreshKey False
       (sample_server 4, sample_world) = (Inr True, (s1, w1))"
    using Server_RefreshKey_ed25519_succeeds [OF C sample_server_inv q] by blast
  note i1 = Server_RefreshKey_ed25519(4) [OF sample_server_inv r1]
  obtain s2 w2 where r2: "Server_RefreshKey sample_enclave_libs RandomEd25519KeyProvider_DoRefreshKey False
       (s1, w1) = (Inr True, (s2, w2))"
    using Server_RefreshKey_ed25519_succeeds [OF C i1 q] by blast
  have A: "aead_correct (l_crypto sample_host_libs)"
    using sample_crypto_correct by (simp add: crypto_correct_def)
  obtain m msg c' where m: "Client_MakeRequest sample_host_libs [1, 2, 3] m (sample_keyed_client 4) = (Inr msg, c')"
    using Client_MakeRequest_ok [OF _ A sample_keyed_client_ready sample_client_keyed] by fastforce
  have "Server_RespondToMessage sample_enclave_libs RandomEd25519KeyProvider_DoRefreshKey
       (\<lambda>q w. (Inr q, w)) msg 100000 (s2, w2)
     = (Inl (CryptoError ''key with specified version not found''), (s2, w2))"
    by (rule retired_key_refused [OF sample_linked sample_keyed_client_ready _ sample_server_inv _ _ r1 r2 m])
       (simp_all add: sample_server_key sample_client_keyed)
  with r1 r2 m show ?thesis by blast
qed

text \<open>
  The version counter wraps. A client with the version 2^32 - 1 is refused after a single
  refresh, although the server still holds its key as the previous one: the version of the
  client is compared as an unsigned number and looks newer than the server's new version 0.
\<close>

theorem key_version_wraparound_locks_out:
  assumes L: "linked Lc Ls" and c: "client_ready Lc c" "client_keyed Lc c key (- 1)"
    and v: "current_key_version (srv_key_provider s) = - 1" and inv: "ed25519_inv (srv_key_provider s)"
    and r: "Server_RefreshKey Ls RandomEd25519KeyProvider_DoRefreshKey False (s, w) = (Inr b, (s1, w1))"
    and m: "Client_MakeRequest Lc p m c = (Inr msg, c')"
  shows "Server_RespondToMessage Ls RandomEd25519KeyProvider_DoRefreshKey f msg n (s1, w1)
    = (Inl (CryptoError ''key still older than client key version after refresh''), (s1, w1))"
proof -
  note l = linkedD [OF L]
  note s1 = Server_RefreshKey_ed25519 [OF inv r]
  have C: "crypto_lengths (l_crypto Lc)" "aead_correct (l_crypto Lc)" using l by simp_all
  have "msg = fb_encode (l_fb Ls) \<lparr>msg_version = Version_v1, msg_body = Body_Request (Some (client_request Lc c p))\<rparr>"
    using m by (auto simp: Client_MakeRequest_def Client_SealRequest_ok [OF C c] cbind_Inr_iff WriteMessage_Inr_iff l(2))
  moreover have "req_key_version (client_request Lc c p) = - 1"
    using c(2) by (simp add: client_request_def client_keyed_def Let_def)
  moreover have "current_key_version (srv_key_provider s1) = 0" using s1(3) v by simp
  moreover have "(0 :: u32) < - 1" by (simp add: word_neq_0_conv [symmetric])
  ultimately show ?thesis
    by (simp add: Server_RespondToMessage_def l(8) Server_HandleRequest_def Server_SyncForClient_def
        Server_RefreshKey_def KeyProvider_RefreshKey_def RandomEd25519KeyProvider_DoRefreshKey_def cbind_def
        cthen_def on_provider_eq)
qed

theorem key_version_wraparound_locks_out_witness:
  "\<exists>s1 w1 msg c'. Server_RefreshKey sample_enclave_libs RandomEd25519KeyProvider_DoRefreshKey False
       (sample_server (- 1), sample_world) = (Inr True, (s1, w1))
   \<and> (\<exists>m. Client_MakeRequest sample_host_libs [1, 2, 3] m (sample_keyed_client (- 1)) = (Inr msg, c'))
   \<and> Server_RespondToMessage sample_enclave_libs RandomEd25519KeyProvider_DoRefreshKey
       (\<lambda>q w. (Inr q, w)) msg 100000 (s1, w1)
     = (Inl (CryptoError ''key still older than client key version after refresh''), (s1, w1))"
proof -
  have q: "\<exists>q. oe_get_report (l_oe sample_enclave_libs) h = Inr q" for h by (simp add: sample_oe_def)
  have C: "crypto_lengths (l_crypto sample_enclave_libs)" by simp
  obtain s1 w1 where r1: "Server_RefreshKey sample_enclave_libs RandomEd25519KeyProvider_DoRefreshKey False
       (sample_server (- 1), sample_world) = (Inr True, (s1, w1))"
    using Server_RefreshKey_ed25519_succeeds [OF C sample_server_inv q] by blast
  have A: "aead_correct (l_crypto sample_host_libs)"
    using sample_crypto_correct by (simp add: crypto_correct_def)
  obtain m msg c' where m: "Client_MakeRequest sample_host_libs [1, 2, 3] m (sample_keyed_client (- 1)) = (Inr msg, c')"
    using Client_MakeRequest_ok [OF _ A sample_keyed_client_ready sample_client_keyed] by fastforce
  have "Server_RespondToMessage sample_enclave_libs RandomEd25519KeyProvider_DoRefreshKey
       (\<lambda>q w. (Inr q, w)) msg 100000 (s1, w1)
     = (Inl (CryptoError ''key still older than client key version after refresh''), (s1, w1))"
    by (rule key_version_wraparound_locks_out [OF sample_linked sample_keyed_client_ready sample_client_keyed _
          sample_server_inv r1 m]) (simp add: sample_server_key)
  with r1 m show ?thesis by blast
qed

text \<open>
  C2: a client that expects an enclave hash or a signing key accepts a key response only if
  the response carries a quote that Open Enclave verifies, whose report has the expected hash, the
  expected signer, product 1, a security version of at least 1 and no debug flag unless debugging
  is allowed, and whose report data is the hash of the server's public key and service identifier.
  The keys it then uses are derived from exactly that attested public key, and an expected service
  identifier is the attested one.
\<close>

theorem accepted_server_is_attested:
  assumes "crypto_lengths (l_crypto L)"
    and "cl_expected_enclave_hash c \<noteq> [] \<or> cl_expected_enclave_signing_key_pem c \<noteq> []"
    and "Client_HandleKeyResponse L r c = (Inr res, c')"
  shows "HAVE_OE_HOST_VERIFY L \<and>
    (\<exists>auth e quote collateral report spublic sid secret.
        kres_authenticator r = Some auth \<and> e \<in> set auth \<and> ev_type e = EvidenceType_Quote \<and> ev_contents e = Some quote
      \<and> oe_verify_remote_report (l_oe L) quote collateral = Some report
      \<and> report_acceptable L c report spublic sid
      \<and> (cl_expected_service_identifier c \<noteq> [] \<longrightarrow> sid = cl_expected_service_identifier c)
      \<and> ComputeSharedSecretCurve25519 (l_crypto L) (current_key (cl_key_provider c)) spublic [] = Inr secret
      \<and> cl_out_symmetric_key c' = derived_key (l_crypto L) False secret
      \<and> cl_in_symmetric_key c' = derived_key (l_crypto L) True secret)"
proof -
  obtain spublic nonce where v: "Client_VerifyKeyResponse L c r = Inr (spublic, nonce)"
    using assms(3) by (auto simp: Client_HandleKeyResponse_def cbind_Inr_iff)
  then obtain sid auth quote collateral where
    a: "kres_authenticator r = Some auth" "Client_CollectEvidence auth None None = Inr (quote, collateral)"
    and ce: "Client_CheckEvidence L c quote collateral spublic sid = Inr ()"
    and cs: "Client_CheckServiceIdentifier c sid = Inr ()"
    by (auto simp: Client_VerifyKeyResponse_def rbind_Inr_iff deref_Inr_iff split: if_splits)
  obtain q where q: "quote = Some q" and vq: "HAVE_OE_HOST_VERIFY L"
      "Client_VerifyQuote L c q (case collateral of None \<Rightarrow> [] | Some d \<Rightarrow> d) spublic sid = Inr ()"
    using ce assms(2) by (cases quote) (auto simp: Client_CheckEvidence_def Let_def split: if_splits)
  obtain e where e: "e \<in> set auth" "ev_type e = EvidenceType_Quote" "ev_contents e = Some q"
    using Client_CollectEvidence_sound [OF a(2) q] by auto
  have sid: "cl_expected_service_identifier c \<noteq> [] \<longrightarrow> sid = cl_expected_service_identifier c"
    using cs by (auto simp: Client_CheckServiceIdentifier_def Let_def ids_mismatch_iff split: if_splits)
  obtain secret where s: "ComputeSharedSecretCurve25519 (l_crypto L) (current_key (cl_key_provider c)) spublic [] = Inr secret"
    using assms(3) v by (auto simp: Client_HandleKeyResponse_def cbind_Inr_iff cthen_Inr_iff)
  have "length secret = KEY_SIZE"
    using s assms(1) by (auto simp: ComputeSharedSecretCurve25519_def rbind_Inr_iff crypto_lengths_def
        split: if_splits dest: write_to_length)
  then have "cl_out_symmetric_key c' = derived_key (l_crypto L) False secret
      \<and> cl_in_symmetric_key c' = derived_key (l_crypto L) True secret"
    using assms(3) v s DeriveSymmetricKey_ok [OF assms(1)]
    by (auto simp: Client_HandleKeyResponse_def cbind_Inr_iff cthen_Inr_iff)
  with Client_VerifyQuote_sound [OF assms(1) vq(2)] a(1) e sid s vq(1) show ?thesis by blast
qed


theorem accepted_server_is_attested_witness:
  "\<exists>c'. Client_HandleKeyResponse sample_host_libs
        (server_key_response sample_enclave_libs (sample_server 4) (cl_nonce sample_client)) sample_client
      = (Inr Result_KeyResponse, c')
   \<and> (\<exists>e quote collateral report spublic sid.
        e \<in> set (map evidence_fb (srv_evidence (sample_server 4))) \<and> ev_contents e = Some quote
      \<and> oe_verify_remote_report sample_oe quote collateral = Some report
      \<and> report_acceptable sample_host_libs sample_client report spublic sid)"
proof -
  note l = linkedD [OF sample_linked]
  have k: "length (current_key (srv_key_provider (sample_server 4))) = KEY_SIZE"
    by (simp add: sample_server_key KEY_SIZE_def)
  have v: "Client_VerifyKeyResponse sample_host_libs sample_client
       (server_key_response sample_enclave_libs (sample_server 4) (cl_nonce sample_client))
     = Inr (EverCrypt_Curve25519_secret_to_public (l_crypto sample_host_libs)
              (current_key (srv_key_provider (sample_server 4))), Some (srv_nonce (sample_server 4)))"
    using Client_VerifyKeyResponse_honest [OF l(3,6,1) k sample_server_keyed sample_client_accepts]
      sample_server_keyed [of 4] by (simp add: server_keyed_def)
  obtain c' where h: "Client_HandleKeyResponse sample_host_libs
        (server_key_response sample_enclave_libs (sample_server 4) (cl_nonce sample_client)) sample_client
      = (Inr Result_KeyResponse, c')"
    using Client_HandleKeyResponse_ok [OF _ _ sample_client_ready k v] l by auto
  have "cl_expected_enclave_hash sample_client \<noteq> []" by (simp add: sample_client_def)
  then show ?thesis
    using accepted_server_is_attested [OF _ _ h] h by (fastforce simp: server_key_response_def)
qed

text \<open>
  C8: no two requests of a client are encrypted under the same IV, for up to 2^96 requests under one session key and whichever of
  them fail on the way. The IV is the one that \<^verbatim>\<open>Encrypt\<close> is given for the ciphertext of the message, and the one that the server computes
  from the message. A request that is encrypted but does not fit its buffer does not leave the client, and its IV is used for the next.
\<close>

theorem request_ivs_never_repeat:
  assumes "fb_roundtrip (l_fb L)" and "length (cl_static_iv c) = IV_SIZE" and "length (cl_dynamic_iv c) = IV_SIZE"
    and "length ps \<le> 2 ^ 96"
  shows "\<exists>ivs. distinct ivs \<and> list_all2 (sealed_under L c) (client_requests L n ps c) ivs"
proof -
  let ?x = "map2 (XOR) (cl_static_iv c)"
  obtain dyn where d: "list_all2 (\<lambda>q d. sealed_under L c q (?x d)) (client_requests L n ps c) dyn" "length dyn \<le> length ps"
    and v: "\<And>i. i < length dyn \<Longrightarrow> length (dyn ! i) = IV_SIZE
          \<and> be_value (dyn ! i) = (be_value (cl_dynamic_iv c) + i) mod 2 ^ 96"
    using client_requests_sealed [OF assms(1-3), of n ps] by blast
  have ne: "dyn ! i \<noteq> dyn ! j" if "i < j" "j < length dyn" for i j
  proof
    assume "dyn ! i = dyn ! j"
    then have "(be_value (cl_dynamic_iv c) + i) mod 2 ^ 96 = (be_value (cl_dynamic_iv c) + j) mod 2 ^ 96"
      using v that by (metis less_trans)
    then have "2 ^ 96 dvd j - i"
      using mod_eq_dvd_iff_nat [of "be_value (cl_dynamic_iv c) + i" "be_value (cl_dynamic_iv c) + j" "2 ^ 96"] that
      by simp
    moreover have "j < 2 ^ 96" using that d(2) assms(4) by linarith
    ultimately show False using that dvd_imp_le [of "2 ^ 96" "j - i"] by linarith
  qed
  have "distinct dyn" by (metis distinct_conv_nth ne nat_neq_iff)
  moreover have "inj_on ?x (set dyn)"
    using map2_xor_inj assms(2) v by (intro inj_onI) (metis in_set_conv_nth)
  ultimately have "distinct (map ?x dyn)" by (simp add: distinct_map)
  moreover have "list_all2 (sealed_under L c) (client_requests L n ps c) (map ?x dyn)" using d(1) by (simp add: list_all2_map2)
  ultimately show ?thesis by blast
qed

theorem request_ivs_never_repeat_witness:
  "\<exists>n ivs. map fst (client_requests sample_host_libs n [[1], [2], [3]] (sample_keyed_client 4)) = [[1], [2], [3]]
     \<and> distinct ivs
     \<and> list_all2 (sealed_under sample_host_libs (sample_keyed_client 4))
         (client_requests sample_host_libs n [[1], [2], [3]] (sample_keyed_client 4)) ivs"
proof -
  let ?c = "sample_keyed_client 4" and ?ps = "[[1], [2], [3]] :: bytes list"
  have "crypto_lengths (l_crypto sample_host_libs)" "aead_correct (l_crypto sample_host_libs)"
    using sample_crypto_correct by (simp_all add: crypto_correct_def)
  from client_requests_all [OF this sample_keyed_client_ready [of 4] sample_client_keyed [of 4], of ?ps]
  obtain n where n: "map fst (client_requests sample_host_libs n ?ps ?c) = ?ps" by blast
  have len: "length (cl_static_iv ?c) = IV_SIZE" "length (cl_dynamic_iv ?c) = IV_SIZE"
    by (simp_all add: sample_keyed_client_def sample_client_def Let_def IV_SIZE_def)
  have "fb_roundtrip (l_fb sample_host_libs)" "length ?ps \<le> 2 ^ 96" using sample_codec_roundtrip by simp_all
  from request_ivs_never_repeat [OF this(1) len this(2), of n] n show ?thesis by (elim exE conjE) (intro exI conjI)
qed

text \<open>
  C9: in every run of a server with the random Ed25519 provider, through any messages and any
  refreshes, also those that throw, the public keys it hands out belong to its current private key,
  its nonce has the right size and its provider holds two keys of 32 bytes.
\<close>

theorem server_keys_always_current:
  assumes "server_run L RandomEd25519KeyProvider_DoRefreshKey f kp s"
    and "crypto_lengths (l_crypto L)" and "ed25519_inv kp"
  shows "ed25519_inv (srv_key_provider s) \<and> server_keyed L s"
  using assms by (rule ed25519_kp.server_run_keyed)

theorem server_keys_always_current_witness:
  "\<exists>s w s' w'. Server_new sample_enclave_libs [11, 12] (sample_key_provider 64 4) sample_world = (Inr s, w)
     \<and> Server_RefreshKey sample_enclave_libs RandomEd25519KeyProvider_DoRefreshKey False (s, w) = (Inr True, (s', w'))
     \<and> ed25519_inv (srv_key_provider s') \<and> server_keyed sample_enclave_libs s'"
proof -
  obtain s w where n: "Server_new sample_enclave_libs [11, 12] (sample_key_provider 64 4) sample_world = (Inr s, w)"
    using sample_server_new by blast
  have i: "ed25519_inv (sample_key_provider 64 4)"
    by (simp add: ed25519_inv_def kp_sized_def sample_key_provider_def)
  have sp: "srv_key_provider s = sample_key_provider 64 4"
    using Server_new_inv [OF _ _ n] by (simp add: sample_key_provider_def KEY_SIZE_def)
  obtain s' w' where r: "Server_RefreshKey sample_enclave_libs RandomEd25519KeyProvider_DoRefreshKey False (s, w)
      = (Inr True, (s', w'))"
    using Server_RefreshKey_ed25519_succeeds [of sample_enclave_libs s w] i sp by (auto simp: sample_oe_def)
  let ?f = "\<lambda>q w :: world. (Inr q, w)"
  have "server_run sample_enclave_libs RandomEd25519KeyProvider_DoRefreshKey ?f (sample_key_provider 64 4) s"
    by (rule run_start [OF n])
  then have "server_run sample_enclave_libs RandomEd25519KeyProvider_DoRefreshKey ?f (sample_key_provider 64 4) s'"
    using r by (rule run_refresh)
  from server_keys_always_current [OF this _ i] n r show ?thesis by auto
qed

text \<open>
  C7: the outcome of a request depends on the callback only if the request decrypts and
  authenticates under the key derived from the client's share and a private key the server holds
  for the requested version; the callback then sees exactly that plaintext.
\<close>

theorem callback_needs_authentic_request:
  assumes "Server_HandleRequest L D f r n (s, w) \<noteq> Server_HandleRequest L D g r n (s, w)"
  shows "\<exists>s' w' key share pk iv tag ct k siv xiv secret p.
       Server_SyncForClient L D (req_key_version r) (s, w) = (Inr (), (s', w'))
     \<and> GetKey (srv_key_provider s') (req_key_version r) = Inr key
     \<and> req_client_share r = Some share \<and> ec_xy share = Some pk
     \<and> ComputeSharedSecretCurve25519 (l_crypto L) key pk [] = Inr secret
     \<and> DeriveSymmetricKey (l_crypto L) secret False [] [] = Inr (k, siv)
     \<and> req_iv r = Some iv \<and> xor_ivs siv iv = Inr xiv \<and> req_tag r = Some tag \<and> req_ciphertext r = Some ct
     \<and> Decrypt (l_crypto L) k xiv tag ct (case req_additional_data r of None \<Rightarrow> [] | Some d \<Rightarrow> d)
         (vec_resize (length ct) []) = Inr p
     \<and> f p w' \<noteq> g p w'"
proof -
  obtain x s' w' where sy: "Server_SyncForClient L D (req_key_version r) (s, w) = (x, (s', w'))"
    by (metis surj_pair)
  with assms have x: "x = Inr ()" by (cases x) (auto simp: Server_HandleRequest_def cthen_def cbind_def)
  from assms sy x obtain secret p where o: "Server_OpenRequest L s' r = Inr (secret, p)"
    by (cases "Server_OpenRequest L s' r") (auto simp: Server_HandleRequest_def cthen_def cbind_def)
  have "f p w' \<noteq> g p w'"
    using assms sy x o by (auto simp: Server_HandleRequest_def cthen_def cbind_def)
  with Server_OpenRequest_Inr [OF o] sy x show ?thesis by blast
qed

theorem callback_needs_authentic_request_witness:
  "\<exists>r k p tag ct. Server_HandleRequest sample_enclave_libs StaticKeyProvider_DoRefreshKey (\<lambda>q w. (Inr q, w)) r 100000
       (sample_server 4, sample_world)
     \<noteq> Server_HandleRequest sample_enclave_libs StaticKeyProvider_DoRefreshKey (\<lambda>q w. (Inl (InferenceError []), w)) r 100000
       (sample_server 4, sample_world)
   \<and> req_ciphertext r = Some ct
   \<and> (\<exists>xiv ad. Decrypt sample_crypto k xiv tag ct ad (vec_resize (length ct) []) = Inr p)"
proof -
  note l = linkedD [OF sample_linked]
  let ?c = "sample_keyed_client 4" and ?s = "sample_server 4" and ?D = StaticKeyProvider_DoRefreshKey
  let ?r = "client_request sample_host_libs ?c [1]"
  have o: "Server_OpenRequest sample_enclave_libs ?s ?r
    = Inr (EverCrypt_Curve25519_ecdh (l_crypto sample_enclave_libs) (replicate 32 64) (cl_public_key ?c), [1])"
    by (rule Server_OpenRequest_ok [OF l(3,5,1) sample_keyed_client_ready sample_client_keyed])
       (simp_all add: GetKey_def sample_server_key KEY_SIZE_def)
  have v: "req_key_version ?r = 4"
    by (simp add: client_request_def sample_keyed_client_def Let_def)
  have sec: "length (EverCrypt_Curve25519_ecdh (l_crypto sample_enclave_libs) (replicate 32 64) (cl_public_key ?c)) = KEY_SIZE"
    using l(3) by (simp add: crypto_lengths_def)
  have "IsKeyOutdated (srv_key_provider ?s) 4 = Inr False"
    by (simp add: IsKeyOutdated_def sample_server_key)
  note seal = Server_SealResponse_ok [OF l(3,5) sec this]
  have "Server_HandleRequest sample_enclave_libs ?D (\<lambda>q w. (Inr q, w)) ?r 100000 (?s, sample_world)
     \<noteq> Server_HandleRequest sample_enclave_libs ?D (\<lambda>q w. (Inl (InferenceError []), w)) ?r 100000 (?s, sample_world)"
    using o v seal
    by (auto simp: Server_HandleRequest_def Server_SyncForClient_def cthen_def cbind_def sample_server_key
        WriteMessage_def)
  from this callback_needs_authentic_request [OF this] show ?thesis
    by (intro exI [of _ ?r]) (auto, blast)
qed

text \<open>
  C40: two responses to the same client under the same key version are encrypted under the same
  symmetric key and the same IV: the server uses the derived IV as it is, unlike the client, which
  combines it with a counter.
\<close>

theorem response_iv_reused:
  assumes "crypto_correct (l_crypto L)" and "fb_roundtrip (l_fb L)" and "length secret = KEY_SIZE"
    and "Server_SealResponse L s v secret a1 n = Inr m1" and "Server_SealResponse L s v secret a2 n = Inr m2"
  shows "\<exists>k iv b r1 r2. length k = SYMMETRIC_KEY_SIZE \<and> length iv = IV_SIZE
    \<and> fb_decode (l_fb L) m1 = Some \<lparr>msg_version = Version_v1, msg_body = Body_Response (Some r1)\<rparr>
    \<and> fb_decode (l_fb L) m2 = Some \<lparr>msg_version = Version_v1, msg_body = Body_Response (Some r2)\<rparr>
    \<and> res_iv r1 = Some iv \<and> res_iv r2 = Some iv
    \<and> res_ciphertext r1 = Some (aead_cipher (l_crypto L) k iv (srv_nonce s) a1)
    \<and> res_ciphertext r2 = Some (aead_cipher (l_crypto L) k iv (srv_nonce s) a2)"
proof -
  have C: "crypto_lengths (l_crypto L)" "aead_correct (l_crypto L)"
    using assms(1) by (simp_all add: crypto_correct_def)
  obtain b where b: "IsKeyOutdated (srv_key_provider s) v = Inr b"
    using assms(4) by (auto simp: Server_SealResponse_def rbind_Inr_iff)
  have "m1 = fb_encode (l_fb L) \<lparr>msg_version = Version_v1, msg_body = Body_Response (Some (server_response L s secret a1 b))\<rparr>"
    "m2 = fb_encode (l_fb L) \<lparr>msg_version = Version_v1, msg_body = Body_Response (Some (server_response L s secret a2 b))\<rparr>"
    using assms(4,5) by (simp_all add: Server_SealResponse_ok [OF C assms(3) b] WriteMessage_Inr_iff)
  with assms(2) C(1) show ?thesis
    by (intro exI [of _ "derived_key (l_crypto L) True secret"] exI [of _ "derived_iv (l_crypto L) True secret"])
       (simp add: fb_roundtrip_def server_response_def Let_def)
qed


theorem response_iv_reused_witness:
  "\<exists>n m1 m2 r1 r2. Server_SealResponse sample_enclave_libs (sample_server 4) 4 (replicate 32 0) [1, 2] n = Inr m1
     \<and> Server_SealResponse sample_enclave_libs (sample_server 4) 4 (replicate 32 0) [3, 4] n = Inr m2
     \<and> fb_decode sample_codec m1 = Some \<lparr>msg_version = Version_v1, msg_body = Body_Response (Some r1)\<rparr>
     \<and> fb_decode sample_codec m2 = Some \<lparr>msg_version = Version_v1, msg_body = Body_Response (Some r2)\<rparr>
     \<and> res_iv r1 = res_iv r2"
proof -
  note l = linkedD [OF sample_linked]
  have k: "length (replicate 32 0 :: bytes) = KEY_SIZE" by (simp add: KEY_SIZE_def)
  have o: "IsKeyOutdated (srv_key_provider (sample_server 4)) 4 = Inr False"
    by (simp add: IsKeyOutdated_def sample_server_key)
  obtain n m1 m2 where
    m: "Server_SealResponse sample_enclave_libs (sample_server 4) 4 (replicate 32 0) [1, 2] n = Inr m1"
      "Server_SealResponse sample_enclave_libs (sample_server 4) 4 (replicate 32 0) [3, 4] n = Inr m2"
    unfolding Server_SealResponse_ok [OF l(3,5) k o] WriteMessage_Inr_iff by (metis linear)
  show ?thesis
    using response_iv_reused [OF _ _ k m] m sample_crypto_correct sample_codec_roundtrip by fastforce
qed

end
